(* ===== verification/Prelude.thy ===== *)
theory Prelude
  imports Main "HOL-Library.Word" "HOL-Library.Monad_Syntax"
begin

text \<open>
  Shared vocabulary of the development: the machine integers of the C sources, collections of
  rewrite rules the component theories add to, and the generic facts on options, lists, keyed
  lists and words that several components use.
\<close>

unbundle bit_operations_syntax

section \<open>Machine integers\<close>

text \<open>
  The sources are C11 for AArch64 (the Raspberry Pi) and x86-64 (the test host): both are LP64,
  so \<open>size_t\<close> and \<open>unsigned long\<close> have 64 bits and \<open>unsigned int\<close> has 32. A \<open>time_t\<close> is a
  signed number of seconds; the code only compares it with \<open>-1\<close> and subtracts two of them with
  \<open>difftime\<close>, so it is an unbounded integer here.
\<close>

type_synonym u8 = "8 word"
type_synonym u16 = "16 word"
type_synonym u32 = "32 word"
type_synonym u64 = "64 word"
type_synonym time_t = int

abbreviation time_error :: time_t where
  "time_error \<equiv> - 1"

section \<open>Collections of rules\<close>

named_theorems byte_simps "reading bytes out of buffers"
named_theorems layout_simps "byte layouts of the protocol headers"
named_theorems model_simps "unconditional rewrite rules of the model's operations"

section \<open>Options and lists\<close>

lemma bind_option_eq_Some:
  "(Option.bind m f = Some y) = (\<exists>x. m = Some x \<and> f x = Some y)"
  by (cases m) auto

lemma bind_SomeE:
  assumes "Option.bind m f = Some y"
  obtains x where "m = Some x" and "f x = Some y"
  using assms by (cases m) auto

lemma if_not_SomeE:
  assumes "(if \<not> c then m else n) = Some y"
  obtains "\<not> c" and "m = Some y" | "c" and "n = Some y"
  using assms by (cases c) auto

lemma if_SomeE:
  assumes "(if c then m else n) = Some y"
  obtains "c" and "m = Some y" | "\<not> c" and "n = Some y"
  using assms by (cases c) auto

lemma Some_SomeE:
  assumes "Some x = Some y"
  obtains "y = x"
  using assms by simp

lemma card_keys: "distinct (map f xs) \<Longrightarrow> card (f ` set xs) = length xs"
  by (metis distinct_card length_map list.set_map)

lemma if_eqE:
  assumes "(if c then m else n) = y"
  obtains "c" and "m = y" | "\<not> c" and "n = y"
  using assms by (cases c) auto

lemmas some_elims = bind_SomeE if_not_SomeE if_SomeE Some_SomeE

lemma map_option_bind:
  "map_option f (Option.bind m g) = Option.bind m (\<lambda>x. map_option f (g x))"
  by (cases m) simp_all

lemma bind_map_option:
  "Option.bind (map_option f m) g = Option.bind m (\<lambda>x. g (f x))"
  by (cases m) simp_all

lemma option_case_map:
  "(case map_option f m of None \<Rightarrow> a | Some y \<Rightarrow> g y) = (case m of None \<Rightarrow> a | Some x \<Rightarrow> g (f x))"
  by (cases m) auto

lemma map_of_filter_keyed:
  assumes "distinct (map k xs)"
  shows "map_of (map (\<lambda>x. (k x, v x)) (filter P xs)) =
         (\<lambda>key. case map_of (map (\<lambda>x. (k x, x)) xs) key of
                  None \<Rightarrow> None | Some x \<Rightarrow> if P x then Some (v x) else None)"
  using assms
proof (induction xs)
  case Nil
  then show ?case by simp
next
  case (Cons x xs)
  then have "map_of (map (\<lambda>x. (k x, x)) xs) (k x) = None"
    by (simp add: map_of_eq_None_iff image_image)
  with Cons show ?case by (auto simp: fun_eq_iff)
qed

lemma map_of_keyed_Some:
  assumes "distinct (map k xs)"
  shows "map_of (map (\<lambda>x. (k x, x)) xs) key = Some x \<longleftrightarrow> x \<in> set xs \<and> k x = key"
  using assms by (induction xs) (auto simp: image_iff)

lemma distinct_map_filter_keyed:
  "distinct (map k xs) \<Longrightarrow> distinct (map k (filter P xs))"
  by (induction xs) (auto simp: image_iff)

lemma bex_take:
  "(\<exists>x \<in> set (take i xs). P x) \<longleftrightarrow> (\<exists>j < min i (length xs). P (xs ! j))"
proof
  assume "\<exists>x \<in> set (take i xs). P x"
  then obtain x where x: "x \<in> set (take i xs)" "P x" by blast
  then obtain j where "j < min i (length xs)" "xs ! j = x"
    unfolding in_set_conv_nth by auto
  with x show "\<exists>j < min i (length xs). P (xs ! j)" by blast
next
  assume "\<exists>j < min i (length xs). P (xs ! j)"
  then obtain j where j: "j < min i (length xs)" "P (xs ! j)" by blast
  then have "xs ! j \<in> set (take i xs)"
    unfolding in_set_conv_nth by (intro exI [of _ j]) simp
  with j show "\<exists>x \<in> set (take i xs). P x" by blast
qed

section \<open>Words\<close>

lemma unat_of_nat_small:
  "n < 256 \<Longrightarrow> unat (of_nat n :: u8) = n"
  "m < 2 ^ 64 \<Longrightarrow> unat (of_nat m :: u64) = m"
  by (simp_all add: unsigned_of_nat take_bit_nat_eq_self)

lemma word_minus_mono:
  fixes n m h :: "'a::len word"
  assumes "h \<le> n" "n \<le> m"
  shows "n - h \<le> m - h"
proof -
  have "unat n - unat h \<le> unat m - unat h" using assms by (simp add: word_le_nat_alt)
  then show ?thesis using assms by (simp add: word_le_nat_alt unat_sub)
qed

lemma unat_minus_of_le:
  fixes a b :: "'a::len word"
  shows "b \<le> a \<Longrightarrow> unat (a - b) = unat a - unat b"
  by (rule unat_sub)

lemma unat_increment_u64:
  fixes x :: u64
  shows "unat x + 1 < 2 ^ 64 \<Longrightarrow> unat (x + 1) = unat x + 1"
  by (simp add: unat_word_ariths)

lemma unat_less_numeral_u8: "unat (x :: u8) < 256"
  using unsigned_less [of x] by simp

lemma unat_less_numeral_u16: "unat (x :: u16) < 65536"
  using unsigned_less [of x] by simp

lemma unat_nibble_u8:
  fixes b :: u8
  shows "unat (drop_bit 4 b) < 16" and "unat (b AND 15) < 16"
proof -
  show "unat (drop_bit 4 b) < 16"
    using unat_less_numeral_u8 [of b] unfolding unat_drop_bit_eq
    by (simp add: drop_bit_nat_def less_mult_imp_div_less)
  have "b AND 15 \<le> 15" by (rule word_and_le1)
  then show "unat (b AND 15) < 16" by (simp add: word_le_nat_alt)
qed

lemma unat_ucast_up [simp]:
  "unat (ucast (b :: u8) :: u16) = unat b"
  "unat (ucast (b :: u8) :: u32) = unat b"
  "unat (ucast (b :: u8) :: u64) = unat b"
  "unat (ucast (h :: u16) :: u32) = unat h"
  "unat (ucast (h :: u16) :: u64) = unat h"
  using unat_less_numeral_u8 [of b] unat_less_numeral_u16 [of h]
  by (simp_all add: unsigned_ucast_eq take_bit_nat_eq_self)

lemmas word_bounds = word_less_nat_alt word_le_nat_alt not_less

end
