(* ===== verification/C_Runtime.thy ===== *)
theory C_Runtime
  imports Prelude
begin

text \<open>
  What the sources use of the C language and its library: reads from a byte buffer that fault
  outside it, the byte order of the host with \<open>ntohs\<close> and \<open>ntohl\<close>, the conversion
  \<open>(unsigned int)difftime(...)\<close>, and the bounded string copies (\<open>strncpy\<close> with an explicit
  terminator, \<open>snprintf\<close>).
\<close>

section \<open>Reading memory\<close>

text \<open>
  A pointer into a packet is the list of the bytes that may be read from it; advancing it by
  \<open>n\<close> is \<open>drop n\<close>. A read that leaves the list is undefined behaviour in C and
  \<open>None\<close> here, so a result \<open>Some\<close> says that every access was inside the buffer.
\<close>

definition load_bytes :: "u8 list \<Rightarrow> nat \<Rightarrow> nat \<Rightarrow> u8 list option" where
  "load_bytes buffer offset n =
     (if offset + n \<le> length buffer then Some (take n (drop offset buffer)) else None)"

definition load_u8 :: "u8 list \<Rightarrow> nat \<Rightarrow> u8 option" where
  "load_u8 buffer offset = (if offset < length buffer then Some (buffer ! offset) else None)"

lemma load_bytes_Some [byte_simps]:
  "offset + n \<le> length buffer \<Longrightarrow> load_bytes buffer offset n = Some (take n (drop offset buffer))"
  by (simp add: load_bytes_def)

lemma load_u8_Some [byte_simps]:
  "offset + 1 \<le> length buffer \<Longrightarrow> load_u8 buffer offset = Some (buffer ! offset)"
  by (simp add: load_u8_def)

lemma load_bytes_length:
  "load_bytes buffer offset n = Some bs \<Longrightarrow> length bs = n"
  by (auto simp: load_bytes_def split: if_splits)

lemma load_bytes_append:
  "load_bytes buffer offset n = Some bs \<Longrightarrow> load_bytes (buffer @ rest) offset n = Some bs"
  by (auto simp: load_bytes_def split: if_splits)

lemma load_u8_append:
  "load_u8 buffer offset = Some b \<Longrightarrow> load_u8 (buffer @ rest) offset = Some b"
  by (auto simp: load_u8_def nth_append split: if_splits)

section \<open>Byte order\<close>

text \<open>The order in which the host keeps the bytes of an integer in memory.\<close>

datatype endian = Little | Big

definition be16 :: "u8 \<Rightarrow> u8 \<Rightarrow> u16" where
  "be16 hi lo = push_bit 8 (ucast hi) OR ucast lo"

definition be32 :: "u8 \<Rightarrow> u8 \<Rightarrow> u8 \<Rightarrow> u8 \<Rightarrow> u32" where
  "be32 b0 b1 b2 b3 =
     push_bit 24 (ucast b0) OR push_bit 16 (ucast b1) OR push_bit 8 (ucast b2) OR ucast b3"

text \<open>The integer whose memory bytes are the given ones (\<open>memcpy\<close> into an integer).\<close>

definition host_u16 :: "endian \<Rightarrow> u8 list \<Rightarrow> u16" where
  "host_u16 en bs = (case en of Big \<Rightarrow> be16 (bs ! 0) (bs ! 1) | Little \<Rightarrow> be16 (bs ! 1) (bs ! 0))"

definition host_u32 :: "endian \<Rightarrow> u8 list \<Rightarrow> u32" where
  "host_u32 en bs =
     (case en of
        Big \<Rightarrow> be32 (bs ! 0) (bs ! 1) (bs ! 2) (bs ! 3)
      | Little \<Rightarrow> be32 (bs ! 3) (bs ! 2) (bs ! 1) (bs ! 0))"

definition bswap16 :: "u16 \<Rightarrow> u16" where
  "bswap16 x = be16 (ucast x) (ucast (drop_bit 8 x))"

definition bswap32 :: "u32 \<Rightarrow> u32" where
  "bswap32 x =
     be32 (ucast x) (ucast (drop_bit 8 x)) (ucast (drop_bit 16 x)) (ucast (drop_bit 24 x))"

definition ntohs :: "endian \<Rightarrow> u16 \<Rightarrow> u16" where
  "ntohs en x = (case en of Big \<Rightarrow> x | Little \<Rightarrow> bswap16 x)"

definition ntohl :: "endian \<Rightarrow> u32 \<Rightarrow> u32" where
  "ntohl en x = (case en of Big \<Rightarrow> x | Little \<Rightarrow> bswap32 x)"

text \<open>The memory bytes of an integer, the inverse of the loads above.\<close>

definition mem_u32 :: "endian \<Rightarrow> u32 \<Rightarrow> u8 list" where
  "mem_u32 en x =
     (let be = [ucast (drop_bit 24 x), ucast (drop_bit 16 x), ucast (drop_bit 8 x), ucast x]
      in case en of Big \<Rightarrow> be | Little \<Rightarrow> rev be)"

lemma ucast_be16:
  "(ucast (be16 a b) :: u8) = b" "(ucast (drop_bit 8 (be16 a b)) :: u8) = a"
  by (rule bit_word_eqI; auto simp: be16_def bit_simps dest: bit_imp_le_length)+

lemma ucast_be32:
  "(ucast (be32 a b c d) :: u8) = d"
  "(ucast (drop_bit 8 (be32 a b c d)) :: u8) = c"
  "(ucast (drop_bit 16 (be32 a b c d)) :: u8) = b"
  "(ucast (drop_bit 24 (be32 a b c d)) :: u8) = a"
  by (rule bit_word_eqI; auto simp: be32_def bit_simps dest: bit_imp_le_length)+

lemma be16_inverse [byte_simps]: "be16 (ucast (drop_bit 8 x)) (ucast x) = x"
  by (rule bit_word_eqI) (auto simp: be16_def bit_simps)

lemma bswap16_be16 [byte_simps]: "bswap16 (be16 a b) = be16 b a"
  by (simp add: bswap16_def ucast_be16)

lemma bswap32_be32 [byte_simps]: "bswap32 (be32 a b c d) = be32 d c b a"
  by (simp add: bswap32_def ucast_be32)

lemma ntohs_host_u16 [byte_simps]: "ntohs en (host_u16 en bs) = be16 (bs ! 0) (bs ! 1)"
  by (cases en) (simp_all add: ntohs_def host_u16_def byte_simps)

lemma ntohl_host_u32 [byte_simps]:
  "ntohl en (host_u32 en bs) = be32 (bs ! 0) (bs ! 1) (bs ! 2) (bs ! 3)"
  by (cases en) (simp_all add: ntohl_def host_u32_def byte_simps)

text \<open>Storing an address that was loaded from memory gives back the bytes it was loaded from.\<close>

lemma mem_u32_host_u32 [byte_simps]:
  assumes "length bs = 4"
  shows "mem_u32 en (host_u32 en bs) = bs"
proof -
  from assms obtain a b c d where "bs = [a, b, c, d]"
    by (auto simp: numeral_eq_Suc length_Suc_conv)
  then show ?thesis
    by (cases en) (simp_all add: mem_u32_def host_u32_def ucast_be32)
qed

section \<open>Elapsed time\<close>

text \<open>
  The code measures an age as \<open>(unsigned int)difftime(now, then)\<close>. The difference of two times
  is exact in a \<open>double\<close> when it is below \<open>2 ^ 53\<close>; C fixes its conversion to \<open>unsigned int\<close>
  only when it lies in \<open>0 .. 2 ^ 32 - 1\<close> and leaves every other case undefined. The model takes
  the conversion of the platform as a parameter \<open>cvt\<close>, and the locale below is all that the
  language promises of it.
\<close>

definition difftime_u32 :: "(int \<Rightarrow> u32) \<Rightarrow> time_t \<Rightarrow> time_t \<Rightarrow> u32" where
  "difftime_u32 cvt now seen_at = cvt (now - seen_at)"

locale double_to_unsigned =
  fixes cvt :: "int \<Rightarrow> u32"
  assumes cvt_in_range: "0 \<le> d \<Longrightarrow> d < 2 ^ 32 \<Longrightarrow> cvt d = word_of_int d"
begin

lemma uint_cvt: "0 \<le> d \<Longrightarrow> d < 2 ^ 32 \<Longrightarrow> uint (cvt d) = d"
  by (simp add: cvt_in_range unsigned_of_int take_bit_int_eq_self)

lemma uint_difftime:
  "seen_at \<le> now \<Longrightarrow> now - seen_at < 2 ^ 32 \<Longrightarrow>
   uint (difftime_u32 cvt now seen_at) = now - seen_at"
  by (simp add: difftime_u32_def uint_cvt)

lemma older_than_window:
  "seen_at \<le> now \<Longrightarrow> now - seen_at < 2 ^ 32 \<Longrightarrow>
   (difftime_u32 cvt now seen_at > w) = (now - seen_at > uint w)"
  by (simp add: word_less_def uint_difftime)

lemma within_window:
  "seen_at \<le> now \<Longrightarrow> now - seen_at < 2 ^ 32 \<Longrightarrow>
   (difftime_u32 cvt now seen_at \<le> w) = (now - seen_at \<le> uint w)"
  by (simp add: word_le_def uint_difftime)

end

text \<open>
  The two platforms of the Makefile. AArch64 converts with FCVTZU, which saturates; compilers
  for x86-64 convert through a signed 64-bit register and keep the low half, which wraps.
\<close>

definition cvt_saturating :: "int \<Rightarrow> u32" where
  "cvt_saturating d = (if d < 0 then 0 else if d < 2 ^ 32 then word_of_int d else - 1)"

definition cvt_wrapping :: "int \<Rightarrow> u32" where
  "cvt_wrapping d = word_of_int d"

interpretation aarch64: double_to_unsigned cvt_saturating
  by unfold_locales (simp add: cvt_saturating_def)

interpretation x86_64: double_to_unsigned cvt_wrapping
  by unfold_locales (simp add: cvt_wrapping_def)

section \<open>Bounded C strings\<close>

text \<open>
  A character buffer is the string it holds up to its terminating NUL. \<open>strncpy\<close> followed by
  \<open>destination[size - 1] = NUL\<close> and \<open>snprintf\<close> with the format \<open>%s\<close> both leave the longest
  prefix that fits; \<open>snprintf\<close> returns the length it would have written. The sources call
  them with a positive size only.
\<close>

definition c_strncpy :: "nat \<Rightarrow> string \<Rightarrow> string" where
  "c_strncpy cap source = take (cap - 1) source"

definition c_snprintf :: "nat \<Rightarrow> string \<Rightarrow> string" where
  "c_snprintf cap text = take (cap - 1) text"

text \<open>\<open>snprintf(buffer + written, cap - written, ...)\<close>: the new contents and the return value.\<close>

definition c_snprintf_at :: "nat \<Rightarrow> string \<Rightarrow> nat \<Rightarrow> string \<Rightarrow> string \<times> nat" where
  "c_snprintf_at cap buffer written text =
     (take written buffer @ take (cap - written - 1) text, length text)"

lemma c_snprintf_fits [simp]: "length text < cap \<Longrightarrow> c_snprintf cap text = text"
  by (simp add: c_snprintf_def)

lemma c_strncpy_fits [simp]: "length text < cap \<Longrightarrow> c_strncpy cap text = text"
  by (simp add: c_strncpy_def)

lemma c_string_bounded:
  "0 < cap \<Longrightarrow> length (c_snprintf cap text) < cap"
  "0 < cap \<Longrightarrow> length (c_strncpy cap text) < cap"
  by (auto simp: c_snprintf_def c_strncpy_def min_def)

end
