(* ===== verification/Packet_Info.thy ===== *)
theory Packet_Info
  imports C_Runtime
begin

text \<open>
  The parsed packet of \<open>include/packet_info.h\<close>: the service hints, the record \<open>PacketInfo\<close> with
  the fields of the struct in their order, and \<open>packet_info_reset\<close> of \<open>src/parser.c\<close>. A MAC
  address is a list of six bytes. The three IPv4 address fields hold the four bytes of the
  packet in the host's own byte order, as \<open>memcpy\<close> leaves them.
\<close>

datatype service_hint =
    SERVICE_HINT_NONE
  | SERVICE_HINT_SSH
  | SERVICE_HINT_HTTP
  | SERVICE_HINT_HTTPS
  | SERVICE_HINT_DNS
  | SERVICE_HINT_DHCP

record packet_info =
  captured_length :: u64
  wire_length :: u64
  has_ethernet :: bool
  src_mac :: "u8 list"
  dst_mac :: "u8 list"
  ether_type :: u16
  is_ipv6_observed :: bool
  has_arp :: bool
  arp_opcode :: u16
  arp_sender_mac :: "u8 list"
  arp_target_mac :: "u8 list"
  arp_sender_ipv4 :: u32
  arp_target_ipv4 :: u32
  has_ipv4 :: bool
  ipv4_version :: u8
  ipv4_ihl :: u8
  ipv4_total_length :: u16
  ip_protocol :: u8
  src_ipv4 :: u32
  dst_ipv4 :: u32
  ipv4_fragmented :: bool
  ipv4_l4_header_available :: bool
  has_icmp :: bool
  icmp_type :: u8
  icmp_code :: u8
  has_ports :: bool
  src_port :: u16
  dst_port :: u16
  has_tcp :: bool
  tcp_sequence :: u32
  tcp_acknowledgment :: u32
  tcp_header_length :: u8
  tcp_flags :: u8
  has_udp :: bool
  udp_length :: u16
  service_hint :: service_hint
  malformed :: bool
  truncated :: bool

text \<open>The bits of \<open>tcp_flags\<close>, from \<open>netinet/tcp.h\<close>.\<close>

abbreviation "TH_FIN \<equiv> (0x01 :: u8)"
abbreviation "TH_SYN \<equiv> (0x02 :: u8)"
abbreviation "TH_RST \<equiv> (0x04 :: u8)"
abbreviation "TH_PUSH \<equiv> (0x08 :: u8)"
abbreviation "TH_ACK \<equiv> (0x10 :: u8)"
abbreviation "TH_URG \<equiv> (0x20 :: u8)"

text \<open>Message types of \<open>netinet/ip_icmp.h\<close>.\<close>

abbreviation "ICMP_ECHO \<equiv> (8 :: u8)"
abbreviation "ICMP_ECHOREPLY \<equiv> (0 :: u8)"

text \<open>The struct after \<open>memset(info, 0, sizeof(*info))\<close>.\<close>

definition packet_info_zero :: packet_info where
  "packet_info_zero =
     \<lparr> captured_length = 0, wire_length = 0,
       has_ethernet = False, src_mac = replicate 6 0, dst_mac = replicate 6 0, ether_type = 0,
       is_ipv6_observed = False,
       has_arp = False, arp_opcode = 0, arp_sender_mac = replicate 6 0,
       arp_target_mac = replicate 6 0, arp_sender_ipv4 = 0, arp_target_ipv4 = 0,
       has_ipv4 = False, ipv4_version = 0, ipv4_ihl = 0, ipv4_total_length = 0, ip_protocol = 0,
       src_ipv4 = 0, dst_ipv4 = 0, ipv4_fragmented = False, ipv4_l4_header_available = False,
       has_icmp = False, icmp_type = 0, icmp_code = 0,
       has_ports = False, src_port = 0, dst_port = 0,
       has_tcp = False, tcp_sequence = 0, tcp_acknowledgment = 0, tcp_header_length = 0,
       tcp_flags = 0,
       has_udp = False, udp_length = 0,
       service_hint = SERVICE_HINT_NONE,
       malformed = False, truncated = False \<rparr>"

text \<open>A \<open>NULL\<close> pointer is \<open>None\<close>: the reset returns without touching anything.\<close>

definition packet_info_reset :: "packet_info option \<Rightarrow> u64 \<Rightarrow> u64 \<Rightarrow> packet_info option" where
  "packet_info_reset info cap_len wire_len =
     (case info of
        None \<Rightarrow> None
      | Some _ \<Rightarrow>
          Some (packet_info_zero
            \<lparr> captured_length := cap_len,
              wire_length := wire_len,
              service_hint := SERVICE_HINT_NONE \<rparr>))"

text \<open>The reset struct, for the callers that pass a valid pointer.\<close>

abbreviation fresh_packet_info :: "u64 \<Rightarrow> u64 \<Rightarrow> packet_info" where
  "fresh_packet_info cap_len wire_len \<equiv>
     packet_info_zero\<lparr>captured_length := cap_len, wire_length := wire_len,
       service_hint := SERVICE_HINT_NONE\<rparr>"

lemma packet_info_reset_Some [simp]:
  "packet_info_reset (Some info) cap_len wire_len = Some (fresh_packet_info cap_len wire_len)"
  by (simp add: packet_info_reset_def)

lemma packet_info_zero_flags [simp]:
  "\<not> has_ethernet packet_info_zero" "\<not> is_ipv6_observed packet_info_zero"
  "\<not> has_arp packet_info_zero" "\<not> has_ipv4 packet_info_zero"
  "\<not> ipv4_fragmented packet_info_zero" "\<not> ipv4_l4_header_available packet_info_zero"
  "\<not> has_icmp packet_info_zero" "\<not> has_ports packet_info_zero"
  "\<not> has_tcp packet_info_zero" "\<not> has_udp packet_info_zero"
  "\<not> malformed packet_info_zero" "\<not> truncated packet_info_zero"
  "service_hint packet_info_zero = SERVICE_HINT_NONE"
  by (simp_all add: packet_info_zero_def)

end
