(* ===== verification/Parser.thy ===== *)
theory Parser
  imports Packet_Info
begin

text \<open>
  The packet parser of \<open>src/parser.c\<close>. Every function takes the bytes its pointer may read and
  the length the caller claims for them; its result is \<open>None\<close> exactly when some read left the
  buffer, which in C is undefined behaviour.
\<close>

section \<open>Constants of the protocol headers\<close>

abbreviation "ETHERTYPE_IP \<equiv> (0x0800 :: u16)"
abbreviation "ETHERTYPE_ARP \<equiv> (0x0806 :: u16)"
abbreviation "ETHERTYPE_IPV6 \<equiv> (0x86dd :: u16)"
abbreviation "ARPHRD_ETHER \<equiv> (1 :: u16)"
abbreviation "IPPROTO_ICMP \<equiv> (1 :: u8)"
abbreviation "IPPROTO_TCP \<equiv> (6 :: u8)"
abbreviation "IPPROTO_UDP \<equiv> (17 :: u8)"

abbreviation "sizeof_ether_header \<equiv> (14 :: u64)"
abbreviation "sizeof_arphdr \<equiv> (8 :: u64)"
abbreviation "sizeof_ip \<equiv> (20 :: u64)"
abbreviation "sizeof_icmphdr \<equiv> (8 :: u64)"
abbreviation "sizeof_tcphdr \<equiv> (20 :: u64)"
abbreviation "sizeof_udphdr \<equiv> (8 :: u64)"

section \<open>The parser\<close>

definition read_u16_be :: "endian \<Rightarrow> u8 list \<Rightarrow> u16 option" where
  "read_u16_be en buffer = do {
     bytes \<leftarrow> load_bytes buffer 0 2;
     Some (ntohs en (host_u16 en bytes)) }"

definition read_u32_be :: "endian \<Rightarrow> u8 list \<Rightarrow> u32 option" where
  "read_u32_be en buffer = do {
     bytes \<leftarrow> load_bytes buffer 0 4;
     Some (ntohl en (host_u32 en bytes)) }"

text \<open>\<open>memcpy\<close> of four bytes into a field, without a change of byte order.\<close>

definition copy_u32 :: "endian \<Rightarrow> u8 list \<Rightarrow> u32 option" where
  "copy_u32 en buffer = map_option (host_u32 en) (load_bytes buffer 0 4)"

definition detect_service_hint :: "u8 \<Rightarrow> u16 \<Rightarrow> u16 \<Rightarrow> service_hint" where
  "detect_service_hint protocol sport dport =
     (if protocol = IPPROTO_TCP \<and> (dport = 22 \<or> sport = 22) then SERVICE_HINT_SSH
      else if protocol = IPPROTO_TCP \<and> (dport = 80 \<or> sport = 80) then SERVICE_HINT_HTTP
      else if protocol = IPPROTO_TCP \<and> (dport = 443 \<or> sport = 443) then SERVICE_HINT_HTTPS
      else if protocol = IPPROTO_UDP \<and> (dport = 53 \<or> sport = 53) then SERVICE_HINT_DNS
      else if protocol = IPPROTO_UDP \<and> (dport = 67 \<or> sport = 67 \<or> dport = 68 \<or> sport = 68)
        then SERVICE_HINT_DHCP
      else SERVICE_HINT_NONE)"

definition parse_arp :: "endian \<Rightarrow> u8 list \<Rightarrow> u64 \<Rightarrow> packet_info \<Rightarrow> packet_info option" where
  "parse_arp en buffer available info =
     (if available < sizeof_arphdr then Some (info\<lparr>truncated := True\<rparr>)
      else do {
        hdr \<leftarrow> load_bytes buffer 0 8;
        ar_hrd \<leftarrow> read_u16_be en hdr;
        ar_pro \<leftarrow> read_u16_be en (drop 2 hdr);
        ar_hln \<leftarrow> load_u8 hdr 4;
        ar_pln \<leftarrow> load_u8 hdr 5;
        ar_op \<leftarrow> read_u16_be en (drop 6 hdr);
        if ar_hrd \<noteq> ARPHRD_ETHER \<or> ar_pro \<noteq> ETHERTYPE_IP \<or> ar_hln \<noteq> 6 \<or> ar_pln \<noteq> 4
        then Some (info\<lparr>malformed := True\<rparr>)
        else if available < sizeof_arphdr + 20 then Some (info\<lparr>truncated := True\<rparr>)
        else do {
          sender_mac \<leftarrow> load_bytes buffer 8 6;
          sender_ip \<leftarrow> copy_u32 en (drop 14 buffer);
          target_mac \<leftarrow> load_bytes buffer 18 6;
          target_ip \<leftarrow> copy_u32 en (drop 24 buffer);
          Some (info\<lparr>has_arp := True, arp_opcode := ar_op, arp_sender_mac := sender_mac,
            arp_sender_ipv4 := sender_ip, arp_target_mac := target_mac,
            arp_target_ipv4 := target_ip\<rparr>) } })"

definition parse_icmp :: "u8 list \<Rightarrow> u64 \<Rightarrow> packet_info \<Rightarrow> packet_info option" where
  "parse_icmp buffer available info =
     (if available < sizeof_icmphdr then Some (info\<lparr>truncated := True\<rparr>)
      else do {
        type \<leftarrow> load_u8 buffer 0;
        code \<leftarrow> load_u8 buffer 1;
        Some (info\<lparr>has_icmp := True, icmp_type := type, icmp_code := code\<rparr>) })"

text \<open>The header length computed in \<open>unsigned int\<close> and stored in a byte.\<close>

definition tcp_data_offset :: "u8 \<Rightarrow> u8" where
  "tcp_data_offset b = ucast ((ucast (drop_bit 4 b) :: u32) * 4)"

definition parse_tcp :: "endian \<Rightarrow> u8 list \<Rightarrow> u64 \<Rightarrow> packet_info \<Rightarrow> packet_info option" where
  "parse_tcp en buffer available info =
     (if available < sizeof_tcphdr then Some (info\<lparr>truncated := True\<rparr>)
      else do {
        offset_byte \<leftarrow> load_u8 buffer 12;
        let header_length = tcp_data_offset offset_byte;
        if ucast header_length < sizeof_tcphdr then Some (info\<lparr>malformed := True\<rparr>)
        else if available < ucast header_length then Some (info\<lparr>truncated := True\<rparr>)
        else do {
          sport \<leftarrow> read_u16_be en buffer;
          dport \<leftarrow> read_u16_be en (drop 2 buffer);
          seq \<leftarrow> read_u32_be en (drop 4 buffer);
          ack \<leftarrow> read_u32_be en (drop 8 buffer);
          flags \<leftarrow> load_u8 buffer 13;
          Some (info\<lparr>has_ports := True, has_tcp := True, src_port := sport, dst_port := dport,
            tcp_sequence := seq, tcp_acknowledgment := ack, tcp_header_length := header_length,
            tcp_flags := flags,
            service_hint := detect_service_hint IPPROTO_TCP sport dport\<rparr>) } })"

definition parse_udp :: "endian \<Rightarrow> u8 list \<Rightarrow> u64 \<Rightarrow> packet_info \<Rightarrow> packet_info option" where
  "parse_udp en buffer available info =
     (if available < sizeof_udphdr then Some (info\<lparr>truncated := True\<rparr>)
      else do {
        len \<leftarrow> read_u16_be en (drop 4 buffer);
        if ucast len < sizeof_udphdr then Some (info\<lparr>malformed := True\<rparr>)
        else do {
          sport \<leftarrow> read_u16_be en buffer;
          dport \<leftarrow> read_u16_be en (drop 2 buffer);
          Some (info\<lparr>has_ports := True, has_udp := True, src_port := sport, dst_port := dport,
            udp_length := len,
            service_hint := detect_service_hint IPPROTO_UDP sport dport\<rparr>) } })"

definition ipv4_header_length :: "u8 \<Rightarrow> u8" where
  "ipv4_header_length b = ucast ((ucast (b AND 0x0f) :: u32) * 4)"

text \<open>The \<open>switch\<close> on the protocol that ends \<open>parse_ipv4\<close>.\<close>

definition parse_transport :: "endian \<Rightarrow> u8 list \<Rightarrow> u64 \<Rightarrow> packet_info \<Rightarrow> packet_info option" where
  "parse_transport en transport transport_length info =
     (if ip_protocol info = IPPROTO_ICMP then parse_icmp transport transport_length info
      else if ip_protocol info = IPPROTO_TCP then parse_tcp en transport transport_length info
      else if ip_protocol info = IPPROTO_UDP then parse_udp en transport transport_length info
      else Some info)"

definition parse_ipv4 :: "endian \<Rightarrow> u8 list \<Rightarrow> u64 \<Rightarrow> packet_info \<Rightarrow> packet_info option" where
  "parse_ipv4 en buffer available info =
     (if available < sizeof_ip then Some (info\<lparr>truncated := True\<rparr>)
      else do {
        first \<leftarrow> load_u8 buffer 0;
        let version = drop_bit 4 first;
        let ihl_bytes = ipv4_header_length first;
        if version \<noteq> 4 \<or> ucast ihl_bytes < sizeof_ip then Some (info\<lparr>malformed := True\<rparr>)
        else if available < ucast ihl_bytes then Some (info\<lparr>truncated := True\<rparr>)
        else do {
          total \<leftarrow> read_u16_be en (drop 2 buffer);
          let info = info\<lparr>has_ipv4 := True, ipv4_version := version, ipv4_ihl := ihl_bytes,
            ipv4_total_length := total\<rparr>;
          if total < ucast ihl_bytes then Some (info\<lparr>malformed := True\<rparr>)
          else do {
            proto \<leftarrow> load_u8 buffer 9;
            src \<leftarrow> copy_u32 en (drop 12 buffer);
            dst \<leftarrow> copy_u32 en (drop 16 buffer);
            fragment_field \<leftarrow> read_u16_be en (drop 6 buffer);
            let fragment_offset = fragment_field AND 0x1fff;
            let more_fragments = (fragment_field AND 0x2000 \<noteq> 0);
            let info = info\<lparr>ip_protocol := proto, src_ipv4 := src, dst_ipv4 := dst,
              ipv4_fragmented := (more_fragments \<or> fragment_offset \<noteq> 0),
              ipv4_l4_header_available := (fragment_offset = 0)\<rparr>;
            let transport = drop (unat ihl_bytes) buffer;
            let transport_length = available - ucast ihl_bytes;
            if \<not> ipv4_l4_header_available info then Some info
            else parse_transport en transport transport_length info } } })"

text \<open>The \<open>switch\<close> on the EtherType in \<open>parse_packet\<close>.\<close>

definition parse_payload :: "endian \<Rightarrow> u8 list \<Rightarrow> u64 \<Rightarrow> packet_info \<Rightarrow> packet_info option" where
  "parse_payload en payload payload_length info =
     (if ether_type info = ETHERTYPE_ARP then parse_arp en payload payload_length info
      else if ether_type info = ETHERTYPE_IP then parse_ipv4 en payload payload_length info
      else if ether_type info = ETHERTYPE_IPV6 then Some (info\<lparr>is_ipv6_observed := True\<rparr>)
      else Some info)"

text \<open>
  \<open>parse_packet\<close> gives the returned flag and the struct behind \<open>info\<close>. A \<open>NULL\<close> packet or
  \<open>info\<close> returns \<open>false\<close> before anything is written.
\<close>

definition parse_packet ::
  "endian \<Rightarrow> u8 list option \<Rightarrow> u64 \<Rightarrow> u64 \<Rightarrow> packet_info option \<Rightarrow>
   (bool \<times> packet_info option) option" where
  "parse_packet en packet cap_len wire_len info =
     (case (packet, packet_info_reset info cap_len wire_len) of
        (None, _) \<Rightarrow> Some (False, info)
      | (_, None) \<Rightarrow> Some (False, info)
      | (Some bytes, Some info) \<Rightarrow>
          if cap_len < sizeof_ether_header then Some (False, Some (info\<lparr>truncated := True\<rparr>))
          else do {
            dhost \<leftarrow> load_bytes bytes 0 6;
            shost \<leftarrow> load_bytes bytes 6 6;
            etype \<leftarrow> read_u16_be en (drop 12 bytes);
            let info = info\<lparr>has_ethernet := True, src_mac := shost, dst_mac := dhost,
              ether_type := etype\<rparr>;
            info \<leftarrow> parse_payload en (drop 14 bytes) (cap_len - sizeof_ether_header) info;
            Some (\<not> (malformed info \<or> truncated info), Some info) })"

section \<open>What the reads return\<close>

lemma read_u16_be_Some [byte_simps]:
  "2 \<le> length b \<Longrightarrow> read_u16_be en b = Some (be16 (b ! 0) (b ! 1))"
  by (simp add: read_u16_be_def byte_simps)

lemma read_u16_be_drop [byte_simps]:
  "n + 2 \<le> length b \<Longrightarrow> read_u16_be en (drop n b) = Some (be16 (b ! n) (b ! (n + 1)))"
  by (simp add: read_u16_be_def byte_simps)

lemma read_u32_be_drop [byte_simps]:
  "n + 4 \<le> length b \<Longrightarrow>
   read_u32_be en (drop n b) = Some (be32 (b ! n) (b ! (n + 1)) (b ! (n + 2)) (b ! (n + 3)))"
  by (simp add: read_u32_be_def byte_simps)

lemma copy_u32_drop [byte_simps]:
  "n + 4 \<le> length b \<Longrightarrow> copy_u32 en (drop n b) = Some (host_u32 en (take 4 (drop n b)))"
  by (simp add: copy_u32_def byte_simps)

lemma read_u32_be_Some [byte_simps]:
  "4 \<le> length b \<Longrightarrow>
   read_u32_be en b = Some (be32 (b ! 0) (b ! 1) (b ! 2) (b ! 3))"
  by (simp add: read_u32_be_def byte_simps)

lemma copy_u32_Some [byte_simps]:
  "4 \<le> length b \<Longrightarrow> copy_u32 en b = Some (host_u32 en (take 4 b))"
  by (simp add: copy_u32_def byte_simps)

lemma unat_times_four_u8:
  fixes b :: u8
  assumes "unat b < 16"
  shows "unat (ucast ((ucast b :: u32) * 4) :: u8) = 4 * unat b"
proof -
  have "unat (ucast b :: u32) = unat b"
    using assms by (simp add: unsigned_ucast_eq take_bit_nat_eq_self)
  then have "unat ((ucast b :: u32) * 4) = 4 * unat b"
    using assms by (simp add: unat_word_ariths)
  then show ?thesis
    using assms by (simp add: unsigned_ucast_eq take_bit_nat_eq_self)
qed

lemma unat_tcp_data_offset: "unat (tcp_data_offset b) = 4 * unat (drop_bit 4 b)"
  by (simp add: tcp_data_offset_def unat_times_four_u8 unat_nibble_u8)

lemma unat_ipv4_header_length: "unat (ipv4_header_length b) = 4 * unat (b AND 15)"
  by (simp add: ipv4_header_length_def unat_times_four_u8 unat_nibble_u8)

lemma transport_readable:
  fixes available :: u64
  assumes "unat available \<le> length buffer" and "unat h \<le> unat available"
  shows "unat (available - ucast (h :: u8)) = unat available - unat h"
    and "unat (available - ucast h) \<le> length (drop (unat h) buffer)"
proof -
  have "ucast h \<le> available"
    using assms(2) by (simp add: word_le_nat_alt)
  then show "unat (available - ucast h) = unat available - unat h"
    by (simp add: unat_sub)
  then show "unat (available - ucast h) \<le> length (drop (unat h) buffer)"
    using assms by simp
qed

section \<open>Memory safety\<close>

lemma parse_arp_safe:
  "unat available \<le> length buffer \<Longrightarrow> \<exists>i. parse_arp en buffer available info = Some i"
  by (auto simp: parse_arp_def byte_simps word_bounds)

lemma parse_icmp_safe:
  "unat available \<le> length buffer \<Longrightarrow> \<exists>i. parse_icmp buffer available info = Some i"
  by (auto simp: parse_icmp_def byte_simps word_bounds)

lemma parse_tcp_safe:
  "unat available \<le> length buffer \<Longrightarrow> \<exists>i. parse_tcp en buffer available info = Some i"
  by (auto simp: parse_tcp_def byte_simps word_bounds Let_def)

lemma parse_udp_safe:
  "unat available \<le> length buffer \<Longrightarrow> \<exists>i. parse_udp en buffer available info = Some i"
  by (auto simp: parse_udp_def byte_simps word_bounds Let_def)

lemma parse_transport_safe:
  "unat available \<le> length buffer \<Longrightarrow> \<exists>i. parse_transport en buffer available info = Some i"
  by (simp add: parse_transport_def parse_icmp_safe parse_tcp_safe parse_udp_safe)

lemma parse_ipv4_safe:
  "unat available \<le> length buffer \<Longrightarrow> \<exists>i. parse_ipv4 en buffer available info = Some i"
  by (auto simp: parse_ipv4_def byte_simps word_bounds Let_def
      intro!: parse_transport_safe transport_readable)

lemma parse_payload_safe:
  "unat available \<le> length buffer \<Longrightarrow> \<exists>i. parse_payload en buffer available info = Some i"
  by (simp add: parse_payload_def parse_arp_safe parse_ipv4_safe)

lemma parse_packet_fills:
  assumes "unat cap_len \<le> length bytes"
  shows "\<exists>ok i. parse_packet en (Some bytes) cap_len wire_len (Some info) = Some (ok, Some i)"
proof (cases "cap_len < sizeof_ether_header")
  case True
  then show ?thesis by (auto simp: parse_packet_def)
next
  case False
  then have "unat (cap_len - 14) = unat cap_len - 14"
    by (simp add: not_less unat_sub)
  with assms have "unat (cap_len - 14) \<le> length (drop 14 bytes)" by simp
  note safe = parse_payload_safe [OF this]
  have "14 \<le> length bytes" using False assms by (simp add: word_bounds)
  let ?i0 = "fresh_packet_info cap_len wire_len\<lparr>has_ethernet := True,
      src_mac := take 6 (drop 6 bytes), dst_mac := take 6 bytes,
      ether_type := be16 (bytes ! 12) (bytes ! 13)\<rparr>"
  obtain i where "parse_payload en (drop 14 bytes) (cap_len - 14) ?i0 = Some i"
    using safe by blast
  with False \<open>14 \<le> length bytes\<close> show ?thesis
    by (simp add: parse_packet_def byte_simps Let_def)
qed

text \<open>
  C1: memory safety of the parser. Whatever the bytes are, when at least the claimed number of
  them may be read, \<open>parse_packet\<close> never reads outside the buffer, and it fills the struct.
\<close>

theorem parse_packet_memory_safe:
  assumes "unat cap_len \<le> length bytes"
  shows "\<exists>ok i. parse_packet en (Some bytes) cap_len wire_len (Some info) = Some (ok, Some i)"
  using assms by (rule parse_packet_fills)

theorem parse_packet_memory_safe_witness:
  "\<exists>ok i. parse_packet Little (Some (replicate 60 0xff)) 60 60 (Some packet_info_zero) = Some (ok, Some i)"
  by (rule parse_packet_memory_safe) simp

end
