(* ===== verification/Parser_Layers.thy ===== *)
theory Parser_Layers
  imports Parser
begin

text \<open>
  What a parsed packet looks like: which fields of the struct may be set together, the ranges of
  the header lengths, and the service hint. \<open>wf_packet\<close> is the invariant the other components
  rely on; the lemmas \<open>parse_..._cases\<close> list the results of each parsing function and the lemmas
  \<open>parse_..._wf\<close> carry the invariant from the frame inwards.
\<close>

section \<open>Layering\<close>

definition wf_ipv4_part :: "packet_info \<Rightarrow> bool" where
  "wf_ipv4_part i \<longleftrightarrow>
     (has_ipv4 i \<longrightarrow>
        ipv4_version i = 4 \<and> 20 \<le> unat (ipv4_ihl i) \<and> unat (ipv4_ihl i) \<le> 60 \<and>
        4 dvd unat (ipv4_ihl i) \<and>
        (\<not> malformed i \<longrightarrow> unat (ipv4_ihl i) \<le> unat (ipv4_total_length i))) \<and>
     (has_icmp i \<or> has_tcp i \<or> has_udp i \<longrightarrow>
        has_ipv4 i \<and> ipv4_l4_header_available i \<and> \<not> malformed i \<and> \<not> truncated i)"

definition wf_transport_part :: "packet_info \<Rightarrow> bool" where
  "wf_transport_part i \<longleftrightarrow>
     (has_ports i \<longleftrightarrow> has_tcp i \<or> has_udp i) \<and>
     (has_icmp i \<longrightarrow> ip_protocol i = IPPROTO_ICMP \<and> \<not> has_ports i) \<and>
     (has_tcp i \<longrightarrow> ip_protocol i = IPPROTO_TCP \<and> \<not> has_udp i \<and>
        20 \<le> unat (tcp_header_length i) \<and> unat (tcp_header_length i) \<le> 60) \<and>
     (has_udp i \<longrightarrow> ip_protocol i = IPPROTO_UDP \<and> 8 \<le> unat (udp_length i)) \<and>
     service_hint i =
       (if has_ports i then detect_service_hint (ip_protocol i) (src_port i) (dst_port i)
        else SERVICE_HINT_NONE)"

definition wf_packet :: "packet_info \<Rightarrow> bool" where
  "wf_packet i \<longleftrightarrow>
     \<not> (malformed i \<and> truncated i) \<and>
     (\<not> has_ethernet i \<longrightarrow> truncated i) \<and>
     (has_arp i \<longrightarrow> has_ethernet i \<and> ether_type i = ETHERTYPE_ARP \<and> \<not> malformed i \<and> \<not> truncated i) \<and>
     (is_ipv6_observed i \<longrightarrow> has_ethernet i \<and> ether_type i = ETHERTYPE_IPV6 \<and> \<not> malformed i \<and> \<not> truncated i) \<and>
     (has_ipv4 i \<longrightarrow> has_ethernet i \<and> ether_type i = ETHERTYPE_IP) \<and>
     wf_ipv4_part i \<and> wf_transport_part i"

lemmas wf_packet_defs = wf_packet_def wf_ipv4_part_def wf_transport_part_def

text \<open>A struct with only its Ethernet part filled in.\<close>

definition link_only :: "packet_info \<Rightarrow> bool" where
  "link_only i \<longleftrightarrow>
     has_ethernet i \<and> \<not> is_ipv6_observed i \<and> \<not> has_arp i \<and> \<not> has_ipv4 i \<and> \<not> has_icmp i \<and>
     \<not> has_ports i \<and> \<not> has_tcp i \<and> \<not> has_udp i \<and> service_hint i = SERVICE_HINT_NONE \<and>
     \<not> malformed i \<and> \<not> truncated i"

definition network_only :: "packet_info \<Rightarrow> bool" where
  "network_only i \<longleftrightarrow>
     has_ethernet i \<and> \<not> is_ipv6_observed i \<and> \<not> has_arp i \<and> \<not> has_icmp i \<and>
     \<not> has_ports i \<and> \<not> has_tcp i \<and> \<not> has_udp i \<and> service_hint i = SERVICE_HINT_NONE \<and>
     \<not> malformed i \<and> \<not> truncated i \<and> has_ipv4 i \<and> ether_type i = ETHERTYPE_IP \<and>
     ipv4_l4_header_available i \<and> wf_ipv4_part i"


lemma parse_arp_cases:
  assumes "parse_arp en buffer available i = Some j"
  obtains (truncated) "j = i\<lparr>truncated := True\<rparr>"
  | (malformed) "j = i\<lparr>malformed := True\<rparr>"
  | (arp) ar_op sender_mac sender_ip target_mac target_ip where
    "j = i\<lparr>has_arp := True, arp_opcode := ar_op, arp_sender_mac := sender_mac,
            arp_sender_ipv4 := sender_ip, arp_target_mac := target_mac,
            arp_target_ipv4 := target_ip\<rparr>"
  using assms unfolding parse_arp_def
  by (elim some_elims) (rule that; assumption)+

lemma parse_icmp_cases:
  assumes "parse_icmp buffer available i = Some j"
  obtains (truncated) "j = i\<lparr>truncated := True\<rparr>"
  | (icmp) type code where "j = i\<lparr>has_icmp := True, icmp_type := type, icmp_code := code\<rparr>"
  using assms unfolding parse_icmp_def
  by (elim some_elims) (rule that; assumption)+

lemma parse_tcp_cases:
  assumes "parse_tcp en buffer available i = Some j"
  obtains (truncated) "j = i\<lparr>truncated := True\<rparr>"
  | (malformed) "j = i\<lparr>malformed := True\<rparr>"
  | (tcp) b sport dport seq ack flags where
    "\<not> ucast (tcp_data_offset b) < sizeof_tcphdr"
    "j = i\<lparr>has_ports := True, has_tcp := True, src_port := sport, dst_port := dport,
            tcp_sequence := seq, tcp_acknowledgment := ack, tcp_header_length := tcp_data_offset b,
            tcp_flags := flags,
            service_hint := detect_service_hint IPPROTO_TCP sport dport\<rparr>"
  using assms unfolding parse_tcp_def Let_def
  by (elim some_elims) (rule that; assumption)+

lemma parse_udp_cases:
  assumes "parse_udp en buffer available i = Some j"
  obtains (truncated) "j = i\<lparr>truncated := True\<rparr>"
  | (malformed) "j = i\<lparr>malformed := True\<rparr>"
  | (udp) len sport dport where
    "\<not> ucast len < sizeof_udphdr"
    "j = i\<lparr>has_ports := True, has_udp := True, src_port := sport, dst_port := dport,
            udp_length := len, service_hint := detect_service_hint IPPROTO_UDP sport dport\<rparr>"
  using assms unfolding parse_udp_def Let_def
  by (elim some_elims) (rule that; assumption)+

abbreviation ipv4_header_info ::
  "packet_info \<Rightarrow> u8 \<Rightarrow> u16 \<Rightarrow> u8 \<Rightarrow> u32 \<Rightarrow> u32 \<Rightarrow> u16 \<Rightarrow> packet_info" where
  "ipv4_header_info i first total_len proto src dst fragment_field \<equiv>
     i\<lparr>has_ipv4 := True, ipv4_version := drop_bit 4 first, ipv4_ihl := ipv4_header_length first,
       ipv4_total_length := total_len, ip_protocol := proto, src_ipv4 := src, dst_ipv4 := dst,
       ipv4_fragmented := (fragment_field AND 0x2000 \<noteq> 0 \<or> fragment_field AND 0x1fff \<noteq> 0),
       ipv4_l4_header_available := (fragment_field AND 0x1fff = 0)\<rparr>"

abbreviation ipv4_first_byte_ok :: "u8 \<Rightarrow> bool" where
  "ipv4_first_byte_ok first \<equiv> \<not> (drop_bit 4 first \<noteq> 4 \<or> ucast (ipv4_header_length first) < sizeof_ip)"

lemma parse_ipv4_cases:
  assumes "parse_ipv4 en buffer available i = Some j"
  obtains (truncated) "j = i\<lparr>truncated := True\<rparr>"
  | (malformed) "j = i\<lparr>malformed := True\<rparr>"
  | (short) b total_len where "ipv4_first_byte_ok b"
    "j = i\<lparr>has_ipv4 := True, ipv4_version := drop_bit 4 b, ipv4_ihl := ipv4_header_length b,
            ipv4_total_length := total_len, malformed := True\<rparr>"
  | (fragment) b total_len proto src dst ff where "ipv4_first_byte_ok b"
    "\<not> total_len < ucast (ipv4_header_length b)"
    "j = ipv4_header_info i b total_len proto src dst ff"
    "\<not> ipv4_l4_header_available j"
  | (transport) b total_len proto src dst ff i' buf av where "ipv4_first_byte_ok b"
    "\<not> total_len < ucast (ipv4_header_length b)"
    "i' = ipv4_header_info i b total_len proto src dst ff"
    "ipv4_l4_header_available i'"
    "parse_transport en buf av i' = Some j"
  using assms unfolding parse_ipv4_def Let_def
  by (elim some_elims)
    (rule truncated malformed short fragment transport [OF _ _ refl]; (assumption | hypsubst, assumption))+

lemma unat_header_lengths:
  "unat (ipv4_header_length b) \<le> 60" "4 dvd unat (ipv4_header_length b)"
  "unat (tcp_data_offset b) \<le> 60"
  using unat_nibble_u8 [of b] by (simp_all add: unat_ipv4_header_length unat_tcp_data_offset)

lemmas wf_simps = link_only_def network_only_def wf_packet_defs word_bounds unat_header_lengths

lemma parse_arp_wf:
  "parse_arp en buffer available i = Some j \<Longrightarrow> link_only i \<Longrightarrow> ether_type i = ETHERTYPE_ARP \<Longrightarrow>
   wf_packet j"
  by (erule parse_arp_cases) (simp_all add: wf_simps)

lemma parse_icmp_wf:
  "parse_icmp buffer available i = Some j \<Longrightarrow> network_only i \<Longrightarrow> ip_protocol i = IPPROTO_ICMP \<Longrightarrow>
   wf_packet j"
  by (erule parse_icmp_cases) (simp_all add: wf_simps)

lemma parse_tcp_wf:
  "parse_tcp en buffer available i = Some j \<Longrightarrow> network_only i \<Longrightarrow> ip_protocol i = IPPROTO_TCP \<Longrightarrow>
   wf_packet j"
  by (erule parse_tcp_cases) (simp_all add: wf_simps)

lemma parse_udp_wf:
  "parse_udp en buffer available i = Some j \<Longrightarrow> network_only i \<Longrightarrow> ip_protocol i = IPPROTO_UDP \<Longrightarrow>
   wf_packet j"
  by (erule parse_udp_cases) (simp_all add: wf_simps)

lemma bare_wf:
  "network_only i \<Longrightarrow> wf_packet i"
  "link_only i \<Longrightarrow> ether_type i = ETHERTYPE_IPV6 \<Longrightarrow> wf_packet (i\<lparr>is_ipv6_observed := True\<rparr>)"
  "link_only i \<Longrightarrow> wf_packet i"
  by (simp_all add: wf_simps)

lemma parse_transport_wf:
  "parse_transport en buffer available i = Some j \<Longrightarrow> network_only i \<Longrightarrow> wf_packet j"
  unfolding parse_transport_def
  by (elim some_elims)
    ((erule parse_icmp_wf parse_tcp_wf parse_udp_wf; assumption) | (hypsubst, erule bare_wf))+

lemma parse_ipv4_wf:
  assumes "parse_ipv4 en buffer available i = Some j"
    and "link_only i" and "ether_type i = ETHERTYPE_IP"
  shows "wf_packet j"
  using assms(1)
proof (cases rule: parse_ipv4_cases)
  case (transport b total_len proto src dst ff i' buf av)
  then have "network_only i'" using assms(2,3) by (simp add: wf_simps)
  then show ?thesis by (rule parse_transport_wf [OF transport(5)])
qed (use assms in \<open>simp_all add: wf_simps\<close>)

lemma parse_payload_wf:
  "parse_payload en buffer available i = Some j \<Longrightarrow> link_only i \<Longrightarrow> wf_packet j"
  unfolding parse_payload_def
  by (elim some_elims)
    ((erule parse_arp_wf parse_ipv4_wf; assumption) | (hypsubst, erule bare_wf, assumption?))+

lemma parse_packet_cases:
  assumes "parse_packet en (Some bytes) cap_len wire_len (Some info) = Some (ok, Some i)"
  obtains (short) "\<not> ok" "i = fresh_packet_info cap_len wire_len\<lparr>truncated := True\<rparr>"
  | (frame) shost dhost etype where
      "parse_payload en (drop 14 bytes) (cap_len - 14) (fresh_packet_info cap_len wire_len
         \<lparr>has_ethernet := True, src_mac := shost, dst_mac := dhost, ether_type := etype\<rparr>) = Some i"
      "ok = (\<not> (malformed i \<or> truncated i))"
  using assms
  apply (simp only: parse_packet_def packet_info_reset_Some option.case prod.case Let_def)
  apply (elim some_elims Pair_inject; simp only: option.inject)
  apply (rule short; simp only: simp_thms)
  done

text \<open>
  C6: every packet the parser accepts or rejects is well formed: each protocol flag implies its
  enclosing layer, at most one transport protocol is present, header lengths are within
  \<open>20 .. 60\<close> bytes, a transport header is exposed only for a first fragment of a packet that is
  neither malformed nor truncated, and the returned flag is the conjunction of both checks.
\<close>

theorem parse_packet_wf:
  assumes "parse_packet en (Some bytes) cap_len wire_len (Some info) = Some (ok, Some i)"
  shows "wf_packet i \<and> (ok \<longleftrightarrow> \<not> malformed i \<and> \<not> truncated i)"
  using assms
proof (cases rule: parse_packet_cases)
  case short
  then show ?thesis by (simp add: wf_simps)
next
  case (frame shost dhost etype)
  from frame(1) have "wf_packet i" by (rule parse_payload_wf) (simp add: link_only_def)
  with frame(2) show ?thesis by simp
qed

section \<open>The struct after the Ethernet header\<close>

definition ethernet_info :: "u64 \<Rightarrow> u64 \<Rightarrow> u8 list \<Rightarrow> u8 list \<Rightarrow> u16 \<Rightarrow> packet_info" where
  "ethernet_info cap_len wire_len dmac smac etype =
     (fresh_packet_info cap_len wire_len)
       \<lparr>has_ethernet := True, src_mac := smac, dst_mac := dmac, ether_type := etype\<rparr>"

lemma parse_packet_frame_eq:
  "\<not> cap_len < 14 \<Longrightarrow> parse_packet en (Some bytes) cap_len wire_len (Some info) =
   do { dhost \<leftarrow> load_bytes bytes 0 6;
        shost \<leftarrow> load_bytes bytes 6 6;
        etype \<leftarrow> read_u16_be en (drop 12 bytes);
        i \<leftarrow> parse_payload en (drop 14 bytes) (cap_len - 14)
               (ethernet_info cap_len wire_len dhost shost etype);
        Some (\<not> (malformed i \<or> truncated i), Some i) }"
  by (simp add: parse_packet_def ethernet_info_def Let_def)


lemma not_less_mono: "\<not> (n :: u64) < c \<Longrightarrow> n \<le> m \<Longrightarrow> (m < c) = False"
  by simp

end
