(* ===== verification/Parser_Frames.thy ===== *)
theory Parser_Frames
  imports Parser_Layers
begin

text \<open>
  Well-formed frames, written down as the protocols lay them out, and the round trips: parsing
  an ARP, TCP, UDP or ICMP frame gives exactly the struct that describes its headers, for every
  value of the header fields, with IPv4 and TCP options and with any payload.
\<close>

section \<open>Frames on the wire\<close>

definition be16_bytes :: "u16 \<Rightarrow> u8 list" where
  "be16_bytes x = [ucast (drop_bit 8 x), ucast x]"

definition be32_bytes :: "u32 \<Rightarrow> u8 list" where
  "be32_bytes x = mem_u32 Big x"

definition ethernet_frame :: "u8 list \<Rightarrow> u8 list \<Rightarrow> u16 \<Rightarrow> u8 list \<Rightarrow> u8 list" where
  "ethernet_frame dmac smac etype payload = dmac @ smac @ be16_bytes etype @ payload"

record ipv4_fields =
  ip_tos :: u8
  ip_total :: u16
  ip_ident :: u16
  ip_frag :: u16
  ip_ttl :: u8
  ip_proto :: u8
  ip_cksum :: u16
  ip_src :: "u8 list"
  ip_dst :: "u8 list"
  ip_options :: "u8 list"

definition ipv4_first :: "ipv4_fields \<Rightarrow> u8" where
  "ipv4_first h = 0x40 OR of_nat (5 + length (ip_options h) div 4)"

definition ipv4_packet :: "ipv4_fields \<Rightarrow> u8 list \<Rightarrow> u8 list" where
  "ipv4_packet h payload =
     [ipv4_first h, ip_tos h] @ be16_bytes (ip_total h) @ be16_bytes (ip_ident h) @
     be16_bytes (ip_frag h) @ [ip_ttl h, ip_proto h] @ be16_bytes (ip_cksum h) @
     ip_src h @ ip_dst h @ ip_options h @ payload"

definition ipv4_fields_ok :: "ipv4_fields \<Rightarrow> bool" where
  "ipv4_fields_ok h \<longleftrightarrow>
     length (ip_src h) = 4 \<and> length (ip_dst h) = 4 \<and>
     4 dvd length (ip_options h) \<and> length (ip_options h) \<le> 40 \<and>
     20 + length (ip_options h) \<le> unat (ip_total h)"

record tcp_fields =
  th_sport :: u16
  th_dport :: u16
  th_seq :: u32
  th_ack :: u32
  th_flags :: u8
  th_win :: u16
  th_sum :: u16
  th_urp :: u16
  th_options :: "u8 list"

definition tcp_offset_byte :: "tcp_fields \<Rightarrow> u8" where
  "tcp_offset_byte h = push_bit 4 (of_nat (5 + length (th_options h) div 4))"

definition tcp_segment :: "tcp_fields \<Rightarrow> u8 list \<Rightarrow> u8 list" where
  "tcp_segment h payload =
     be16_bytes (th_sport h) @ be16_bytes (th_dport h) @ be32_bytes (th_seq h) @
     be32_bytes (th_ack h) @ [tcp_offset_byte h, th_flags h] @ be16_bytes (th_win h) @
     be16_bytes (th_sum h) @ be16_bytes (th_urp h) @ th_options h @ payload"

definition tcp_fields_ok :: "tcp_fields \<Rightarrow> bool" where
  "tcp_fields_ok h \<longleftrightarrow> 4 dvd length (th_options h) \<and> length (th_options h) \<le> 40"

definition udp_datagram :: "u16 \<Rightarrow> u16 \<Rightarrow> u16 \<Rightarrow> u16 \<Rightarrow> u8 list \<Rightarrow> u8 list" where
  "udp_datagram sport dport len cksum payload =
     be16_bytes sport @ be16_bytes dport @ be16_bytes len @ be16_bytes cksum @ payload"

definition icmp_message :: "u8 \<Rightarrow> u8 \<Rightarrow> u8 list \<Rightarrow> u8 list" where
  "icmp_message type code rest = type # code # rest"

definition arp_packet :: "u16 \<Rightarrow> u8 list \<Rightarrow> u8 list \<Rightarrow> u8 list \<Rightarrow> u8 list \<Rightarrow> u8 list" where
  "arp_packet opcode smac sip tmac tip =
     be16_bytes 1 @ be16_bytes 0x0800 @ [6, 4] @ be16_bytes opcode @ smac @ sip @ tmac @ tip"

lemma of_nat_nibble_cases:
  fixes n :: nat assumes "n \<le> 10"
  shows "n = 0 \<or> n = 1 \<or> n = 2 \<or> n = 3 \<or> n = 4 \<or> n = 5 \<or> n = 6 \<or> n = 7 \<or> n = 8 \<or> n = 9 \<or> n = 10"
  using assms by presburger

lemma nibble_word:
  fixes n :: nat
  assumes "n \<le> 10"
  shows "drop_bit 4 ((0x40 :: u8) OR of_nat (5 + n)) = 4"
    and "ipv4_header_length (0x40 OR of_nat (5 + n)) = of_nat (20 + 4 * n)"
    and "tcp_data_offset (push_bit 4 (of_nat (5 + n))) = of_nat (20 + 4 * n)"
  using of_nat_nibble_cases [OF assms]
  by (elim disjE; simp add: ipv4_header_length_def tcp_data_offset_def)+

lemma be32_inverse: "be32 (ucast (drop_bit 24 x)) (ucast (drop_bit 16 x)) (ucast (drop_bit 8 x)) (ucast x) = x"
proof (rule bit_word_eqI)
  fix n :: nat
  assume "n < LENGTH(32)"
  then consider "n < 8" | "8 \<le> n" "n < 16" | "16 \<le> n" "n < 24" | "24 \<le> n" "n < 32"
    by fastforce
  then show "bit (be32 (ucast (drop_bit 24 x)) (ucast (drop_bit 16 x)) (ucast (drop_bit 8 x))
      (ucast x)) n = bit x n"
    by cases (auto simp: be32_def bit_simps)
qed

lemma length_mem_u32: "length (mem_u32 en x) = 4"
  by (cases en) (simp_all add: mem_u32_def)

lemma be32_bytes_nth: "be32 (be32_bytes x ! 0) (be32_bytes x ! 1) (be32_bytes x ! 2) (be32_bytes x ! 3) = x"
  by (simp add: be32_bytes_def mem_u32_def be32_inverse)

text \<open>The struct the parser owes its caller for a frame with the given headers.\<close>

definition ipv4_info :: "endian \<Rightarrow> ipv4_fields \<Rightarrow> packet_info \<Rightarrow> packet_info" where
  "ipv4_info en h i = i\<lparr>has_ipv4 := True, ipv4_version := 4,
       ipv4_ihl := of_nat (20 + length (ip_options h)), ipv4_total_length := ip_total h,
       ip_protocol := ip_proto h, src_ipv4 := host_u32 en (ip_src h),
       dst_ipv4 := host_u32 en (ip_dst h),
       ipv4_fragmented := (ip_frag h AND 0x2000 \<noteq> 0 \<or> ip_frag h AND 0x1fff \<noteq> 0),
       ipv4_l4_header_available := (ip_frag h AND 0x1fff = 0)\<rparr>"

definition tcp_info :: "tcp_fields \<Rightarrow> packet_info \<Rightarrow> packet_info" where
  "tcp_info t i = i\<lparr>has_ports := True, has_tcp := True, src_port := th_sport t,
       dst_port := th_dport t, tcp_sequence := th_seq t, tcp_acknowledgment := th_ack t,
       tcp_header_length := of_nat (20 + length (th_options t)), tcp_flags := th_flags t,
       service_hint := detect_service_hint IPPROTO_TCP (th_sport t) (th_dport t)\<rparr>"

definition udp_info :: "u16 \<Rightarrow> u16 \<Rightarrow> u16 \<Rightarrow> packet_info \<Rightarrow> packet_info" where
  "udp_info sport dport len i = i\<lparr>has_ports := True, has_udp := True, src_port := sport,
       dst_port := dport, udp_length := len,
       service_hint := detect_service_hint IPPROTO_UDP sport dport\<rparr>"

definition icmp_info :: "u8 \<Rightarrow> u8 \<Rightarrow> packet_info \<Rightarrow> packet_info" where
  "icmp_info type code i = i\<lparr>has_icmp := True, icmp_type := type, icmp_code := code\<rparr>"

definition arp_info ::
  "endian \<Rightarrow> u16 \<Rightarrow> u8 list \<Rightarrow> u8 list \<Rightarrow> u8 list \<Rightarrow> u8 list \<Rightarrow> packet_info \<Rightarrow> packet_info" where
  "arp_info en opcode smac sip tmac tip i = i\<lparr>has_arp := True, arp_opcode := opcode,
       arp_sender_mac := smac, arp_sender_ipv4 := host_u32 en sip, arp_target_mac := tmac,
       arp_target_ipv4 := host_u32 en tip\<rparr>"

lemma info_flags:
  "malformed (ethernet_info c w d s e) = False" "truncated (ethernet_info c w d s e) = False"
  "ether_type (ethernet_info c w d s e) = e"
  "malformed (ipv4_info en h i) = malformed i" "truncated (ipv4_info en h i) = truncated i"
  "ip_protocol (ipv4_info en h i) = ip_proto h"
  "malformed (tcp_info t i) = malformed i" "truncated (tcp_info t i) = truncated i"
  "malformed (udp_info p q l i) = malformed i" "truncated (udp_info p q l i) = truncated i"
  "malformed (icmp_info ty co i) = malformed i" "truncated (icmp_info ty co i) = truncated i"
  "malformed (arp_info en opc sm si tm ti i) = malformed i"
  "truncated (arp_info en opc sm si tm ti i) = truncated i"
  by (simp_all add: ethernet_info_def ipv4_info_def tcp_info_def udp_info_def icmp_info_def
      arp_info_def)

lemma parse_tcp_segment:
  assumes "tcp_fields_ok h" and "unat available = length (tcp_segment h payload)"
  shows "parse_tcp en (tcp_segment h payload) available i = Some (tcp_info h i)"
proof -
  obtain n where n: "length (th_options h) = 4 * n" "n \<le> 10"
    using assms(1) by (auto simp: tcp_fields_ok_def dvd_def)
  have off: "tcp_data_offset (tcp_offset_byte h) = of_nat (20 + 4 * n)"
    using nibble_word(3) [OF n(2)] n by (simp add: tcp_offset_byte_def)
  have un: "unat (of_nat (20 + 4 * n) :: u8) = 20 + 4 * n"
    by (rule unat_of_nat_small) (use n(2) in simp)
  show ?thesis
    using assms n off un
    by (simp add: parse_tcp_def tcp_segment_def byte_simps word_bounds be16_bytes_def
        be32_bytes_def mem_u32_def be32_inverse tcp_info_def)
qed

lemma parse_udp_datagram:
  assumes "8 \<le> unat len" and "unat available = length (udp_datagram sport dport len cksum payload)"
  shows "parse_udp en (udp_datagram sport dport len cksum payload) available i =
    Some (udp_info sport dport len i)"
  using assms
  by (simp add: parse_udp_def udp_datagram_def byte_simps word_bounds be16_bytes_def udp_info_def)

lemma parse_icmp_message:
  assumes "6 \<le> length rest" and "unat available = length (icmp_message type code rest)"
  shows "parse_icmp (icmp_message type code rest) available i =
    Some (icmp_info type code i)"
  using assms by (simp add: icmp_info_def parse_icmp_def icmp_message_def byte_simps word_bounds)

lemma parse_arp_packet:
  assumes "length smac = 6" "length sip = 4" "length tmac = 6" "length tip = 4"
    and "28 \<le> unat available" "unat available \<le> length (arp_packet opcode smac sip tmac tip @ padding)"
  shows "parse_arp en (arp_packet opcode smac sip tmac tip @ padding) available i =
    Some (arp_info en opcode smac sip tmac tip i)"
proof -
  have "be16 0 1 = 1" "be16 8 2048 = 0x0800" by (simp_all add: be16_def)
  then show ?thesis
    using assms
    by (simp add: parse_arp_def arp_packet_def arp_info_def byte_simps word_bounds be16_bytes_def)
qed

lemma parse_ipv4_packet:
  assumes "ipv4_fields_ok h" and "unat available = length (ipv4_packet h payload)"
  shows "parse_ipv4 en (ipv4_packet h payload) available i =
    (if ip_frag h AND 0x1fff \<noteq> 0 then Some (ipv4_info en h i)
     else parse_transport en payload (available - of_nat (20 + length (ip_options h)))
            (ipv4_info en h i))"
proof -
  obtain n where n: "length (ip_options h) = 4 * n" "n \<le> 10"
    using assms(1) by (auto simp: ipv4_fields_ok_def dvd_def)
  have first: "drop_bit 4 (ipv4_first h) = 4" "ipv4_header_length (ipv4_first h) = of_nat (20 + 4 * n)"
    using nibble_word(1,2) [OF n(2)] n by (simp_all add: ipv4_first_def)
  have un: "unat (of_nat (20 + 4 * n) :: u8) = 20 + 4 * n"
    by (rule unat_of_nat_small) (use n(2) in simp)
  have uc: "(ucast (of_nat (20 + 4 * n) :: u8) :: u64) = of_nat (20 + 4 * n)"
    by (rule word_unat_eq_iff[THEN iffD2]) (use n(2) un unat_of_nat_small(2)[of "20 + 4 * n"] in simp)
  have un64: "unat (of_nat (20 + 4 * n) :: u64) = 20 + 4 * n"
    by (rule unat_of_nat_small) (use n(2) in simp)
  have body: "drop (20 + 4 * n) (ipv4_packet h payload) = payload"
  proof -
    have "ipv4_packet h payload = (ipv4_packet h []) @ payload"
      by (simp add: ipv4_packet_def)
    moreover have "length (ipv4_packet h []) = 20 + 4 * n"
      using assms n by (simp add: ipv4_packet_def be16_bytes_def ipv4_fields_ok_def)
    ultimately show ?thesis by simp
  qed
  show ?thesis
    using assms n first un uc un64 body
    by (simp add: parse_ipv4_def ipv4_packet_def byte_simps word_bounds be16_bytes_def
        ipv4_fields_ok_def Let_def ipv4_info_def)
qed

lemma parse_packet_frame:
  assumes "length dmac = 6" "length smac = 6"
    and "unat (cap_len :: u64) = length (ethernet_frame dmac smac etype payload)"
    and "parse_payload en payload (cap_len - 14) (ethernet_info cap_len wire_len dmac smac etype) = Some i"
  shows "parse_packet en (Some (ethernet_frame dmac smac etype payload)) cap_len wire_len (Some info) =
    Some (\<not> (malformed i \<or> truncated i), Some i)"
  using assms
  by (simp add: parse_packet_def ethernet_frame_def ethernet_info_def be16_bytes_def byte_simps
      word_bounds)

lemma unat_frame_payload:
  assumes "length dmac = 6" "length smac = 6"
    and "unat (cap_len :: u64) = length (ethernet_frame dmac smac etype payload)"
  shows "unat (cap_len - 14) = length payload"
proof -
  have "14 \<le> cap_len" using assms by (simp add: word_bounds ethernet_frame_def be16_bytes_def)
  then have "unat (cap_len - 14) = unat cap_len - 14" by (simp add: unat_sub)
  then show ?thesis using assms by (simp add: ethernet_frame_def be16_bytes_def)
qed

lemma length_ipv4_packet:
  "ipv4_fields_ok h \<Longrightarrow> length (ipv4_packet h payload) = 20 + length (ip_options h) + length payload"
  by (simp add: ipv4_packet_def be16_bytes_def ipv4_fields_ok_def)

lemma unat_ipv4_payload:
  assumes "ipv4_fields_ok h" and "unat available = length (ipv4_packet h payload)"
  shows "unat (available - of_nat (20 + length (ip_options h)) :: u64) = length payload"
proof -
  have u: "unat (of_nat (20 + length (ip_options h)) :: u64) = 20 + length (ip_options h)"
    by (rule unat_of_nat_small) (use assms(1) in \<open>simp add: ipv4_fields_ok_def\<close>)
  then have "of_nat (20 + length (ip_options h)) \<le> available"
    using assms by (simp only: word_le_nat_alt length_ipv4_packet)
  then show ?thesis using assms u by (simp only: unat_sub length_ipv4_packet)
qed

lemma parse_tcp_frame_lemma:
  assumes "length dmac = 6" "length smac = 6"
    and "ipv4_fields_ok h" "ip_proto h = IPPROTO_TCP" "ip_frag h AND 0x1fff = 0"
    and "tcp_fields_ok t"
    and frame: "frame = ethernet_frame dmac smac ETHERTYPE_IP (ipv4_packet h (tcp_segment t payload))"
    and cap: "unat cap_len = length frame"
  shows "parse_packet en (Some frame) cap_len wire_len (Some info) =
    Some (True, Some (tcp_info t (ipv4_info en h (ethernet_info cap_len wire_len dmac smac ETHERTYPE_IP))))"
proof -
  let ?eth = "ethernet_info cap_len wire_len dmac smac ETHERTYPE_IP"
  have len: "unat (cap_len - 14) = length (ipv4_packet h (tcp_segment t payload))"
    using unat_frame_payload assms(1,2) cap frame by blast
  note steps = parse_ipv4_packet [OF assms(3) len]
    parse_tcp_segment [OF assms(6) unat_ipv4_payload [OF assms(3) len]]
  have "parse_payload en (ipv4_packet h (tcp_segment t payload)) (cap_len - 14) ?eth =
      Some (tcp_info t (ipv4_info en h ?eth))"
    using assms(4,5) by (simp only: parse_payload_def parse_transport_def info_flags steps) simp
  from parse_packet_frame [OF assms(1,2) cap [unfolded frame] this]
  show ?thesis by (simp add: frame info_flags)
qed

section \<open>A concrete frame\<close>

definition example_mac :: "u8 list" where "example_mac = [2, 0, 0, 0, 0, 1]"

definition example_ipv4 :: "u8 \<Rightarrow> u16 \<Rightarrow> ipv4_fields" where
  "example_ipv4 proto total_len =
     \<lparr>ip_tos = 0, ip_total = total_len, ip_ident = 1, ip_frag = 0x4000, ip_ttl = 64,
      ip_proto = proto, ip_cksum = 0, ip_src = [10, 0, 0, 1], ip_dst = [10, 0, 0, 2], ip_options = []\<rparr>"

definition example_tcp :: tcp_fields where
  "example_tcp = \<lparr>th_sport = 40000, th_dport = 22, th_seq = 7, th_ack = 0, th_flags = TH_SYN,
     th_win = 1024, th_sum = 0, th_urp = 0, th_options = [2, 4, 5, 0xb4]\<rparr>"

definition example_tcp_frame :: "u8 list" where
  "example_tcp_frame = ethernet_frame example_mac example_mac ETHERTYPE_IP
     (ipv4_packet (example_ipv4 IPPROTO_TCP 44) (tcp_segment example_tcp []))"

lemma example_tcp_ok: "tcp_fields_ok example_tcp"
  by (auto simp: tcp_fields_ok_def example_tcp_def dvd_def intro!: exI [of _ 1])

lemma example_simps:
  "length example_mac = 6" "ipv4_fields_ok (example_ipv4 proto 44)" "ipv4_fields_ok (example_ipv4 proto 20)"
  "ip_proto (example_ipv4 proto total_len) = proto" "ip_frag (example_ipv4 proto total_len) AND 0x1fff = 0"
  "tcp_fields_ok example_tcp" "length example_tcp_frame = 58"
  by (simp_all add: example_tcp_ok example_mac_def example_ipv4_def ipv4_fields_ok_def)
    (simp add: example_tcp_def example_mac_def example_ipv4_def example_tcp_frame_def ethernet_frame_def ipv4_packet_def tcp_segment_def be16_bytes_def
      be32_bytes_def length_mem_u32)

lemma parse_example_frame:
  "parse_packet en (Some example_tcp_frame) 58 wire_len (Some info) =
   Some (True, Some (tcp_info example_tcp (ipv4_info en (example_ipv4 IPPROTO_TCP 44)
     (ethernet_info 58 wire_len example_mac example_mac ETHERTYPE_IP))))"
  by (rule parse_tcp_frame_lemma [OF example_simps(1,1,2,4,5,6) example_tcp_frame_def])
    (simp add: example_simps)

theorem parse_packet_wf_witness:
  "wf_packet (tcp_info example_tcp (ipv4_info Little (example_ipv4 IPPROTO_TCP 44)
     (ethernet_info 58 58 example_mac example_mac ETHERTYPE_IP)))"
  using parse_packet_wf [OF parse_example_frame [of Little 58 packet_info_zero]] by simp

section \<open>Round trips\<close>

text \<open>
  C10: a TCP frame is parsed exactly. For any MAC addresses, IPv4 header (any options, identification,
  type of service, time to live, checksum and fragment bits of a first fragment), TCP header with
  any options and any payload, parsing the frame succeeds and gives the struct that holds these
  header values, the captured and wire length and the service hint of the two ports.
\<close>

theorem parse_tcp_frame_roundtrip:
  assumes "length dmac = 6" "length smac = 6"
    and "ipv4_fields_ok h" "ip_proto h = IPPROTO_TCP" "ip_frag h AND 0x1fff = 0"
    and "tcp_fields_ok t"
    and "frame = ethernet_frame dmac smac ETHERTYPE_IP (ipv4_packet h (tcp_segment t payload))"
    and "unat cap_len = length frame"
  shows "parse_packet en (Some frame) cap_len wire_len (Some info) =
    Some (True, Some (tcp_info t (ipv4_info en h (ethernet_info cap_len wire_len dmac smac ETHERTYPE_IP))))"
  using assms by (rule parse_tcp_frame_lemma)

theorem parse_tcp_frame_roundtrip_witness:
  "\<exists>i. parse_packet Big (Some example_tcp_frame) 58 60 (Some packet_info_zero) = Some (True, Some i) \<and>
     has_tcp i \<and> dst_port i = 22 \<and> tcp_flags i = TH_SYN \<and> service_hint i = SERVICE_HINT_SSH"
  using parse_tcp_frame_roundtrip [OF example_simps(1,1,2,4,5,6) example_tcp_frame_def, of 58 Big 60 packet_info_zero]
  by (simp add: example_simps tcp_info_def example_tcp_def detect_service_hint_def)

text \<open>
  C35: a UDP frame is parsed exactly, for any headers as above and any declared UDP length of at
  least the header's eight bytes.
\<close>

theorem parse_udp_frame_roundtrip:
  assumes "length dmac = 6" "length smac = 6"
    and "ipv4_fields_ok h" "ip_proto h = IPPROTO_UDP" "ip_frag h AND 0x1fff = 0"
    and "8 \<le> unat len"
    and frame: "frame = ethernet_frame dmac smac ETHERTYPE_IP
      (ipv4_packet h (udp_datagram sport dport len cksum payload))"
    and cap: "unat cap_len = length frame"
  shows "parse_packet en (Some frame) cap_len wire_len (Some info) =
    Some (True, Some (udp_info sport dport len
      (ipv4_info en h (ethernet_info cap_len wire_len dmac smac ETHERTYPE_IP))))"
proof -
  let ?eth = "ethernet_info cap_len wire_len dmac smac ETHERTYPE_IP"
  have len: "unat (cap_len - 14) = length (ipv4_packet h (udp_datagram sport dport len cksum payload))"
    using unat_frame_payload assms(1,2) cap frame by blast
  note steps = parse_ipv4_packet [OF assms(3) len]
    parse_udp_datagram [OF assms(6) unat_ipv4_payload [OF assms(3) len]]
  have "parse_payload en (ipv4_packet h (udp_datagram sport dport len cksum payload))
      (cap_len - 14) ?eth = Some (udp_info sport dport len (ipv4_info en h ?eth))"
    using assms(4,5) by (simp only: parse_payload_def parse_transport_def info_flags steps) simp
  from parse_packet_frame [OF assms(1,2) cap [unfolded frame] this]
  show ?thesis by (simp add: frame info_flags)
qed

theorem parse_udp_frame_roundtrip_witness:
  "\<exists>i. parse_packet Little (Some (ethernet_frame example_mac example_mac ETHERTYPE_IP
       (ipv4_packet (example_ipv4 IPPROTO_UDP 44) (udp_datagram 5000 53 24 0 [1, 2, 3]))))
       45 45 (Some packet_info_zero) = Some (True, Some i) \<and> has_udp i \<and> service_hint i = SERVICE_HINT_DNS"
proof -
  let ?frame = "ethernet_frame example_mac example_mac ETHERTYPE_IP
    (ipv4_packet (example_ipv4 IPPROTO_UDP 44) (udp_datagram 5000 53 24 0 [1, 2, 3]))"
  have "unat (45 :: u64) = length ?frame"
    by (simp add: ethernet_frame_def ipv4_packet_def udp_datagram_def be16_bytes_def example_mac_def example_ipv4_def)
  from parse_udp_frame_roundtrip [OF example_simps(1,1,2,4,5) _ refl this, of Little 45 packet_info_zero]
  show ?thesis by (simp add: udp_info_def detect_service_hint_def)
qed

text \<open>
  C36: an ICMP frame is parsed exactly, for any headers as above, any type and code and a message of
  at least eight bytes.
\<close>

theorem parse_icmp_frame_roundtrip:
  assumes "length dmac = 6" "length smac = 6"
    and "ipv4_fields_ok h" "ip_proto h = IPPROTO_ICMP" "ip_frag h AND 0x1fff = 0"
    and "6 \<le> length rest"
    and frame: "frame = ethernet_frame dmac smac ETHERTYPE_IP (ipv4_packet h (icmp_message type code rest))"
    and cap: "unat cap_len = length frame"
  shows "parse_packet en (Some frame) cap_len wire_len (Some info) =
    Some (True, Some (icmp_info type code
      (ipv4_info en h (ethernet_info cap_len wire_len dmac smac ETHERTYPE_IP))))"
proof -
  let ?eth = "ethernet_info cap_len wire_len dmac smac ETHERTYPE_IP"
  have len: "unat (cap_len - 14) = length (ipv4_packet h (icmp_message type code rest))"
    using unat_frame_payload assms(1,2) cap frame by blast
  note steps = parse_ipv4_packet [OF assms(3) len]
    parse_icmp_message [OF assms(6) unat_ipv4_payload [OF assms(3) len]]
  have "parse_payload en (ipv4_packet h (icmp_message type code rest)) (cap_len - 14) ?eth =
      Some (icmp_info type code (ipv4_info en h ?eth))"
    using assms(4,5) by (simp only: parse_payload_def parse_transport_def info_flags steps) simp
  from parse_packet_frame [OF assms(1,2) cap [unfolded frame] this]
  show ?thesis by (simp add: frame info_flags)
qed

theorem parse_icmp_frame_roundtrip_witness:
  "\<exists>i. parse_packet Little (Some (ethernet_frame example_mac example_mac ETHERTYPE_IP
       (ipv4_packet (example_ipv4 IPPROTO_ICMP 44) (icmp_message 8 0 (replicate 6 0)))))
       42 42 (Some packet_info_zero) = Some (True, Some i) \<and> has_icmp i \<and> icmp_type i = 8"
proof -
  let ?frame = "ethernet_frame example_mac example_mac ETHERTYPE_IP
    (ipv4_packet (example_ipv4 IPPROTO_ICMP 44) (icmp_message 8 0 (replicate 6 0)))"
  have "unat (42 :: u64) = length ?frame"
    by (simp add: ethernet_frame_def ipv4_packet_def icmp_message_def be16_bytes_def example_mac_def example_ipv4_def)
  from parse_icmp_frame_roundtrip [OF example_simps(1,1,2,4,5) _ refl this, of Little 42 packet_info_zero]
  show ?thesis by (simp add: icmp_info_def)
qed

text \<open>
  C37: an ARP frame for Ethernet and IPv4 is parsed exactly, for any operation and addresses and
  whatever padding follows.
\<close>

theorem parse_arp_frame_roundtrip:
  assumes "length dmac = 6" "length smac = 6"
    and "length sender_mac = 6" "length sender_ip = 4" "length target_mac = 6" "length target_ip = 4"
    and frame: "frame = ethernet_frame dmac smac ETHERTYPE_ARP
      (arp_packet opcode sender_mac sender_ip target_mac target_ip @ padding)"
    and cap: "unat cap_len = length frame"
  shows "parse_packet en (Some frame) cap_len wire_len (Some info) =
    Some (True, Some (arp_info en opcode sender_mac sender_ip target_mac target_ip
      (ethernet_info cap_len wire_len dmac smac ETHERTYPE_ARP)))"
proof -
  let ?eth = "ethernet_info cap_len wire_len dmac smac ETHERTYPE_ARP"
  let ?arp = "arp_packet opcode sender_mac sender_ip target_mac target_ip"
  have len: "unat (cap_len - 14) = length (?arp @ padding)"
    using unat_frame_payload assms(1,2) cap frame by blast
  have "28 \<le> length ?arp" using assms(3-6) by (simp add: arp_packet_def be16_bytes_def)
  with len have "28 \<le> unat (cap_len - 14)" by simp
  note steps = parse_arp_packet [OF assms(3-6) this eq_refl [OF len]]
  have "parse_payload en (?arp @ padding) (cap_len - 14) ?eth =
      Some (arp_info en opcode sender_mac sender_ip target_mac target_ip ?eth)"
    by (simp only: parse_payload_def info_flags steps) simp
  from parse_packet_frame [OF assms(1,2) cap [unfolded frame] this]
  show ?thesis by (simp add: frame info_flags)
qed

theorem parse_arp_frame_roundtrip_witness:
  "\<exists>i. parse_packet Big (Some (ethernet_frame example_mac example_mac ETHERTYPE_ARP
       (arp_packet 1 example_mac [10, 0, 0, 1] example_mac [10, 0, 0, 2] @ [])))
       42 42 (Some packet_info_zero) = Some (True, Some i) \<and> has_arp i \<and> arp_sender_ipv4 i = 0x0a000001"
proof -
  let ?frame = "ethernet_frame example_mac example_mac ETHERTYPE_ARP
    (arp_packet 1 example_mac [10, 0, 0, 1] example_mac [10, 0, 0, 2] @ [])"
  have "unat (42 :: u64) = length ?frame"
    by (simp add: ethernet_frame_def arp_packet_def be16_bytes_def example_mac_def)
  from parse_arp_frame_roundtrip [OF example_simps(1,1,1) _ example_simps(1) _ refl this, of Big 42 packet_info_zero]
  show ?thesis by (simp add: arp_info_def host_u32_def be32_def)
qed

text \<open>
  C38: the IPv4 total length does not bound the transport header. When the total length ends with
  the IPv4 header, so that the datagram carries no TCP at all, bytes that follow it in the frame
  (link-layer padding) are still parsed as a TCP header, and the packet is reported as complete.
\<close>

theorem parse_tcp_beyond_total_length:
  assumes "length dmac = 6" "length smac = 6"
    and "ipv4_fields_ok h" "ip_proto h = IPPROTO_TCP" "ip_frag h AND 0x1fff = 0"
    and "unat (ip_total h) = 20 + length (ip_options h)"
    and "tcp_fields_ok t"
    and "frame = ethernet_frame dmac smac ETHERTYPE_IP (ipv4_packet h [] @ tcp_segment t padding)"
    and "unat cap_len = length frame"
  shows "\<exists>i. parse_packet en (Some frame) cap_len wire_len (Some info) = Some (True, Some i) \<and>
    has_tcp i \<and> dst_port i = th_dport t \<and> tcp_flags i = th_flags t"
proof -
  have "frame = ethernet_frame dmac smac ETHERTYPE_IP (ipv4_packet h (tcp_segment t padding))"
    using assms(8) by (simp add: ipv4_packet_def)
  from parse_tcp_frame_lemma [OF assms(1-5) assms(7) this assms(9)]
  show ?thesis by (simp add: tcp_info_def)
qed

theorem parse_tcp_beyond_total_length_witness:
  "\<exists>frame i. parse_packet Little (Some frame) 58 60 (Some packet_info_zero) = Some (True, Some i) \<and>
     has_tcp i \<and> dst_port i = 22 \<and> tcp_flags i = TH_SYN"
proof -
  let ?h = "example_ipv4 IPPROTO_TCP 20"
  let ?frame = "ethernet_frame example_mac example_mac ETHERTYPE_IP (ipv4_packet ?h [] @ tcp_segment example_tcp [])"
  have total_len: "unat (ip_total ?h) = 20 + length (ip_options ?h)" by (simp add: example_ipv4_def)
  have "unat (58 :: u64) = length ?frame"
    by (simp add: ethernet_frame_def ipv4_packet_def tcp_segment_def be16_bytes_def be32_bytes_def
        length_mem_u32 example_mac_def example_ipv4_def example_tcp_def)
  from parse_tcp_beyond_total_length [OF example_simps(1,1,3,4,5) total_len example_simps(6) refl this,
      of Little 60 packet_info_zero]
  show ?thesis by (auto simp: example_tcp_def)
qed

end
