(* ===== verification/Parser_Morphisms.thy ===== *)
theory Parser_Morphisms
  imports Parser_Frames
begin

text \<open>
  Two symmetries of the parser. A map of structs that commutes with every update the parser
  makes (the locale \<open>parser_morphism\<close>) commutes with the whole parser; the two instances are the
  change of the captured length, which shows that more captured bytes never change what was
  parsed, and the change of the host's byte order.
\<close>

section \<open>Maps that commute with the parser\<close>

locale parser_morphism =
  fixes en en' :: endian and phi :: "packet_info \<Rightarrow> packet_info"
  assumes phi_truncated: "phi (i\<lparr>truncated := True\<rparr>) = (phi i)\<lparr>truncated := True\<rparr>"
    and phi_malformed: "phi (i\<lparr>malformed := True\<rparr>) = (phi i)\<lparr>malformed := True\<rparr>"
    and phi_ipv6: "phi (i\<lparr>is_ipv6_observed := True\<rparr>) = (phi i)\<lparr>is_ipv6_observed := True\<rparr>"
    and phi_arp: "length sip = 4 \<Longrightarrow> length tip = 4 \<Longrightarrow>
      phi (i\<lparr>has_arp := True, arp_opcode := opcode, arp_sender_mac := smac,
             arp_sender_ipv4 := host_u32 en sip, arp_target_mac := tmac,
             arp_target_ipv4 := host_u32 en tip\<rparr>) =
      (phi i)\<lparr>has_arp := True, arp_opcode := opcode, arp_sender_mac := smac,
             arp_sender_ipv4 := host_u32 en' sip, arp_target_mac := tmac,
             arp_target_ipv4 := host_u32 en' tip\<rparr>"
    and phi_ipv4: "phi (i\<lparr>has_ipv4 := True, ipv4_version := version, ipv4_ihl := ihl,
             ipv4_total_length := len\<rparr>) =
      (phi i)\<lparr>has_ipv4 := True, ipv4_version := version, ipv4_ihl := ihl,
             ipv4_total_length := len\<rparr>"
    and phi_addresses: "length src = 4 \<Longrightarrow> length dst = 4 \<Longrightarrow>
      phi (i\<lparr>ip_protocol := proto, src_ipv4 := host_u32 en src, dst_ipv4 := host_u32 en dst,
             ipv4_fragmented := frag, ipv4_l4_header_available := l4\<rparr>) =
      (phi i)\<lparr>ip_protocol := proto, src_ipv4 := host_u32 en' src, dst_ipv4 := host_u32 en' dst,
             ipv4_fragmented := frag, ipv4_l4_header_available := l4\<rparr>"
    and phi_icmp: "phi (i\<lparr>has_icmp := True, icmp_type := type, icmp_code := code\<rparr>) =
      (phi i)\<lparr>has_icmp := True, icmp_type := type, icmp_code := code\<rparr>"
    and phi_tcp: "phi (i\<lparr>has_ports := True, has_tcp := True, src_port := sport, dst_port := dport,
             tcp_sequence := seq, tcp_acknowledgment := ack, tcp_header_length := hlen,
             tcp_flags := flags, service_hint := hint\<rparr>) =
      (phi i)\<lparr>has_ports := True, has_tcp := True, src_port := sport, dst_port := dport,
             tcp_sequence := seq, tcp_acknowledgment := ack, tcp_header_length := hlen,
             tcp_flags := flags, service_hint := hint\<rparr>"
    and phi_udp: "phi (i\<lparr>has_ports := True, has_udp := True, src_port := sport, dst_port := dport,
             udp_length := ulen, service_hint := hint\<rparr>) =
      (phi i)\<lparr>has_ports := True, has_udp := True, src_port := sport, dst_port := dport,
             udp_length := ulen, service_hint := hint\<rparr>"
    and phi_tests: "ether_type (phi i) = ether_type i" "ip_protocol (phi i) = ip_protocol i"
      "ipv4_l4_header_available (phi i) = ipv4_l4_header_available i"
      "truncated (phi i) = truncated i" "malformed (phi i) = malformed i"
begin

lemmas push_phi = map_option_bind if_distrib [of "map_option phi"] Let_def
  
lemma read_u16_en: "read_u16_be en' b = read_u16_be en b"
  by (cases "2 \<le> length b") (simp_all add: read_u16_be_def load_bytes_def byte_simps)

lemma read_u32_en: "read_u32_be en' b = read_u32_be en b"
  by (cases "4 \<le> length b") (simp_all add: read_u32_be_def load_bytes_def byte_simps)

lemma parse_icmp_phi: "parse_icmp b n (phi i) = map_option phi (parse_icmp b n i)"
  by (simp add: parse_icmp_def push_phi phi_truncated phi_icmp cong: if_cong)

lemma parse_tcp_phi: "parse_tcp en' b n (phi i) = map_option phi (parse_tcp en b n i)"
  by (simp add: parse_tcp_def push_phi phi_truncated phi_malformed phi_tcp read_u16_en read_u32_en cong: if_cong)

lemma parse_udp_phi: "parse_udp en' b n (phi i) = map_option phi (parse_udp en b n i)"
  by (simp add: parse_udp_def push_phi phi_truncated phi_malformed phi_udp read_u16_en cong: if_cong)

lemma parse_transport_phi:
  "parse_transport en' b n (phi i) = map_option phi (parse_transport en b n i)"
  by (simp add: parse_transport_def phi_tests parse_icmp_phi parse_tcp_phi parse_udp_phi)

lemma copy_u32_bind:
  "Option.bind (copy_u32 e b) f = Option.bind (load_bytes b 0 4) (\<lambda>bs. f (host_u32 e bs))"
  by (cases "load_bytes b 0 4") (simp_all add: copy_u32_def)

lemma bind_load_cong:
  "(\<And>bs. length bs = k \<Longrightarrow> f bs = g bs) \<Longrightarrow>
   Option.bind (load_bytes b n k) f = Option.bind (load_bytes b n k) g"
  by (cases "load_bytes b n k") (auto dest: load_bytes_length)

lemma parse_arp_phi: "parse_arp en' b n (phi i) = map_option phi (parse_arp en b n i)"
  unfolding parse_arp_def push_phi copy_u32_bind read_u16_en
  by (simp add: phi_truncated phi_malformed phi_arp cong: bind_load_cong if_cong)

lemma parse_ipv4_phi: "parse_ipv4 en' b n (phi i) = map_option phi (parse_ipv4 en b n i)"
  unfolding parse_ipv4_def push_phi copy_u32_bind read_u16_en
  by (simp add: phi_truncated phi_malformed phi_ipv4 [symmetric] phi_addresses [symmetric]
      phi_tests parse_transport_phi cong: bind_load_cong if_cong)

lemma parse_payload_phi: "parse_payload en' b n (phi i) = map_option phi (parse_payload en b n i)"
  by (simp add: parse_payload_def phi_tests phi_ipv6 parse_arp_phi parse_ipv4_phi)
end

section \<open>Longer captures\<close>

lemma parse_arp_mono:
  "parse_arp en buf n i = Some j \<Longrightarrow> \<not> truncated j \<Longrightarrow> n \<le> m \<Longrightarrow> parse_arp en buf m i = Some j"
  unfolding parse_arp_def
  by (elim some_elims) (auto simp: word_bounds)

lemma parse_icmp_mono:
  "parse_icmp buf n i = Some j \<Longrightarrow> \<not> truncated j \<Longrightarrow> n \<le> m \<Longrightarrow> parse_icmp buf m i = Some j"
  unfolding parse_icmp_def
  by (elim some_elims) (auto simp: word_bounds)

lemma parse_tcp_mono:
  "parse_tcp en buf n i = Some j \<Longrightarrow> \<not> truncated j \<Longrightarrow> n \<le> m \<Longrightarrow> parse_tcp en buf m i = Some j"
  unfolding parse_tcp_def Let_def
  by (elim some_elims) (auto simp: word_bounds)

lemma parse_udp_mono:
  "parse_udp en buf n i = Some j \<Longrightarrow> \<not> truncated j \<Longrightarrow> n \<le> m \<Longrightarrow> parse_udp en buf m i = Some j"
  unfolding parse_udp_def Let_def
  by (elim some_elims) (auto simp: word_bounds)
lemma parse_transport_mono:
  "parse_transport en buf n i = Some j \<Longrightarrow> \<not> truncated j \<Longrightarrow> n \<le> m \<Longrightarrow>
   parse_transport en buf m i = Some j"
  by (auto simp: parse_transport_def intro: parse_icmp_mono parse_tcp_mono parse_udp_mono
      split: if_splits)

lemmas avail_simps = not_less_mono if_False if_True bind.bind_lunit simp_thms

lemma parse_ipv4_mono:
  "parse_ipv4 en buf n i = Some j \<Longrightarrow> \<not> truncated j \<Longrightarrow> n \<le> m \<Longrightarrow> parse_ipv4 en buf m i = Some j"
  unfolding parse_ipv4_def Let_def
  apply (elim some_elims)
       apply simp
      apply (simp only: avail_simps)
     apply simp
    apply (simp only: avail_simps)
   apply (simp only: avail_simps)
  apply (drule parse_transport_mono, assumption)
   apply (rule word_minus_mono, erule leI, assumption)
  apply (simp only: avail_simps)
  done
lemma parse_payload_mono:
  "parse_payload en buf n i = Some j \<Longrightarrow> \<not> truncated j \<Longrightarrow> n \<le> m \<Longrightarrow> parse_payload en buf m i = Some j"
  by (auto simp: parse_payload_def intro: parse_arp_mono parse_ipv4_mono split: if_splits)

interpretation recapture: parser_morphism en en "\<lambda>i. i\<lparr>captured_length := m\<rparr>" for en m
  by unfold_locales simp_all

text \<open>
  C33: capturing more bytes changes nothing that was parsed. When a packet parses without being
  truncated from its first \<open>n\<close> captured bytes, a longer capture of the same packet gives the same
  verdict and the same struct, except for the captured length itself.
\<close>

theorem parse_packet_longer_capture:
  assumes parsed: "parse_packet en (Some bytes) n wire_len (Some info) = Some (ok, Some i)"
    and "\<not> truncated i" and "n \<le> m"
  shows "parse_packet en (Some bytes) m wire_len (Some info) =
    Some (ok, Some (i\<lparr>captured_length := m\<rparr>))"
proof (cases "n < 14")
  case True
  with assms show ?thesis by (auto simp: parse_packet_def)
next
  case False
  from parsed obtain d s e
    where reads: "load_bytes bytes 0 6 = Some d" "load_bytes bytes 6 6 = Some s"
        "read_u16_be en (drop 12 bytes) = Some e"
      and payload: "parse_payload en (drop 14 bytes) (n - 14) (ethernet_info n wire_len d s e) = Some i"
      and ok: "ok = (\<not> (malformed i \<or> truncated i))"
    unfolding parse_packet_frame_eq [OF False] by (auto elim!: some_elims)
  from False have "14 \<le> n" by (rule leI)
  note longer = parse_payload_mono [OF payload assms(2) word_minus_mono [OF this assms(3)]]
  have "ethernet_info m wire_len d s e = (ethernet_info n wire_len d s e)\<lparr>captured_length := m\<rparr>"
    by (simp add: ethernet_info_def)
  with longer have "parse_payload en (drop 14 bytes) (m - 14) (ethernet_info m wire_len d s e) =
      Some (i\<lparr>captured_length := m\<rparr>)"
    by (simp add: recapture.parse_payload_phi)
  moreover have "\<not> m < 14" using False assms(3) by simp
  ultimately show ?thesis by (simp add: parse_packet_frame_eq reads ok)
qed

theorem parse_packet_longer_capture_witness:
  "\<exists>i. parse_packet Little (Some example_tcp_frame) 64 60 (Some packet_info_zero) = Some (True, Some i) \<and>
     captured_length i = 64 \<and> dst_port i = 22"
  using parse_packet_longer_capture [OF parse_example_frame [of Little 60 packet_info_zero], of 64]
  by (simp add: info_flags tcp_info_def example_tcp_def)

definition reencode :: "endian \<Rightarrow> endian \<Rightarrow> packet_info \<Rightarrow> packet_info" where
  "reencode en en' i = i\<lparr>
     arp_sender_ipv4 := host_u32 en' (mem_u32 en (arp_sender_ipv4 i)),
     arp_target_ipv4 := host_u32 en' (mem_u32 en (arp_target_ipv4 i)),
     src_ipv4 := host_u32 en' (mem_u32 en (src_ipv4 i)),
     dst_ipv4 := host_u32 en' (mem_u32 en (dst_ipv4 i))\<rparr>"

interpretation byte_order: parser_morphism en en' "reencode en en'" for en en'
  by unfold_locales (simp_all add: reencode_def byte_simps)

lemma reencode_fresh:
  "reencode en en' (fresh_packet_info n w) = fresh_packet_info n w"
  "reencode en en' (fresh_packet_info n w\<lparr>truncated := True\<rparr>) = fresh_packet_info n w\<lparr>truncated := True\<rparr>"
  "reencode en en' (ethernet_info n w d s e) = ethernet_info n w d s e"
proof -
  have "host_u32 en' (mem_u32 en 0) = 0"
    by (cases en; cases en') (simp_all add: host_u32_def mem_u32_def be32_def)
  then show "reencode en en' (fresh_packet_info n w) = fresh_packet_info n w"
    "reencode en en' (fresh_packet_info n w\<lparr>truncated := True\<rparr>) = fresh_packet_info n w\<lparr>truncated := True\<rparr>"
    "reencode en en' (ethernet_info n w d s e) = ethernet_info n w d s e"
    by (simp_all add: reencode_def ethernet_info_def packet_info_zero_def)
qed

text \<open>
  C34: the parser does not depend on the byte order of the host. On a host of the other byte order
  it reads the same header values and gives the same verdict; only the address fields, which are
  copied without conversion, hold the same four bytes in the other order.
\<close>

theorem parse_packet_portable:
  "parse_packet en' (Some bytes) n wire_len (Some info) =
   map_option (\<lambda>(ok, i). (ok, map_option (reencode en en') i))
     (parse_packet en (Some bytes) n wire_len (Some info))"
proof (cases "n < 14")
  case True
  then show ?thesis by (simp add: parse_packet_def reencode_fresh)
next
  case False
  have same: "parse_payload en' b k (ethernet_info n w d s e) =
      map_option (reencode en en') (parse_payload en b k (ethernet_info n w d s e))" for b k w d s e
    using byte_order.parse_payload_phi [of en' b k en "ethernet_info n w d s e"]
    by (simp add: reencode_fresh)
  show ?thesis
    unfolding parse_packet_frame_eq [OF False] byte_order.read_u16_en [of en' _ en] same
      map_option_bind bind_map_option
    by (simp add: byte_order.phi_tests)
qed

end
