(* ===== verification/Timed_Table.thy ===== *)
theory Timed_Table
  imports C_Runtime
begin

text \<open>
  The interface of the two linked lists the program keeps for a sliding time window: the SSH
  attempts of \<open>src/rules.c\<close> and the ports of a source in \<open>src/scan_detector.c\<close>. Both are keyed
  lists of time stamps with the operations \<open>prune\<close> (drop what is older than the window) and
  \<open>touch\<close> (refresh the stamp of the key of a query, or insert that key in front when the
  allocation succeeds). The locale states the laws
  the lists obey; the client lemmas relate a list to the log of everything that was touched.
\<close>

section \<open>Keyed lists of time stamps\<close>

definition stamps :: "('e \<Rightarrow> 'k) \<Rightarrow> ('e \<Rightarrow> time_t) \<Rightarrow> 'e list \<Rightarrow> 'k \<rightharpoonup> time_t" where
  "stamps key stamp es = map_of (map (\<lambda>e. (key e, stamp e)) es)"

lemma stamps_simps [simp]:
  "stamps key stamp [] = Map.empty"
  "stamps key stamp (e # es) = (stamps key stamp es)(key e \<mapsto> stamp e)"
  by (simp_all add: stamps_def)

lemma dom_stamps: "dom (stamps key stamp es) = key ` set es"
  by (simp add: stamps_def dom_map_of_conv_image_fst image_image)

lemma stamps_Some:
  "distinct (map key es) \<Longrightarrow> stamps key stamp es k = Some t \<longleftrightarrow> (\<exists>e \<in> set es. key e = k \<and> stamp e = t)"
  by (induction es) (auto simp: image_iff)

lemma stamps_filter:
  "distinct (map key es) \<Longrightarrow>
   stamps key stamp (filter (\<lambda>e. P (stamp e)) es) =
   (\<lambda>k. case stamps key stamp es k of None \<Rightarrow> None | Some t \<Rightarrow> if P t then Some t else None)"
proof (induction es)
  case Nil
  then show ?case by simp
next
  case (Cons e es)
  then have "stamps key stamp es (key e) = None"
    using dom_stamps [of key stamp es] by auto
  with Cons show ?case by (auto simp: fun_eq_iff)
qed

section \<open>The interface\<close>

locale timed_table = double_to_unsigned cvt for cvt :: "int \<Rightarrow> u32" +
  fixes key :: "'e \<Rightarrow> 'k" and stamp :: "'e \<Rightarrow> time_t" and query :: "'q \<Rightarrow> 'k"
    and window :: u32
    and prune :: "time_t \<Rightarrow> 'e list \<Rightarrow> 'e list"
    and touch :: "bool \<Rightarrow> 'q \<Rightarrow> time_t \<Rightarrow> 'e list \<Rightarrow> 'e list"
  assumes prune_filter:
      "prune now es = filter (\<lambda>e. \<not> difftime_u32 cvt now (stamp e) > window) es"
    and touch_keys: "distinct (map key es) \<Longrightarrow> distinct (map key (touch ok q now es))"
    and touch_stamps: "ok \<or> query q \<in> key ` set es \<Longrightarrow>
      stamps key stamp (touch ok q now es) = (stamps key stamp es)(query q \<mapsto> now)"
    and touch_refused: "\<not> ok \<Longrightarrow> query q \<notin> key ` set es \<Longrightarrow> touch ok q now es = es"
begin

lemma prune_keys: "distinct (map key es) \<Longrightarrow> distinct (map key (prune now es))"
  by (simp add: prune_filter distinct_map_filter_keyed)

lemma prune_stamps:
  "distinct (map key es) \<Longrightarrow>
   stamps key stamp (prune now es) =
   (\<lambda>k. case stamps key stamp es k of
          None \<Rightarrow> None
        | Some t \<Rightarrow> if difftime_u32 cvt now t > window then None else Some t)"
  using stamps_filter [of key es stamp "\<lambda>t. \<not> difftime_u32 cvt now t > window"]
  by (simp add: prune_filter fun_eq_iff split: option.splits)

lemma prune_idem: "prune now (prune now es) = prune now es"
  by (simp add: prune_filter)

end

section \<open>Lists against the log\<close>

text \<open>
  A log holds every touched key with its time, the newest entry first. At time \<open>now\<close> a list
  tracks the log when each stamp is the last time of its key and no key of the window is missing.
\<close>

definition recent_clock :: "time_t \<Rightarrow> ('k \<times> time_t) list \<Rightarrow> bool" where
  "recent_clock now log \<longleftrightarrow> (\<forall>(k, t) \<in> set log. t \<le> now \<and> now - t < 2 ^ 32)"

definition tracks ::
  "('e \<Rightarrow> 'k) \<Rightarrow> ('e \<Rightarrow> time_t) \<Rightarrow> u32 \<Rightarrow> time_t \<Rightarrow> ('k \<times> time_t) list \<Rightarrow> 'e list \<Rightarrow> bool" where
  "tracks key stamp w now log es \<longleftrightarrow>
     distinct (map key es) \<and>
     (\<forall>k t. stamps key stamp es k = Some t \<longrightarrow> map_of log k = Some t) \<and>
     (\<forall>k t. map_of log k = Some t \<and> now - t \<le> uint w \<longrightarrow> stamps key stamp es k = Some t)"

text \<open>The times of a run on a clock that does not step back and that fits 32 bits (until 2106).\<close>

definition clock_ok :: "time_t \<Rightarrow> (time_t \<times> 'a) list \<Rightarrow> bool" where
  "clock_ok start run \<longleftrightarrow>
     sorted (map fst run) \<and> (\<forall>(t, _) \<in> set run. start \<le> t \<and> 0 \<le> t \<and> t < 2 ^ 32)"

lemma clock_ok_Cons [simp]:
  "clock_ok start ((t, x) # run) \<longleftrightarrow> start \<le> t \<and> 0 \<le> t \<and> t < 2 ^ 32 \<and> clock_ok t run"
  by (auto simp: clock_ok_def)

text \<open>The keys a log has inside the window that ends at \<open>now\<close>.\<close>

definition window_keys :: "u32 \<Rightarrow> time_t \<Rightarrow> ('k \<times> time_t) list \<Rightarrow> 'k set" where
  "window_keys w now log = {k. \<exists>t. (k, t) \<in> set log \<and> now - t \<le> uint w}"

lemma tracks_empty:
  assumes "\<And>k t. map_of log k = Some t \<Longrightarrow> now - t > uint w"
  shows "tracks key stamp w now log []"
  using assms by (auto simp: tracks_def simp flip: not_le)

lemma tracks_nil [simp]: "tracks key stamp w now [] []"
  by (rule tracks_empty) simp

lemma tracks_later:
  assumes "tracks key stamp w now log es" "now \<le> later"
  shows "tracks key stamp w later log es"
proof -
  have "now - t \<le> uint w" if "later - t \<le> uint w" for t
    using that assms(2) by linarith
  then show ?thesis
    using assms(1) unfolding tracks_def by blast
qed

lemma recent_clock_stamp:
  "recent_clock now log \<Longrightarrow> map_of log k = Some t \<Longrightarrow> t \<le> now \<and> now - t < 2 ^ 32"
  by (force simp: recent_clock_def dest: map_of_SomeD)

text \<open>A log in order of time, so that the first entry of a key is its latest.\<close>

definition ordered_log :: "('k \<times> time_t) list \<Rightarrow> bool" where
  "ordered_log log \<longleftrightarrow> sorted_wrt (\<lambda>x y. snd y \<le> snd x) log"

lemma window_keys_latest:
  assumes "ordered_log log"
  shows "k \<in> window_keys w now log \<longleftrightarrow> (\<exists>t. map_of log k = Some t \<and> now - t \<le> uint w)"
  using assms
proof (induction log)
  case Nil
  then show ?case by (simp add: window_keys_def)
next
  case (Cons x log)
  then have IH: "k \<in> window_keys w now log \<longleftrightarrow> (\<exists>t. map_of log k = Some t \<and> now - t \<le> uint w)"
    and newest: "\<forall>y \<in> set log. snd y \<le> snd x"
    by (auto simp: ordered_log_def)
  show ?case
  proof (cases "fst x = k")
    case True
    then show ?thesis using newest by (cases x) (fastforce simp: window_keys_def)
  next
    case False
    then show ?thesis using IH by (cases x) (auto simp: window_keys_def)
  qed
qed

context timed_table
begin

lemma prune_stamps_iff:
  assumes "tracks key stamp window now log es" and "recent_clock now log"
  shows "stamps key stamp (prune now es) k = Some t \<longleftrightarrow>
         map_of log k = Some t \<and> now - t \<le> uint window"
proof -
  have d: "distinct (map key es)"
    and sub: "\<And>t. stamps key stamp es k = Some t \<Longrightarrow> map_of log k = Some t"
    and sup: "\<And>t. map_of log k = Some t \<Longrightarrow> now - t \<le> uint window \<Longrightarrow>
      stamps key stamp es k = Some t"
    using assms(1) unfolding tracks_def by blast+
  have old: "(difftime_u32 cvt now t > window) = (now - t > uint window)"
    if "map_of log k = Some t" for t
    using recent_clock_stamp [OF assms(2) that] by (intro older_than_window) simp_all
  show ?thesis
  proof (cases "stamps key stamp es k")
    case None
    then have "stamps key stamp (prune now es) k = None" by (simp add: prune_stamps [OF d])
    moreover have "\<not> (map_of log k = Some t \<and> now - t \<le> uint window)"
      using None sup [of t] by force
    ultimately show ?thesis by simp
  next
    case (Some t')
    then have t': "map_of log k = Some t'" by (rule sub)
    have "stamps key stamp (prune now es) k = (if now - t' > uint window then None else Some t')"
      by (simp only: prune_stamps [OF d] Some option.case old [OF t'])
    moreover have "((if now - t' > uint window then None else Some t') = Some t) =
      (Some t' = Some t \<and> now - t \<le> uint window)"
      by (cases "t' = t") (simp_all add: not_less)
    ultimately show ?thesis by (simp only: t')
  qed
qed

lemma tracks_prune:
  assumes "tracks key stamp window now log es" and "recent_clock now log"
  shows "tracks key stamp window now log (prune now es)"
proof -
  have "distinct (map key (prune now es))"
    using assms(1) by (simp add: tracks_def prune_keys)
  then show ?thesis
    unfolding tracks_def prune_stamps_iff [OF assms] by blast
qed

lemma tracks_touch:
  assumes "tracks key stamp window now log es"
  shows "tracks key stamp window now ((query q, now) # log) (touch True q now es)"
proof -
  have d: "distinct (map key es)"
    and sub: "\<And>k t. stamps key stamp es k = Some t \<Longrightarrow> map_of log k = Some t"
    and sup: "\<And>k t. map_of log k = Some t \<Longrightarrow> now - t \<le> uint window \<Longrightarrow>
      stamps key stamp es k = Some t"
    using assms unfolding tracks_def by blast+
  have upd: "stamps key stamp (touch True q now es) = (stamps key stamp es)(query q \<mapsto> now)"
    by (simp add: touch_stamps)
  show ?thesis
    unfolding tracks_def upd
  proof (intro conjI allI impI)
    show "distinct (map key (touch True q now es))" using d by (rule touch_keys)
  next
    fix k' t assume "((stamps key stamp es)(query q \<mapsto> now)) k' = Some t"
    then show "map_of ((query q, now) # log) k' = Some t"
      using sub [of k' t] by (cases "k' = query q") simp_all
  next
    fix k' t assume "map_of ((query q, now) # log) k' = Some t \<and> now - t \<le> uint window"
    then show "((stamps key stamp es)(query q \<mapsto> now)) k' = Some t"
      using sup [of k' t] by (cases "k' = query q") simp_all
  qed
qed

lemma tracks_exact:
  assumes "tracks key stamp window now log es" and "recent_clock now log" and "ordered_log log"
  shows "key ` set (prune now es) = window_keys window now log"
proof -
  have "key ` set (prune now es) = dom (stamps key stamp (prune now es))"
    by (simp add: dom_stamps)
  also have "\<dots> = window_keys window now log"
    by (rule set_eqI)
      (simp only: dom_def mem_Collect_eq prune_stamps_iff [OF assms(1,2)]
        window_keys_latest [OF assms(3)] not_None_eq)
  finally show ?thesis .
qed

lemma touch_step:
  assumes "tracks key stamp window before log es" and "before \<le> now"
    and "recent_clock now log" and "ordered_log log"
  shows "query q \<in> key ` set (prune now es) \<longleftrightarrow> query q \<in> window_keys window now log"
    and "tracks key stamp window now ((query q, now) # log) (touch True q now (prune now es))"
    and "ordered_log ((query q, now) # log)"
proof -
  have t: "tracks key stamp window now log es"
    using assms(1,2) by (rule tracks_later)
  show "query q \<in> key ` set (prune now es) \<longleftrightarrow> query q \<in> window_keys window now log"
    by (simp only: tracks_exact [OF t assms(3,4)])
  show "tracks key stamp window now ((query q, now) # log) (touch True q now (prune now es))"
    by (intro tracks_touch tracks_prune t assms)
  show "ordered_log ((query q, now) # log)"
    using assms(3,4) by (auto simp: ordered_log_def recent_clock_def)
qed

lemma touch_exact:
  assumes "tracks key stamp window before log es" and "before \<le> now"
    and "recent_clock now log" and "ordered_log log"
  shows "distinct (map key (touch True q now (prune now es)))"
    and "key ` set (touch True q now (prune now es)) = window_keys window now ((query q, now) # log)"
proof -
  have t: "tracks key stamp window now log es"
    using assms(1,2) by (rule tracks_later)
  have "distinct (map key (prune now es))"
    using tracks_prune [OF t assms(3)] by (simp add: tracks_def)
  then show "distinct (map key (touch True q now (prune now es)))" by (rule touch_keys)
  have "key ` set (touch True q now (prune now es)) = insert (query q) (key ` set (prune now es))"
    using touch_stamps [of True q "prune now es" now] by (simp flip: dom_stamps [of _ stamp])
  also have "key ` set (prune now es) = window_keys window now log"
    using t assms(3,4) by (rule tracks_exact)
  finally show "key ` set (touch True q now (prune now es)) = window_keys window now ((query q, now) # log)"
    by (auto simp: window_keys_def)
qed

end

end
