(* ===== verification/Events.thy ===== *)
theory Events
  imports Packet_Info
begin

text \<open>
  The values the components exchange: the LED actions of \<open>include/gpio_led.h\<close> and the events of
  \<open>include/rules.h\<close>, with the struct fields in their order under the prefix \<open>ev_\<close>.
\<close>

datatype led_action =
    LED_ACTION_NONE
  | LED_ACTION_SHORT
  | LED_ACTION_LONG
  | LED_ACTION_RAPID

datatype event_severity = EVENT_SEVERITY_INFO | EVENT_SEVERITY_ALERT

datatype event_kind =
    EVENT_KIND_NONE
  | EVENT_KIND_ARP
  | EVENT_KIND_IPV6_OBSERVED
  | EVENT_KIND_IPV4_PROTOCOL
  | EVENT_KIND_ICMP
  | EVENT_KIND_TCP
  | EVENT_KIND_UDP
  | EVENT_KIND_PORT_SCAN

record event =
  ev_kind :: event_kind
  ev_severity :: event_severity
  ev_should_print :: bool
  ev_should_log :: bool
  ev_led_action :: led_action
  ev_packet :: packet_info
  ev_scan_unique_ports :: u64
  ev_scan_window_seconds :: u32

text \<open>Severities are ordered as their enumeration values: \<open>INFO = 0\<close>, \<open>ALERT = 1\<close>.\<close>

instantiation event_severity :: linorder
begin

definition less_eq_event_severity :: "event_severity \<Rightarrow> event_severity \<Rightarrow> bool" where
  "less_eq_event_severity s t \<longleftrightarrow> s = EVENT_SEVERITY_INFO \<or> t = EVENT_SEVERITY_ALERT"

definition less_event_severity :: "event_severity \<Rightarrow> event_severity \<Rightarrow> bool" where
  "less_event_severity s t \<longleftrightarrow> s = EVENT_SEVERITY_INFO \<and> t = EVENT_SEVERITY_ALERT"

instance
proof
  fix s t u :: event_severity
  show "(s < t) = (s \<le> t \<and> \<not> t \<le> s)"
    by (cases s; cases t) (simp_all add: less_eq_event_severity_def less_event_severity_def)
  show "s \<le> s" by (cases s) (simp_all add: less_eq_event_severity_def)
  show "s \<le> t \<Longrightarrow> t \<le> u \<Longrightarrow> s \<le> u"
    by (cases s; cases t) (simp_all add: less_eq_event_severity_def)
  show "s \<le> t \<Longrightarrow> t \<le> s \<Longrightarrow> s = t"
    by (cases s; cases t) (simp_all add: less_eq_event_severity_def)
  show "s \<le> t \<or> t \<le> s" by (cases s) (simp_all add: less_eq_event_severity_def)
qed

end

text \<open>The struct after \<open>memset(event, 0, sizeof(*event))\<close>.\<close>

definition event_zero :: event where
  "event_zero =
     \<lparr> ev_kind = EVENT_KIND_NONE, ev_severity = EVENT_SEVERITY_INFO,
       ev_should_print = False, ev_should_log = False, ev_led_action = LED_ACTION_NONE,
       ev_packet = packet_info_zero, ev_scan_unique_ports = 0, ev_scan_window_seconds = 0 \<rparr>"

lemma severity_le_iff [simp]:
  "EVENT_SEVERITY_INFO \<le> s" "s \<le> EVENT_SEVERITY_ALERT"
  "\<not> EVENT_SEVERITY_ALERT \<le> EVENT_SEVERITY_INFO"
  by (simp_all add: less_eq_event_severity_def)

end
