(* ===== verification/Rules.thy ===== *)
theory Rules
  imports Timed_Table Events Parser_Layers
begin

text \<open>
  The rules engine of \<open>src/rules.c\<close>: the classification of a packet into an event, the list of
  recent SSH connection attempts that stops a retransmitted SYN from raising a second alert, and
  the event of a port scan. A \<open>NULL\<close> pointer is \<open>None\<close>; \<open>now\<close> stands for the value
  \<open>time(NULL)\<close> returns and \<open>alloc_ok\<close> for the outcome of \<open>calloc\<close>.
\<close>

section \<open>State\<close>

record ssh_attempt =
  sa_src_ipv4 :: u32
  sa_dst_ipv4 :: u32
  sa_src_port :: u16
  sa_dst_port :: u16
  sa_tcp_sequence :: u32
  sa_seen_at :: time_t

record rules_engine =
  ssh_attempts :: "ssh_attempt list"

abbreviation "SSH_ALERT_DEDUP_SECONDS \<equiv> (5 :: u32)"

section \<open>Operations\<close>

definition clear_event :: "event \<Rightarrow> event" where
  "clear_event _ = event_zero"

definition init_event_from_packet ::
  "packet_info \<Rightarrow> event \<Rightarrow> event_kind \<Rightarrow> event_severity \<Rightarrow> led_action \<Rightarrow> event" where
  "init_event_from_packet packet event kind severity led =
     (clear_event event)\<lparr>ev_kind := kind, ev_severity := severity, ev_should_print := True,
       ev_should_log := True, ev_led_action := led, ev_packet := packet\<rparr>"

text \<open>The unlinking loop of \<open>prune_ssh_attempts\<close>, on the list of the entries.\<close>

fun unlink_old_attempts :: "(int \<Rightarrow> u32) \<Rightarrow> time_t \<Rightarrow> ssh_attempt list \<Rightarrow> ssh_attempt list" where
  "unlink_old_attempts cvt now [] = []"
| "unlink_old_attempts cvt now (current # rest) =
     (if difftime_u32 cvt now (sa_seen_at current) > SSH_ALERT_DEDUP_SECONDS
      then unlink_old_attempts cvt now rest
      else current # unlink_old_attempts cvt now rest)"

definition prune_ssh_attempts ::
  "(int \<Rightarrow> u32) \<Rightarrow> rules_engine option \<Rightarrow> time_t \<Rightarrow> rules_engine option" where
  "prune_ssh_attempts cvt engine now =
     (case engine of
        None \<Rightarrow> None
      | Some e \<Rightarrow> Some (e\<lparr>ssh_attempts := unlink_old_attempts cvt now (ssh_attempts e)\<rparr>))"

definition is_ssh_initial_syn :: "packet_info \<Rightarrow> bool" where
  "is_ssh_initial_syn packet \<longleftrightarrow>
     dst_port packet = 22 \<and> tcp_flags packet AND TH_SYN \<noteq> 0 \<and> tcp_flags packet AND TH_ACK = 0"

definition attempt_matches :: "ssh_attempt \<Rightarrow> packet_info \<Rightarrow> bool" where
  "attempt_matches current packet \<longleftrightarrow>
     sa_src_ipv4 current = src_ipv4 packet \<and> sa_dst_ipv4 current = dst_ipv4 packet \<and>
     sa_src_port current = src_port packet \<and> sa_dst_port current = dst_port packet \<and>
     sa_tcp_sequence current = tcp_sequence packet"

text \<open>The search loop: the list with the first match refreshed, or \<open>None\<close> without a match.\<close>

fun refresh_attempt :: "packet_info \<Rightarrow> time_t \<Rightarrow> ssh_attempt list \<Rightarrow> ssh_attempt list option" where
  "refresh_attempt packet now [] = None"
| "refresh_attempt packet now (current # rest) =
     (if attempt_matches current packet then Some (current\<lparr>sa_seen_at := now\<rparr> # rest)
      else map_option ((#) current) (refresh_attempt packet now rest))"

definition new_attempt :: "packet_info \<Rightarrow> time_t \<Rightarrow> ssh_attempt" where
  "new_attempt packet now =
     \<lparr> sa_src_ipv4 = src_ipv4 packet, sa_dst_ipv4 = dst_ipv4 packet,
       sa_src_port = src_port packet, sa_dst_port = dst_port packet,
       sa_tcp_sequence = tcp_sequence packet, sa_seen_at = now \<rparr>"

definition track_attempt ::
  "bool \<Rightarrow> packet_info \<Rightarrow> time_t \<Rightarrow> ssh_attempt list \<Rightarrow> bool \<times> ssh_attempt list" where
  "track_attempt alloc_ok packet now attempts =
     (case refresh_attempt packet now attempts of
        Some refreshed \<Rightarrow> (False, refreshed)
      | None \<Rightarrow>
          if \<not> alloc_ok then (True, attempts)
          else (True, new_attempt packet now # attempts))"

definition ssh_alert_should_escalate ::
  "(int \<Rightarrow> u32) \<Rightarrow> bool \<Rightarrow> time_t \<Rightarrow> rules_engine option \<Rightarrow> packet_info option \<Rightarrow>
   bool \<times> rules_engine option" where
  "ssh_alert_should_escalate cvt alloc_ok now engine packet =
     (case (engine, packet) of
        (Some _, Some p) \<Rightarrow>
          if now = time_error then (True, engine)
          else (case prune_ssh_attempts cvt engine now of
                  None \<Rightarrow> (True, None)
                | Some e \<Rightarrow>
                    let (escalate, attempts) = track_attempt alloc_ok p now (ssh_attempts e)
                    in (escalate, Some (e\<lparr>ssh_attempts := attempts\<rparr>)))
      | _ \<Rightarrow> (True, engine))"

definition rules_evaluate_packet :: "packet_info option \<Rightarrow> event option \<Rightarrow> bool \<times> event option" where
  "rules_evaluate_packet packet event =
     (case (packet, event) of
        (Some p, Some e) \<Rightarrow>
          let e = clear_event e;
              raise = (\<lambda>kind severity led. (True, Some (init_event_from_packet p e kind severity led)))
          in if malformed p \<or> truncated p then (False, Some e)
             else if has_arp p then raise EVENT_KIND_ARP EVENT_SEVERITY_INFO LED_ACTION_NONE
             else if is_ipv6_observed p
               then raise EVENT_KIND_IPV6_OBSERVED EVENT_SEVERITY_INFO LED_ACTION_NONE
             else if has_icmp p then
               (if icmp_type p = ICMP_ECHO
                then raise EVENT_KIND_ICMP EVENT_SEVERITY_INFO LED_ACTION_SHORT
                else raise EVENT_KIND_ICMP EVENT_SEVERITY_INFO LED_ACTION_NONE)
             else if has_tcp p then
               (if is_ssh_initial_syn p
                then raise EVENT_KIND_TCP EVENT_SEVERITY_ALERT LED_ACTION_LONG
                else raise EVENT_KIND_TCP EVENT_SEVERITY_INFO LED_ACTION_NONE)
             else if has_udp p then raise EVENT_KIND_UDP EVENT_SEVERITY_INFO LED_ACTION_NONE
             else if has_ipv4 p
               then raise EVENT_KIND_IPV4_PROTOCOL EVENT_SEVERITY_INFO LED_ACTION_NONE
             else (False, Some e)
      | _ \<Rightarrow> (False, event))"

definition rules_engine_create :: "bool \<Rightarrow> rules_engine option" where
  "rules_engine_create alloc_ok = (if alloc_ok then Some \<lparr>ssh_attempts = []\<rparr> else None)"

text \<open>The blocks \<open>rules_engine_destroy\<close> passes to \<open>free\<close>, in order.\<close>

datatype rules_block = SshAttemptEntry ssh_attempt | RulesEngine

definition rules_engine_destroy :: "rules_engine option \<Rightarrow> rules_block list" where
  "rules_engine_destroy engine =
     (case engine of
        None \<Rightarrow> []
      | Some e \<Rightarrow> map SshAttemptEntry (ssh_attempts e) @ [RulesEngine])"

definition rules_engine_evaluate_packet ::
  "(int \<Rightarrow> u32) \<Rightarrow> bool \<Rightarrow> time_t \<Rightarrow> rules_engine option \<Rightarrow> packet_info option \<Rightarrow> event option \<Rightarrow>
   bool \<times> rules_engine option \<times> event option" where
  "rules_engine_evaluate_packet cvt alloc_ok now engine packet event =
     (case rules_evaluate_packet packet event of
        (False, event) \<Rightarrow> (False, engine, event)
      | (True, event) \<Rightarrow>
          (case (packet, event) of
             (Some p, Some e) \<Rightarrow>
               if ev_kind e = EVENT_KIND_TCP \<and> ev_severity e = EVENT_SEVERITY_ALERT \<and>
                  is_ssh_initial_syn p
               then (let (escalate, engine) = ssh_alert_should_escalate cvt alloc_ok now engine packet
                     in if \<not> escalate
                        then (True, engine, Some (init_event_from_packet p e EVENT_KIND_TCP
                                EVENT_SEVERITY_INFO LED_ACTION_NONE))
                        else (True, engine, event))
               else (True, engine, event)
           | _ \<Rightarrow> (True, engine, event)))"

text \<open>The local \<open>packet\<close> is uninitialised before its reset, so any \<open>junk\<close> may stand for it.\<close>

definition rules_make_scan_alert ::
  "packet_info \<Rightarrow> u32 \<Rightarrow> u64 \<Rightarrow> u32 \<Rightarrow> event option \<Rightarrow> event option" where
  "rules_make_scan_alert junk src unique_ports window_seconds event =
     (case event of
        None \<Rightarrow> None
      | Some e \<Rightarrow>
          (case packet_info_reset (Some junk) 0 0 of
             None \<Rightarrow> None
           | Some packet \<Rightarrow>
               Some ((clear_event e)\<lparr>ev_kind := EVENT_KIND_PORT_SCAN,
                 ev_severity := EVENT_SEVERITY_ALERT, ev_should_print := True,
                 ev_should_log := True, ev_led_action := LED_ACTION_RAPID,
                 ev_packet := packet\<lparr>has_ipv4 := True, src_ipv4 := src\<rparr>,
                 ev_scan_unique_ports := unique_ports,
                 ev_scan_window_seconds := window_seconds\<rparr>)))"

end
