(* ===== verification/Rules_Properties.thy ===== *)
theory Rules_Properties
  imports Rules
begin

text \<open>
  What the rules engine promises: the classification agrees with the layers the parser found,
  and the list of SSH attempts implements "one alert per connection attempt and five seconds".
  The list is an instance of the interface of \<open>Timed_Table\<close>.
\<close>

section \<open>The list of attempts as a timed table\<close>

type_synonym ssh_key = "u32 \<times> u32 \<times> u16 \<times> u16 \<times> u32"

definition attempt_key :: "ssh_attempt \<Rightarrow> ssh_key" where
  "attempt_key a =
     (sa_src_ipv4 a, sa_dst_ipv4 a, sa_src_port a, sa_dst_port a, sa_tcp_sequence a)"

definition packet_key :: "packet_info \<Rightarrow> ssh_key" where
  "packet_key p = (src_ipv4 p, dst_ipv4 p, src_port p, dst_port p, tcp_sequence p)"

lemma attempt_matches_iff: "attempt_matches a p \<longleftrightarrow> attempt_key a = packet_key p"
  by (simp add: attempt_matches_def attempt_key_def packet_key_def)

lemma new_attempt_simps [simp]:
  "attempt_key (new_attempt p now) = packet_key p" "sa_seen_at (new_attempt p now) = now"
  "attempt_key (a\<lparr>sa_seen_at := now\<rparr>) = attempt_key a"
  by (simp_all add: new_attempt_def attempt_key_def packet_key_def)

lemma unlink_old_attempts_filter:
  "unlink_old_attempts cvt now es =
   filter (\<lambda>e. \<not> difftime_u32 cvt now (sa_seen_at e) > SSH_ALERT_DEDUP_SECONDS) es"
  by (induction es) auto

lemma refresh_attempt_None:
  "refresh_attempt p now es = None \<longleftrightarrow> packet_key p \<notin> attempt_key ` set es"
  by (induction es) (auto simp: attempt_matches_iff)

lemma refresh_attempt_Some:
  "refresh_attempt p now es = Some es' \<Longrightarrow>
   map attempt_key es' = map attempt_key es \<and>
   stamps attempt_key sa_seen_at es' = (stamps attempt_key sa_seen_at es)(packet_key p \<mapsto> now)"
  by (induction es arbitrary: es')
    (auto simp: attempt_matches_iff fun_upd_twist split: if_splits)

lemma track_attempt_escalates:
  "fst (track_attempt ok p now es) \<longleftrightarrow> packet_key p \<notin> attempt_key ` set es"
  using refresh_attempt_None [of p now es] by (auto simp: track_attempt_def split: option.splits)

lemma track_attempt_cases:
  obtains (refreshed) es' where "packet_key p \<in> attempt_key ` set es"
    "map attempt_key es' = map attempt_key es"
    "stamps attempt_key sa_seen_at es' = (stamps attempt_key sa_seen_at es)(packet_key p \<mapsto> now)"
    "track_attempt ok p now es = (False, es')"
  | (inserted) "packet_key p \<notin> attempt_key ` set es" "ok"
    "track_attempt ok p now es = (True, new_attempt p now # es)"
  | (refused) "packet_key p \<notin> attempt_key ` set es" "\<not> ok" "track_attempt ok p now es = (True, es)"
proof (cases "refresh_attempt p now es")
  case None
  then have new: "packet_key p \<notin> attempt_key ` set es" by (simp add: refresh_attempt_None)
  show ?thesis
  proof (cases ok)
    case True
    with None show ?thesis by (intro inserted [OF new]) (simp_all add: track_attempt_def)
  next
    case False
    with None show ?thesis by (intro refused [OF new]) (simp_all add: track_attempt_def)
  qed
next
  case (Some es')
  then have old: "packet_key p \<in> attempt_key ` set es"
    using refresh_attempt_None [of p now es] by simp
  show ?thesis
    using refresh_attempt_Some [OF Some] by (intro refreshed [OF old]) (simp_all add: track_attempt_def Some)
qed

lemma ssh_timed_table:
  assumes "double_to_unsigned cvt"
  shows "timed_table cvt attempt_key sa_seen_at packet_key SSH_ALERT_DEDUP_SECONDS
    (unlink_old_attempts cvt) (\<lambda>ok p now es. snd (track_attempt ok p now es))"
proof (rule timed_table.intro [OF assms], unfold_locales)
  fix ok p now and es :: "ssh_attempt list"
  show "unlink_old_attempts cvt now es =
      filter (\<lambda>e. \<not> difftime_u32 cvt now (sa_seen_at e) > SSH_ALERT_DEDUP_SECONDS) es"
    by (rule unlink_old_attempts_filter)
  show "distinct (map attempt_key es) \<Longrightarrow>
      distinct (map attempt_key (snd (track_attempt ok p now es)))"
    by (cases rule: track_attempt_cases [of p es now ok]) auto
  show "ok \<or> packet_key p \<in> attempt_key ` set es \<Longrightarrow>
      stamps attempt_key sa_seen_at (snd (track_attempt ok p now es)) =
      (stamps attempt_key sa_seen_at es)(packet_key p \<mapsto> now)"
    by (cases rule: track_attempt_cases [of p es now ok]) auto
  show "\<not> ok \<Longrightarrow> packet_key p \<notin> attempt_key ` set es \<Longrightarrow> snd (track_attempt ok p now es) = es"
    by (cases rule: track_attempt_cases [of p es now ok]) auto
qed

interpretation ssh_aarch64: timed_table cvt_saturating attempt_key sa_seen_at packet_key
    SSH_ALERT_DEDUP_SECONDS "unlink_old_attempts cvt_saturating"
    "\<lambda>ok p now es. snd (track_attempt ok p now es)"
  by (rule ssh_timed_table) (rule aarch64.double_to_unsigned_axioms)

interpretation ssh_x86_64: timed_table cvt_wrapping attempt_key sa_seen_at packet_key
    SSH_ALERT_DEDUP_SECONDS "unlink_old_attempts cvt_wrapping"
    "\<lambda>ok p now es. snd (track_attempt ok p now es)"
  by (rule ssh_timed_table) (rule x86_64.double_to_unsigned_axioms)

section \<open>Classification\<close>

lemma rules_evaluate_cases:
  assumes "rules_evaluate_packet (Some p) (Some e) = (ok, e')"
  obtains (refused) "\<not> ok" "e' = Some event_zero"
    "malformed p \<or> truncated p \<or>
     \<not> has_arp p \<and> \<not> is_ipv6_observed p \<and> \<not> has_icmp p \<and> \<not> has_tcp p \<and> \<not> has_udp p \<and> \<not> has_ipv4 p"
  | (raised) kind severity led where "ok" "\<not> malformed p" "\<not> truncated p"
    "e' = Some (init_event_from_packet p event_zero kind severity led)"
    "kind =
       (if has_arp p then EVENT_KIND_ARP
        else if is_ipv6_observed p then EVENT_KIND_IPV6_OBSERVED
        else if has_icmp p then EVENT_KIND_ICMP
        else if has_tcp p then EVENT_KIND_TCP
        else if has_udp p then EVENT_KIND_UDP
        else EVENT_KIND_IPV4_PROTOCOL)"
    "has_arp p \<or> is_ipv6_observed p \<or> has_icmp p \<or> has_tcp p \<or> has_udp p \<or> has_ipv4 p"
    "severity =
       (if kind = EVENT_KIND_TCP \<and> is_ssh_initial_syn p then EVENT_SEVERITY_ALERT
        else EVENT_SEVERITY_INFO)"
    "led =
       (if kind = EVENT_KIND_TCP \<and> is_ssh_initial_syn p then LED_ACTION_LONG
        else if kind = EVENT_KIND_ICMP \<and> icmp_type p = ICMP_ECHO then LED_ACTION_SHORT
        else LED_ACTION_NONE)"
proof -
  note eqn = assms [unfolded rules_evaluate_packet_def clear_event_def Let_def option.case prod.case]
  show thesis
    by (insert eqn; elim if_eqE Pair_inject)
      ((rule refused, blast, erule sym, blast)
       | (rule raised, blast, blast, blast, erule sym, simp_all))+
qed

section \<open>Runs of the engine\<close>

text \<open>
  A run is a list of packets with the time at which each is evaluated. The event struct of the
  caller is reused from packet to packet, as in \<open>process_packet\<close>.
\<close>

fun evaluate_run ::
  "(int \<Rightarrow> u32) \<Rightarrow> (time_t \<times> packet_info) list \<Rightarrow> rules_engine option \<Rightarrow> event option \<Rightarrow>
   (bool \<times> event option) list \<times> rules_engine option" where
  "evaluate_run cvt [] engine event = ([], engine)"
| "evaluate_run cvt ((now, p) # run) engine event =
     (case rules_engine_evaluate_packet cvt True now engine (Some p) event of
        (ok, engine, event) \<Rightarrow>
          (case evaluate_run cvt run engine event of
             (outcomes, engine) \<Rightarrow> ((ok, event) # outcomes, engine)))"

definition raises_alert :: "bool \<times> event option \<Rightarrow> bool" where
  "raises_alert outcome \<longleftrightarrow>
     fst outcome \<and> (case snd outcome of None \<Rightarrow> False | Some e \<Rightarrow> ev_severity e = EVENT_SEVERITY_ALERT)"

text \<open>A connection attempt to the SSH port, as the stateless rules see it.\<close>

definition is_ssh_attempt :: "packet_info \<Rightarrow> bool" where
  "is_ssh_attempt p \<longleftrightarrow>
     \<not> malformed p \<and> \<not> truncated p \<and> \<not> has_arp p \<and> \<not> is_ipv6_observed p \<and> \<not> has_icmp p \<and>
     has_tcp p \<and> is_ssh_initial_syn p"

lemma escalate_step:
  assumes "now \<noteq> time_error"
  shows "ssh_alert_should_escalate cvt True now (Some e) (Some p) =
    (packet_key p \<notin> attempt_key ` set (unlink_old_attempts cvt now (ssh_attempts e)),
     Some (e\<lparr>ssh_attempts :=
       snd (track_attempt True p now (unlink_old_attempts cvt now (ssh_attempts e)))\<rparr>))"
  using assms
  by (simp add: ssh_alert_should_escalate_def prune_ssh_attempts_def split_beta
      track_attempt_escalates)

lemma evaluate_ssh_attempt:
  "is_ssh_attempt p \<Longrightarrow> rules_evaluate_packet (Some p) (Some ev) =
   (True, Some (init_event_from_packet p event_zero EVENT_KIND_TCP EVENT_SEVERITY_ALERT LED_ACTION_LONG))"
  by (simp add: is_ssh_attempt_def rules_evaluate_packet_def clear_event_def)

text \<open>The protocol flags of a well-formed packet exclude each other across layers.\<close>

lemma wf_layers:
  assumes "wf_packet p"
  shows "has_arp p \<Longrightarrow> \<not> is_ipv6_observed p \<and> \<not> has_ipv4 p"
    and "is_ipv6_observed p \<Longrightarrow> \<not> has_ipv4 p"
    and "has_icmp p \<Longrightarrow> has_ipv4 p \<and> \<not> has_tcp p \<and> \<not> has_udp p"
    and "has_tcp p \<Longrightarrow> has_ipv4 p \<and> \<not> has_udp p"
    and "has_udp p \<Longrightarrow> has_ipv4 p"
proof -
  have ether: "has_arp p \<Longrightarrow> ether_type p = ETHERTYPE_ARP"
    "is_ipv6_observed p \<Longrightarrow> ether_type p = ETHERTYPE_IPV6"
    "has_ipv4 p \<Longrightarrow> ether_type p = ETHERTYPE_IP"
    using assms unfolding wf_packet_def by blast+
  show "has_arp p \<Longrightarrow> \<not> is_ipv6_observed p \<and> \<not> has_ipv4 p"
    and "is_ipv6_observed p \<Longrightarrow> \<not> has_ipv4 p"
    using ether by force+
  show "has_icmp p \<Longrightarrow> has_ipv4 p \<and> \<not> has_tcp p \<and> \<not> has_udp p"
    and "has_tcp p \<Longrightarrow> has_ipv4 p \<and> \<not> has_udp p"
    and "has_udp p \<Longrightarrow> has_ipv4 p"
    using assms unfolding wf_packet_defs by blast+
qed

lemma init_event_simps [simp]:
  "ev_kind (init_event_from_packet p e kind severity led) = kind"
  "ev_severity (init_event_from_packet p e kind severity led) = severity"
  "ev_led_action (init_event_from_packet p e kind severity led) = led"
  "ev_packet (init_event_from_packet p e kind severity led) = p"
  "ev_should_print (init_event_from_packet p e kind severity led)"
  "ev_should_log (init_event_from_packet p e kind severity led)"
  "init_event_from_packet p (init_event_from_packet q e k s l) kind severity led =
   init_event_from_packet p event_zero kind severity led"
  by (simp_all add: init_event_from_packet_def clear_event_def)

lemma rules_evaluate_writes:
  "\<exists>ok ev'. rules_evaluate_packet (Some p) (Some ev) = (ok, Some ev')"
proof -
  obtain ok e' where eqn: "rules_evaluate_packet (Some p) (Some ev) = (ok, e')" by fastforce
  from eqn show ?thesis
  proof (cases rule: rules_evaluate_cases)
    case refused
    show ?thesis using eqn unfolding refused(2) by blast
  next
    case raised
    show ?thesis using eqn unfolding raised(4) by blast
  qed
qed

text \<open>Alert severity marks exactly the connection attempts.\<close>

lemma evaluate_alert_iff:
  "raises_alert (rules_evaluate_packet (Some p) (Some ev)) \<longleftrightarrow> is_ssh_attempt p"
proof -
  obtain ok e' where eqn: "rules_evaluate_packet (Some p) (Some ev) = (ok, e')" by fastforce
  then show ?thesis
    by (cases rule: rules_evaluate_cases [OF eqn])
      (auto simp: raises_alert_def is_ssh_attempt_def eqn)
qed

lemma evaluate_other_step:
  assumes "\<not> is_ssh_attempt p"
  shows "rules_engine_evaluate_packet cvt ok now engine (Some p) (Some ev) =
    (case rules_evaluate_packet (Some p) (Some ev) of (raised, ev') \<Rightarrow> (raised, engine, ev'))"
proof -
  obtain raised e' where eqn: "rules_evaluate_packet (Some p) (Some ev) = (raised, e')" by fastforce
  then have "\<not> raises_alert (raised, e')"
    using assms evaluate_alert_iff [of p ev] by simp
  then show ?thesis
    by (auto simp: rules_engine_evaluate_packet_def eqn raises_alert_def split: bool.splits option.splits)
qed

lemma evaluate_attempt_step:
  assumes "is_ssh_attempt p"
  shows "rules_engine_evaluate_packet cvt ok now engine (Some p) (Some ev) =
    (case ssh_alert_should_escalate cvt ok now engine (Some p) of (escalate, engine) \<Rightarrow>
       (True, engine,
        Some (if escalate
              then init_event_from_packet p event_zero EVENT_KIND_TCP EVENT_SEVERITY_ALERT LED_ACTION_LONG
              else init_event_from_packet p event_zero EVENT_KIND_TCP EVENT_SEVERITY_INFO LED_ACTION_NONE)))"
  using assms
  by (simp add: rules_engine_evaluate_packet_def evaluate_ssh_attempt is_ssh_attempt_def split_beta)

text \<open>The specification: a log of all attempts, never pruned, decides each alert.\<close>

fun alerts_from_log ::
  "(ssh_key \<times> time_t) list \<Rightarrow> (time_t \<times> packet_info) list \<Rightarrow> bool list" where
  "alerts_from_log log [] = []"
| "alerts_from_log log ((now, p) # run) =
     (if is_ssh_attempt p
      then (packet_key p \<notin> window_keys SSH_ALERT_DEDUP_SECONDS now log)
           # alerts_from_log ((packet_key p, now) # log) run
      else False # alerts_from_log log run)"

definition attempts_log :: "(time_t \<times> packet_info) list \<Rightarrow> (ssh_key \<times> time_t) list" where
  "attempts_log run = rev (map (\<lambda>(t, p). (packet_key p, t)) (filter (\<lambda>(_, p). is_ssh_attempt p) run))"

lemma alerts_from_log_nth:
  "i < length run \<Longrightarrow> alerts_from_log log run ! i \<longleftrightarrow>
     is_ssh_attempt (snd (run ! i)) \<and>
     packet_key (snd (run ! i)) \<notin>
       window_keys SSH_ALERT_DEDUP_SECONDS (fst (run ! i)) (attempts_log (take i run) @ log)"
proof (induction log run arbitrary: i rule: alerts_from_log.induct)
  case (2 log now p run)
  then show ?case by (cases i) (auto simp: attempts_log_def)
qed simp

lemma alerts_from_log_length [simp]: "length (alerts_from_log log run) = length run"
  by (induction log run rule: alerts_from_log.induct) auto

text \<open>The engine in step with the log.\<close>

definition engine_tracks :: "time_t \<Rightarrow> (ssh_key \<times> time_t) list \<Rightarrow> rules_engine \<Rightarrow> bool" where
  "engine_tracks now log e \<longleftrightarrow>
     tracks attempt_key sa_seen_at SSH_ALERT_DEDUP_SECONDS now log (ssh_attempts e) \<and>
     ordered_log log \<and> (\<forall>(k, t) \<in> set log. 0 \<le> t \<and> t \<le> now)"

lemma engine_tracks_recent:
  assumes "engine_tracks before log e" "before \<le> now" "now < 2 ^ 32"
  shows "recent_clock now log"
  using assms by (fastforce simp: engine_tracks_def recent_clock_def)

lemma escalate_tracks:
  assumes "double_to_unsigned cvt" "engine_tracks before log e"
    and "before \<le> now" "0 \<le> now" "now < 2 ^ 32"
  obtains e' where
    "ssh_alert_should_escalate cvt True now (Some e) (Some p) =
      (packet_key p \<notin> window_keys SSH_ALERT_DEDUP_SECONDS now log, Some e')"
    "engine_tracks now ((packet_key p, now) # log) e'"
proof -
  let ?es = "unlink_old_attempts cvt now (ssh_attempts e)"
  let ?e' = "e\<lparr>ssh_attempts := snd (track_attempt True p now ?es)\<rparr>"
  have t: "tracks attempt_key sa_seen_at SSH_ALERT_DEDUP_SECONDS before log (ssh_attempts e)"
    and o: "ordered_log log" and b: "\<forall>(k, t) \<in> set log. 0 \<le> t \<and> t \<le> before"
    using assms(2) by (auto simp: engine_tracks_def)
  have r: "recent_clock now log" using assms(2,3,5) by (rule engine_tracks_recent)
  note step = timed_table.touch_step [OF ssh_timed_table [OF assms(1)] t assms(3) r o, of p]
  have "ssh_alert_should_escalate cvt True now (Some e) (Some p) =
      (packet_key p \<notin> window_keys SSH_ALERT_DEDUP_SECONDS now log, Some ?e')"
    using assms(4) by (subst escalate_step) (simp_all add: step(1))
  moreover have "engine_tracks now ((packet_key p, now) # log) ?e'"
    using step(2,3) b assms(3,4) unfolding engine_tracks_def by fastforce
  ultimately show thesis by (rule that)
qed

lemma engine_tracks_later:
  "engine_tracks before log e \<Longrightarrow> before \<le> now \<Longrightarrow> engine_tracks now log e"
  unfolding engine_tracks_def by (auto intro: tracks_later)

lemma evaluate_run_alerts:
  assumes "double_to_unsigned cvt" "clock_ok before run" "engine_tracks before log e"
  shows "map raises_alert (fst (evaluate_run cvt run (Some e) (Some ev))) = alerts_from_log log run"
  using assms(2,3)
proof (induction run arbitrary: before log e ev)
  case Nil
  then show ?case by simp
next
  case (Cons x run)
  obtain now p where x: "x = (now, p)" by fastforce
  with Cons.prems have c: "before \<le> now" "0 \<le> now" "now < 2 ^ 32" "clock_ok now run"
    by simp_all
  show ?case
  proof (cases "is_ssh_attempt p")
    case True
    obtain e' where e': "ssh_alert_should_escalate cvt True now (Some e) (Some p) =
        (packet_key p \<notin> window_keys SSH_ALERT_DEDUP_SECONDS now log, Some e')"
      "engine_tracks now ((packet_key p, now) # log) e'"
      using escalate_tracks [OF assms(1) Cons.prems(2) c(1-3)] by blast
    show ?thesis
      using True Cons.IH [OF c(4) e'(2)]
      by (simp add: x evaluate_attempt_step e'(1) split_beta raises_alert_def)
  next
    case False
    obtain ok ev' where eqn: "rules_evaluate_packet (Some p) (Some ev) = (ok, Some ev')"
      using rules_evaluate_writes [of p ev] by blast
    with False have "\<not> raises_alert (ok, Some ev')"
      using evaluate_alert_iff [of p ev] by simp
    then show ?thesis
      using False Cons.IH [OF c(4) engine_tracks_later [OF Cons.prems(2) c(1)]]
      by (simp add: x evaluate_other_step eqn split_beta)
  qed
qed

text \<open>The engine that is left after a run, against the log of the run.\<close>

lemma evaluate_run_tracks:
  assumes "double_to_unsigned cvt" "clock_ok before run" "engine_tracks before log e"
  shows "\<exists>e' later. snd (evaluate_run cvt run (Some e) (Some ev)) = Some e' \<and>
    before \<le> later \<and> (\<forall>(t, _) \<in> set run. t \<le> later) \<and>
    (later = before \<or> later \<in> fst ` set run) \<and>
    engine_tracks later (attempts_log run @ log) e'"
  using assms(2,3)
proof (induction run arbitrary: before log e ev)
  case Nil
  then show ?case by (auto simp: attempts_log_def)
next
  case (Cons x run)
  obtain now p where x: "x = (now, p)" by fastforce
  with Cons.prems have c: "before \<le> now" "0 \<le> now" "now < 2 ^ 32" "clock_ok now run"
    by simp_all
  obtain e' ev' where step:
    "snd (evaluate_run cvt (x # run) (Some e) (Some ev)) = snd (evaluate_run cvt run (Some e') (Some ev'))"
    "engine_tracks now (if is_ssh_attempt p then (packet_key p, now) # log else log) e'"
  proof (cases "is_ssh_attempt p")
    case True
    obtain e' where "ssh_alert_should_escalate cvt True now (Some e) (Some p) =
        (packet_key p \<notin> window_keys SSH_ALERT_DEDUP_SECONDS now log, Some e')"
      "engine_tracks now ((packet_key p, now) # log) e'"
      using escalate_tracks [OF assms(1) Cons.prems(2) c(1-3)] by blast
    with True show ?thesis
      by (intro that [of e']) (simp_all add: x evaluate_attempt_step split_beta)
  next
    case False
    obtain ok ev' where "rules_evaluate_packet (Some p) (Some ev) = (ok, Some ev')"
      using rules_evaluate_writes [of p ev] by blast
    with False engine_tracks_later [OF Cons.prems(2) c(1)] show ?thesis
      by (intro that [of e ev']) (simp_all add: x evaluate_other_step split_beta)
  qed
  from Cons.IH [OF c(4) step(2), of ev'] show ?case
    unfolding step(1) using c(1)
    by (elim exE conjE) (intro exI conjI, assumption, auto simp: x attempts_log_def split: if_splits)
qed

lemma evaluate_run_snoc:
  "snd (evaluate_run cvt (run @ [x]) engine event) =
   (case evaluate_run cvt run engine event of (outs, engine') \<Rightarrow>
      snd (evaluate_run cvt [x] engine' (if outs = [] then event else snd (last outs))))"
  by (induction run arbitrary: engine event) (auto simp: split_beta split: prod.splits)

lemma evaluate_packet_writes:
  "\<exists>ok engine' ev'. rules_engine_evaluate_packet cvt alloc_ok now engine (Some p) (Some ev) =
     (ok, engine', Some ev')"
proof (cases "is_ssh_attempt p")
  case True
  then show ?thesis by (auto simp: evaluate_attempt_step split_beta)
next
  case False
  with rules_evaluate_writes [of p ev] show ?thesis by (auto simp: evaluate_other_step)
qed

lemma evaluate_run_writes:
  "outcome \<in> set (fst (evaluate_run cvt run engine (Some ev))) \<Longrightarrow> \<exists>ok ev'. outcome = (ok, Some ev')"
proof (induction run arbitrary: engine ev)
  case (Cons x run)
  obtain now p where x: "x = (now, p)" by fastforce
  obtain ok engine' ev' where
    "rules_engine_evaluate_packet cvt True now engine (Some p) (Some ev) = (ok, engine', Some ev')"
    using evaluate_packet_writes [of cvt True now engine p ev] by blast
  with Cons show ?case by (auto simp: x split_beta)
qed simp

text \<open>After an attempt the table holds exactly the keys of the last five seconds.\<close>

lemma engine_exact:
  assumes "double_to_unsigned cvt" "engine_tracks before log e"
    and "before \<le> now" "0 \<le> now" "now < 2 ^ 32"
    and "ssh_alert_should_escalate cvt True now (Some e) (Some p) = (esc, Some e')"
  shows "distinct (map attempt_key (ssh_attempts e')) \<and>
    attempt_key ` set (ssh_attempts e') =
      window_keys SSH_ALERT_DEDUP_SECONDS now ((packet_key p, now) # log)"
proof -
  let ?es = "unlink_old_attempts cvt now (ssh_attempts e)"
  have t: "tracks attempt_key sa_seen_at SSH_ALERT_DEDUP_SECONDS before log (ssh_attempts e)"
    and o: "ordered_log log"
    using assms(2) by (auto simp: engine_tracks_def)
  have r: "recent_clock now log" using assms(2,3,5) by (rule engine_tracks_recent)
  have "ssh_attempts e' = snd (track_attempt True p now ?es)"
    using assms(4,6) by (simp add: escalate_step) auto
  then show ?thesis
    using timed_table.touch_exact [OF ssh_timed_table [OF assms(1)] t assms(3) r o, of p] by simp
qed

lemma engine_tracks_create: "engine_tracks 0 [] \<lparr>ssh_attempts = []\<rparr>"
  by (auto simp: engine_tracks_def ordered_log_def intro: tracks_empty)

lemma window_keys_attempts:
  "packet_key p \<in> window_keys w now (attempts_log (take i run)) \<longleftrightarrow>
   (\<exists>j < min i (length run). is_ssh_attempt (snd (run ! j)) \<and>
      packet_key (snd (run ! j)) = packet_key p \<and> now - fst (run ! j) \<le> uint w)"
proof -
  have "packet_key p \<in> window_keys w now (attempts_log (take i run)) \<longleftrightarrow>
      (\<exists>x \<in> set (take i run). is_ssh_attempt (snd x) \<and> packet_key (snd x) = packet_key p \<and>
        now - fst x \<le> uint w)"
    by (force simp: window_keys_def attempts_log_def split_beta)
  then show ?thesis by (simp only: bex_take)
qed

section \<open>Properties\<close>

text \<open>
  C3: one alert per SSH connection attempt. Over any run of packets on a clock that does not step
  back, packet \<open>i\<close> raises an alert exactly when it is an initial SYN to port 22 and no earlier SYN
  with the same addresses, ports and sequence number was seen in the preceding five seconds; a
  repeated SYN extends the quiet period. The allocations of the run succeed.
\<close>

theorem ssh_alert_once_per_window:
  assumes "double_to_unsigned cvt" and "clock_ok 0 run" and "i < length run"
  shows "raises_alert (fst (evaluate_run cvt run (rules_engine_create True) (Some ev)) ! i) \<longleftrightarrow>
    is_ssh_attempt (snd (run ! i)) \<and>
    (\<forall>j < i. is_ssh_attempt (snd (run ! j)) \<and>
       packet_key (snd (run ! j)) = packet_key (snd (run ! i)) \<longrightarrow>
       fst (run ! i) - fst (run ! j) > 5)"
proof -
  let ?outs = "fst (evaluate_run cvt run (rules_engine_create True) (Some ev))"
  have alerts: "map raises_alert ?outs = alerts_from_log [] run"
    using evaluate_run_alerts [OF assms(1,2) engine_tracks_create]
    by (simp add: rules_engine_create_def)
  then have "length ?outs = length run"
    by (metis alerts_from_log_length length_map)
  with assms(3) alerts have "raises_alert (?outs ! i) = alerts_from_log [] run ! i"
    by (metis nth_map)
  with assms(3) show ?thesis
    by (auto simp: alerts_from_log_nth window_keys_attempts not_le)
qed


definition ssh_syn_example :: packet_info where
  "ssh_syn_example = packet_info_zero
     \<lparr>has_ethernet := True, ether_type := 0x0800, has_ipv4 := True, ipv4_version := 4,
       ipv4_ihl := 20, ipv4_total_length := 40, ip_protocol := 6, src_ipv4 := 0x0a000001,
       dst_ipv4 := 0x0a000002, ipv4_l4_header_available := True, has_ports := True,
       src_port := 40000, dst_port := 22, has_tcp := True, tcp_sequence := 7,
       tcp_header_length := 20, tcp_flags := TH_SYN, service_hint := SERVICE_HINT_SSH\<rparr>"

lemma ssh_syn_example_simps [simp]:
  "is_ssh_attempt ssh_syn_example" "is_ssh_initial_syn ssh_syn_example" "has_tcp ssh_syn_example"
  by (simp_all add: ssh_syn_example_def is_ssh_attempt_def is_ssh_initial_syn_def)

theorem ssh_alert_once_per_window_witness:
  "raises_alert (fst (evaluate_run cvt_saturating
     [(1000, ssh_syn_example), (1005, ssh_syn_example), (1010, ssh_syn_example), (1016, ssh_syn_example)]
     (rules_engine_create True) (Some event_zero)) ! 3)"
  by (subst ssh_alert_once_per_window)
    (simp_all add: aarch64.double_to_unsigned_axioms clock_ok_def numeral_eq_Suc All_less_Suc)

text \<open>
  C27: the table of attempts is exact and bounded. Right after an SSH attempt has been evaluated the
  engine holds one entry for each distinct connection attempt of the last five seconds and no
  other, whatever ran before on a clock that does not step back and with allocations that succeed.
\<close>

theorem ssh_table_exact:
  assumes "double_to_unsigned cvt" and "clock_ok 0 (run @ [(now, p)])" and "is_ssh_attempt p"
  shows "\<exists>e. snd (evaluate_run cvt (run @ [(now, p)]) (rules_engine_create True) (Some ev)) = Some e \<and>
    distinct (map attempt_key (ssh_attempts e)) \<and>
    attempt_key ` set (ssh_attempts e) =
      window_keys SSH_ALERT_DEDUP_SECONDS now (attempts_log (run @ [(now, p)]))"
proof -
  have c: "clock_ok 0 run" "0 \<le> now" "now < 2 ^ 32" "\<forall>t \<in> fst ` set run. t \<le> now"
    using assms(2) by (auto simp: clock_ok_def sorted_append)
  let ?r = "evaluate_run cvt run (rules_engine_create True) (Some ev)"
  obtain e later where e: "snd ?r = Some e" "later \<le> now"
    "engine_tracks later (attempts_log run) e"
    using evaluate_run_tracks [OF assms(1) c(1) engine_tracks_create, of ev] c(2,4)
    by (auto simp: rules_engine_create_def)
  obtain ev' where ev': "(if fst ?r = [] then Some ev else snd (last (fst ?r))) = Some ev'"
    using evaluate_run_writes [of "last (fst ?r)" cvt run "rules_engine_create True" ev]
    by (cases "fst ?r = []") auto
  obtain e' where e': "ssh_alert_should_escalate cvt True now (Some e) (Some p) =
      (packet_key p \<notin> window_keys SSH_ALERT_DEDUP_SECONDS now (attempts_log run), Some e')"
    using escalate_tracks [OF assms(1) e(3,2) c(2,3)] by blast
  have "snd (evaluate_run cvt (run @ [(now, p)]) (rules_engine_create True) (Some ev)) = Some e'"
    using assms(3) by (simp add: evaluate_run_snoc split_beta e(1) ev' evaluate_attempt_step e')
  moreover note engine_exact [OF assms(1) e(3,2) c(2,3) e']
  ultimately show ?thesis using assms(3) by (simp add: attempts_log_def)
qed

theorem ssh_table_exact_witness:
  "\<exists>e. snd (evaluate_run cvt_wrapping [(1000, ssh_syn_example), (1003, ssh_syn_example)]
       (rules_engine_create True) (Some event_zero)) = Some e \<and>
     attempt_key ` set (ssh_attempts e) = {packet_key ssh_syn_example}"
proof -
  have "window_keys SSH_ALERT_DEDUP_SECONDS 1003
      (attempts_log ([(1000, ssh_syn_example)] @ [(1003, ssh_syn_example)])) =
    {packet_key ssh_syn_example}"
    by (auto simp: window_keys_def attempts_log_def)
  with ssh_table_exact [of cvt_wrapping "[(1000, ssh_syn_example)]" 1003 ssh_syn_example event_zero]
  show ?thesis by (auto simp: x86_64.double_to_unsigned_axioms clock_ok_def)
qed

text \<open>
  C26: deduplication only ever lowers the severity. For every engine state, clock reading and outcome
  of the allocation, the engine raises an event exactly when the stateless rules do, with the same
  kind, packet and print and log flags and at most their severity. Without an engine, without a
  clock, or for anything but an SSH attempt it is the event of the stateless rules.
\<close>

theorem rules_engine_only_downgrades:
  "\<exists>raised ev1 engine' ev2.
     rules_evaluate_packet (Some p) (Some ev) = (raised, Some ev1) \<and>
     rules_engine_evaluate_packet cvt alloc_ok now engine (Some p) (Some ev) =
       (raised, engine', Some ev2) \<and>
     ev_kind ev2 = ev_kind ev1 \<and> ev_packet ev2 = ev_packet ev1 \<and>
     ev_should_print ev2 = ev_should_print ev1 \<and> ev_should_log ev2 = ev_should_log ev1 \<and>
     ev_severity ev2 \<le> ev_severity ev1 \<and>
     (is_ssh_attempt p \<and> engine \<noteq> None \<and> now \<noteq> time_error \<or> ev2 = ev1 \<and> engine' = engine)"
proof (cases "is_ssh_attempt p")
  case False
  with rules_evaluate_writes [of p ev] show ?thesis
    by (auto simp: evaluate_other_step)
next
  case True
  obtain esc engine' where esc:
    "ssh_alert_should_escalate cvt alloc_ok now engine (Some p) = (esc, engine')" by fastforce
  moreover have "(\<exists>e. engine = Some e) \<and> now \<noteq> time_error \<or> esc \<and> engine' = engine"
    using esc by (auto simp: ssh_alert_should_escalate_def split: option.splits)
  ultimately show ?thesis
    using True by (auto simp: evaluate_attempt_step evaluate_ssh_attempt)
qed

text \<open>
  C20: classification follows the layers. For every packet the parser can produce, the rules raise an
  event exactly for a complete packet with an ARP, IPv6 or IPv4 layer; the kind names the innermost
  layer found, an alert (with the long LED pattern) marks exactly the initial SYNs to port 22, and
  an echo request is the only event with the short LED pattern.
\<close>

theorem rules_classify_layers:
  assumes "wf_packet p"
  shows "\<exists>raised e. rules_evaluate_packet (Some p) (Some ev) = (raised, Some e) \<and>
    raised = (\<not> malformed p \<and> \<not> truncated p \<and> (has_arp p \<or> is_ipv6_observed p \<or> has_ipv4 p)) \<and>
    (if raised
     then ev_packet e = p \<and> ev_should_print e \<and> ev_should_log e \<and>
       (ev_kind e = EVENT_KIND_ARP) = has_arp p \<and>
       (ev_kind e = EVENT_KIND_IPV6_OBSERVED) = is_ipv6_observed p \<and>
       (ev_kind e = EVENT_KIND_ICMP) = has_icmp p \<and>
       (ev_kind e = EVENT_KIND_TCP) = has_tcp p \<and>
       (ev_kind e = EVENT_KIND_UDP) = has_udp p \<and>
       (ev_kind e = EVENT_KIND_IPV4_PROTOCOL) =
         (has_ipv4 p \<and> \<not> has_icmp p \<and> \<not> has_tcp p \<and> \<not> has_udp p) \<and>
       (ev_severity e = EVENT_SEVERITY_ALERT) = (has_tcp p \<and> is_ssh_initial_syn p) \<and>
       ev_led_action e =
         (if has_tcp p \<and> is_ssh_initial_syn p then LED_ACTION_LONG
          else if has_icmp p \<and> icmp_type p = ICMP_ECHO then LED_ACTION_SHORT
          else LED_ACTION_NONE)
     else e = event_zero)"
proof -
  obtain raised e' where eqn: "rules_evaluate_packet (Some p) (Some ev) = (raised, e')" by fastforce
  from eqn show ?thesis
  proof (cases rule: rules_evaluate_cases)
    case refused
    then show ?thesis using assms eqn by (auto simp: wf_packet_defs)
  next
    case (raised kind severity led)
    then show ?thesis
      using wf_layers [OF assms] by (auto simp: eqn)
  qed
qed

theorem rules_classify_layers_witness:
  "\<exists>e. rules_evaluate_packet (Some ssh_syn_example) (Some event_zero) = (True, Some e) \<and>
     ev_kind e = EVENT_KIND_TCP \<and> ev_severity e = EVENT_SEVERITY_ALERT"
proof -
  have "wf_packet ssh_syn_example"
    by (simp add: wf_packet_defs ssh_syn_example_def detect_service_hint_def)
  moreover have "\<not> malformed ssh_syn_example" "\<not> truncated ssh_syn_example" "has_ipv4 ssh_syn_example"
    by (simp_all add: ssh_syn_example_def)
  ultimately show ?thesis
    using rules_classify_layers [of ssh_syn_example event_zero] by auto
qed

end
