(* ===== verification/Scan_Detector.thy ===== *)
theory Scan_Detector
  imports Timed_Table Packet_Info
begin

text \<open>
  The port-scan detector of \<open>src/scan_detector.c\<close>: per source the destination ports of its recent
  initial SYNs, the alert with its cooldown, and the snapshot the display thread works on. The
  linked lists are lists in list order; a pointer to a source is its index. The flags
  \<open>alloc_source\<close>, \<open>alloc_port\<close> and \<open>alloc_ok\<close> stand for the outcomes of \<open>calloc\<close> and \<open>malloc\<close>.
\<close>

section \<open>State\<close>

record port_entry =
  pe_port :: u16
  pe_seen_at :: time_t

record source_entry =
  se_src_ipv4 :: u32
  se_last_seen_at :: time_t
  se_last_alert_at :: time_t
  se_ports :: "port_entry list"

record scan_detector =
  sd_window_seconds :: u32
  sd_threshold :: u64
  sd_sources :: "source_entry list"
  sd_revision :: u64

record scan_alert =
  al_src_ipv4 :: u32
  al_unique_ports :: u64
  al_window_seconds :: u32

record snapshot_port =
  sp_src_ipv4 :: u32
  sp_seen_at :: time_t

record scan_snapshot =
  sn_window_seconds :: u32
  sn_port_count :: u64
  sn_ports :: "snapshot_port list"

section \<open>Ports and sources\<close>

definition outside_window :: "(int \<Rightarrow> u32) \<Rightarrow> time_t \<Rightarrow> time_t \<Rightarrow> u32 \<Rightarrow> bool" where
  "outside_window cvt now seen_at window_seconds \<longleftrightarrow> difftime_u32 cvt now seen_at > window_seconds"

text \<open>
  The unlinking loop of \<open>prune_ports\<close>. Its callers pass a valid source, so the guard against
  \<open>NULL\<close> has no counterpart.
\<close>

fun unlink_old_ports :: "(int \<Rightarrow> u32) \<Rightarrow> time_t \<Rightarrow> u32 \<Rightarrow> port_entry list \<Rightarrow> port_entry list" where
  "unlink_old_ports cvt now window_seconds [] = []"
| "unlink_old_ports cvt now window_seconds (current # rest) =
     (if outside_window cvt now (pe_seen_at current) window_seconds
      then unlink_old_ports cvt now window_seconds rest
      else current # unlink_old_ports cvt now window_seconds rest)"

definition prune_ports :: "(int \<Rightarrow> u32) \<Rightarrow> source_entry \<Rightarrow> time_t \<Rightarrow> u32 \<Rightarrow> source_entry" where
  "prune_ports cvt source now window_seconds =
     source\<lparr>se_ports := unlink_old_ports cvt now window_seconds (se_ports source)\<rparr>"

fun count_ports_from :: "u64 \<Rightarrow> port_entry list \<Rightarrow> u64" where
  "count_ports_from count [] = count"
| "count_ports_from count (_ # ports) = count_ports_from (count + 1) ports"

definition count_ports :: "port_entry list \<Rightarrow> u64" where
  "count_ports ports = count_ports_from 0 ports"

fun find_source :: "u32 \<Rightarrow> source_entry list \<Rightarrow> nat option" where
  "find_source src [] = None"
| "find_source src (source # rest) =
     (if se_src_ipv4 source = src then Some 0 else map_option Suc (find_source src rest))"

definition new_source :: "u32 \<Rightarrow> source_entry" where
  "new_source src =
     \<lparr>se_src_ipv4 = src, se_last_seen_at = 0, se_last_alert_at = 0, se_ports = []\<rparr>"

definition find_or_create_source ::
  "bool \<Rightarrow> scan_detector \<Rightarrow> u32 \<Rightarrow> scan_detector \<times> nat option" where
  "find_or_create_source alloc_source detector src =
     (case find_source src (sd_sources detector) of
        Some i \<Rightarrow> (detector, Some i)
      | None \<Rightarrow>
          if \<not> alloc_source then (detector, None)
          else (detector\<lparr>sd_sources := new_source src # sd_sources detector\<rparr>, Some 0))"

fun refresh_port :: "u16 \<Rightarrow> time_t \<Rightarrow> port_entry list \<Rightarrow> port_entry list option" where
  "refresh_port port now [] = None"
| "refresh_port port now (current # rest) =
     (if pe_port current = port then Some (current\<lparr>pe_seen_at := now\<rparr> # rest)
      else map_option ((#) current) (refresh_port port now rest))"

text \<open>\<open>upsert_port\<close> on the list of a source: the returned flag and the new list.\<close>

definition upsert_port_list ::
  "bool \<Rightarrow> u16 \<Rightarrow> time_t \<Rightarrow> port_entry list \<Rightarrow> bool \<times> port_entry list" where
  "upsert_port_list alloc_port port now ports =
     (case refresh_port port now ports of
        Some refreshed \<Rightarrow> (True, refreshed)
      | None \<Rightarrow>
          if \<not> alloc_port then (False, ports)
          else (True, \<lparr>pe_port = port, pe_seen_at = now\<rparr> # ports))"

definition upsert_port :: "bool \<Rightarrow> source_entry \<Rightarrow> u16 \<Rightarrow> time_t \<Rightarrow> bool \<times> source_entry" where
  "upsert_port alloc_port source port now =
     (let (ok, ports) = upsert_port_list alloc_port port now (se_ports source)
      in (ok, source\<lparr>se_ports := ports\<rparr>))"

text \<open>The loop of \<open>prune_sources\<close>, with the window of the detector.\<close>

fun unlink_idle_sources ::
  "(int \<Rightarrow> u32) \<Rightarrow> time_t \<Rightarrow> u32 \<Rightarrow> source_entry list \<Rightarrow> source_entry list" where
  "unlink_idle_sources cvt now w [] = []"
| "unlink_idle_sources cvt now w (current # rest) =
     (let current = prune_ports cvt current now w
      in if se_ports current = [] \<and>
            difftime_u32 cvt now (se_last_seen_at current) > w \<and>
            difftime_u32 cvt now (se_last_alert_at current) > w
         then unlink_idle_sources cvt now w rest
         else current # unlink_idle_sources cvt now w rest)"

definition prune_sources :: "(int \<Rightarrow> u32) \<Rightarrow> scan_detector \<Rightarrow> time_t \<Rightarrow> scan_detector" where
  "prune_sources cvt detector now =
     detector\<lparr>sd_sources :=
       unlink_idle_sources cvt now (sd_window_seconds detector) (sd_sources detector)\<rparr>"

section \<open>The detector\<close>

definition scan_detector_create :: "bool \<Rightarrow> u32 \<Rightarrow> u64 \<Rightarrow> scan_detector option" where
  "scan_detector_create alloc_ok window_seconds threshold =
     (if \<not> alloc_ok then None
      else Some \<lparr>sd_window_seconds = (if window_seconds = 0 then 10 else window_seconds),
                 sd_threshold = (if threshold = 0 then 20 else threshold),
                 sd_sources = [], sd_revision = 0\<rparr>)"

text \<open>
  The part of \<open>scan_detector_observe_at\<close> that works on one source: the count to alert with, if
  any, and the updated source.
\<close>

definition observe_source ::
  "(int \<Rightarrow> u32) \<Rightarrow> bool \<Rightarrow> u32 \<Rightarrow> u64 \<Rightarrow> packet_info \<Rightarrow> time_t \<Rightarrow> source_entry \<Rightarrow>
   u64 option \<times> source_entry" where
  "observe_source cvt alloc_port w threshold packet now source =
     (let source = source\<lparr>se_last_seen_at := now\<rparr>;
          source = prune_ports cvt source now w;
          (ok, source) = upsert_port alloc_port source (dst_port packet) now
      in if \<not> ok then (None, source)
         else let unique_ports = count_ports (se_ports source)
              in if unique_ports < threshold then (None, source)
                 else if difftime_u32 cvt now (se_last_alert_at source) \<le> w then (None, source)
                 else (Some unique_ports, source\<lparr>se_last_alert_at := now\<rparr>))"

definition scan_detector_observe_at ::
  "(int \<Rightarrow> u32) \<Rightarrow> bool \<Rightarrow> bool \<Rightarrow> scan_detector option \<Rightarrow> packet_info option \<Rightarrow>
   scan_alert option \<Rightarrow> time_t \<Rightarrow> bool \<times> scan_detector option \<times> scan_alert option" where
  "scan_detector_observe_at cvt alloc_source alloc_port detector packet alert now =
     (case (detector, packet, alert) of
        (Some d, Some p, Some a) \<Rightarrow>
          if \<not> has_ipv4 p \<or> \<not> has_tcp p \<or> \<not> has_ports p then (False, detector, alert)
          else if tcp_flags p AND TH_SYN = 0 \<or> tcp_flags p AND TH_ACK \<noteq> 0
            then (False, detector, alert)
          else if now = time_error then (False, detector, alert)
          else (let d = d\<lparr>sd_revision := sd_revision d + 1\<rparr>;
                    d = prune_sources cvt d now
                in case find_or_create_source alloc_source d (src_ipv4 p) of
                     (d, None) \<Rightarrow> (False, Some d, alert)
                   | (d, Some i) \<Rightarrow>
                       (case observe_source cvt alloc_port (sd_window_seconds d) (sd_threshold d) p now
                               (sd_sources d ! i) of
                          (outcome, source) \<Rightarrow>
                            let d = d\<lparr>sd_sources := (sd_sources d)[i := source]\<rparr>
                            in case outcome of
                                 None \<Rightarrow> (False, Some d, alert)
                               | Some unique_ports \<Rightarrow>
                                   (True, Some d,
                                    Some \<lparr>al_src_ipv4 = src_ipv4 p, al_unique_ports = unique_ports,
                                           al_window_seconds = sd_window_seconds d\<rparr>)))
      | _ \<Rightarrow> (False, detector, alert))"

text \<open>The entry point of the capture thread: \<open>now\<close> is what \<open>time(NULL)\<close> returns if it is called.\<close>

definition scan_detector_observe ::
  "(int \<Rightarrow> u32) \<Rightarrow> bool \<Rightarrow> bool \<Rightarrow> time_t \<Rightarrow> scan_detector option \<Rightarrow> packet_info option \<Rightarrow>
   scan_alert option \<Rightarrow> bool \<times> scan_detector option \<times> scan_alert option" where
  "scan_detector_observe cvt alloc_source alloc_port now detector packet alert =
     (if detector = None then (False, detector, alert)
      else case packet of
        None \<Rightarrow> (False, detector, alert)
      | Some p \<Rightarrow>
          if alert = None \<or> \<not> has_ipv4 p \<or> \<not> has_tcp p \<or> \<not> has_ports p \<or>
             tcp_flags p AND TH_SYN = 0 \<or> tcp_flags p AND TH_ACK \<noteq> 0
          then (False, detector, alert)
          else scan_detector_observe_at cvt alloc_source alloc_port detector packet alert now)"

definition scan_detector_revision :: "scan_detector option \<Rightarrow> u64" where
  "scan_detector_revision detector = (case detector of None \<Rightarrow> 0 | Some d \<Rightarrow> sd_revision d)"

text \<open>\<open>sizeof(ScanSnapshot)\<close> and \<open>sizeof(SnapshotPort)\<close> are 16 bytes each on the LP64 targets.\<close>

definition snapshot_capacity :: nat where
  "snapshot_capacity = (2 ^ 64 - 1 - 16) div 16"

definition snapshot_ports_of :: "source_entry \<Rightarrow> snapshot_port list" where
  "snapshot_ports_of source =
     map (\<lambda>port. \<lparr>sp_src_ipv4 = se_src_ipv4 source, sp_seen_at = pe_seen_at port\<rparr>) (se_ports source)"

definition scan_detector_snapshot :: "bool \<Rightarrow> scan_detector option \<Rightarrow> scan_snapshot option" where
  "scan_detector_snapshot alloc_ok detector =
     (case detector of
        None \<Rightarrow> None
      | Some d \<Rightarrow>
          let ports = concat (map snapshot_ports_of (sd_sources d));
              count = length ports
          in if count > snapshot_capacity then None
             else if \<not> alloc_ok then None
             else Some \<lparr>sn_window_seconds = sd_window_seconds d, sn_port_count = of_nat count,
                        sn_ports = ports\<rparr>)"

text \<open>The loop of \<open>scan_snapshot_max_ports\<close>; \<open>previous\<close> is \<open>None\<close> at index 0.\<close>

fun max_ports_loop ::
  "(int \<Rightarrow> u32) \<Rightarrow> time_t \<Rightarrow> u32 \<Rightarrow> u32 option \<Rightarrow> u64 \<Rightarrow> u64 \<Rightarrow> snapshot_port list \<Rightarrow> u64" where
  "max_ports_loop cvt now w previous count maximum [] = maximum"
| "max_ports_loop cvt now w previous count maximum (port # ports) =
     (let count = (if previous \<noteq> Some (sp_src_ipv4 port) then 0 else count)
      in if \<not> outside_window cvt now (sp_seen_at port) w
         then max_ports_loop cvt now w (Some (sp_src_ipv4 port)) (count + 1)
                (if count + 1 > maximum then count + 1 else maximum) ports
         else max_ports_loop cvt now w (Some (sp_src_ipv4 port)) count maximum ports)"

definition scan_snapshot_max_ports ::
  "(int \<Rightarrow> u32) \<Rightarrow> scan_snapshot option \<Rightarrow> time_t \<Rightarrow> u64" where
  "scan_snapshot_max_ports cvt snapshot now =
     (case snapshot of
        None \<Rightarrow> 0
      | Some s \<Rightarrow>
          if now = time_error then 0
          else max_ports_loop cvt now (sn_window_seconds s) None 0 0
                 (take (unat (sn_port_count s)) (sn_ports s)))"

text \<open>The blocks the destructors pass to \<open>free\<close>, in order.\<close>

datatype scan_block = PortEntry port_entry | SourceEntry u32 | ScanDetector | ScanSnapshot

definition free_ports :: "port_entry list \<Rightarrow> scan_block list" where
  "free_ports ports = map PortEntry ports"

definition scan_snapshot_destroy :: "scan_snapshot option \<Rightarrow> scan_block list" where
  "scan_snapshot_destroy snapshot = (case snapshot of None \<Rightarrow> [] | Some _ \<Rightarrow> [ScanSnapshot])"

definition scan_detector_destroy :: "scan_detector option \<Rightarrow> scan_block list" where
  "scan_detector_destroy detector =
     (case detector of
        None \<Rightarrow> []
      | Some d \<Rightarrow>
          concat (map (\<lambda>s. free_ports (se_ports s) @ [SourceEntry (se_src_ipv4 s)]) (sd_sources d)) @
          [ScanDetector])"

end
