(* ===== verification/Scan_Properties.thy ===== *)
theory Scan_Properties
  imports Scan_Detector
begin

text \<open>
  What the scan detector promises. The ports of a source are a timed table; the list of sources
  is a total function from addresses to entries, an absent source being a fresh one. Against
  these the detector refines a specification that keeps every probe for ever.
\<close>

section \<open>The ports of a source as a timed table\<close>

lemma unlink_old_ports_filter:
  "unlink_old_ports cvt now w ports = filter (\<lambda>e. \<not> difftime_u32 cvt now (pe_seen_at e) > w) ports"
  by (induction ports) (auto simp: outside_window_def)

lemma count_ports_from_length: "count_ports_from n ports = n + of_nat (length ports)"
  by (induction n ports rule: count_ports_from.induct) simp_all

lemma count_ports_length: "count_ports ports = of_nat (length ports)"
  by (simp add: count_ports_def count_ports_from_length)

lemma refresh_port_None: "refresh_port port now ports = None \<longleftrightarrow> port \<notin> pe_port ` set ports"
  by (induction ports) auto

lemma refresh_port_Some:
  "refresh_port port now ports = Some ports' \<Longrightarrow>
   map pe_port ports' = map pe_port ports \<and>
   stamps pe_port pe_seen_at ports' = (stamps pe_port pe_seen_at ports)(port \<mapsto> now)"
  by (induction ports arbitrary: ports') (auto simp: fun_upd_twist split: if_splits)

lemma upsert_port_list_cases:
  obtains (refreshed) ports' where "port \<in> pe_port ` set ports"
    "map pe_port ports' = map pe_port ports"
    "stamps pe_port pe_seen_at ports' = (stamps pe_port pe_seen_at ports)(port \<mapsto> now)"
    "upsert_port_list ok port now ports = (True, ports')"
  | (inserted) "port \<notin> pe_port ` set ports" "ok"
    "upsert_port_list ok port now ports = (True, \<lparr>pe_port = port, pe_seen_at = now\<rparr> # ports)"
  | (refused) "port \<notin> pe_port ` set ports" "\<not> ok" "upsert_port_list ok port now ports = (False, ports)"
proof (cases "refresh_port port now ports")
  case None
  then have new: "port \<notin> pe_port ` set ports" by (simp add: refresh_port_None)
  show ?thesis
  proof (cases ok)
    case True
    with None show ?thesis by (intro inserted [OF new]) (simp_all add: upsert_port_list_def)
  next
    case False
    with None show ?thesis by (intro refused [OF new]) (simp_all add: upsert_port_list_def)
  qed
next
  case (Some ports')
  then have old: "port \<in> pe_port ` set ports"
    using refresh_port_None [of port now ports] by simp
  show ?thesis
    using refresh_port_Some [OF Some]
    by (intro refreshed [OF old]) (simp_all add: upsert_port_list_def Some)
qed

lemma ports_timed_table:
  assumes "double_to_unsigned cvt"
  shows "timed_table cvt pe_port pe_seen_at id w
    (\<lambda>now ports. unlink_old_ports cvt now w ports)
    (\<lambda>ok port now ports. snd (upsert_port_list ok port now ports))"
proof (rule timed_table.intro [OF assms], unfold_locales)
  fix ok port now and ports :: "port_entry list"
  show "unlink_old_ports cvt now w ports =
      filter (\<lambda>e. \<not> difftime_u32 cvt now (pe_seen_at e) > w) ports"
    by (rule unlink_old_ports_filter)
  show "distinct (map pe_port ports) \<Longrightarrow>
      distinct (map pe_port (snd (upsert_port_list ok port now ports)))"
    by (cases rule: upsert_port_list_cases [of port ports now ok]) auto
  show "ok \<or> id port \<in> pe_port ` set ports \<Longrightarrow>
      stamps pe_port pe_seen_at (snd (upsert_port_list ok port now ports)) =
      (stamps pe_port pe_seen_at ports)(id port \<mapsto> now)"
    by (cases rule: upsert_port_list_cases [of port ports now ok]) auto
  show "\<not> ok \<Longrightarrow> id port \<notin> pe_port ` set ports \<Longrightarrow>
      snd (upsert_port_list ok port now ports) = ports"
    by (cases rule: upsert_port_list_cases [of port ports now ok]) auto
qed

interpretation ports_aarch64: timed_table cvt_saturating pe_port pe_seen_at id w
    "\<lambda>now ports. unlink_old_ports cvt_saturating now w ports"
    "\<lambda>ok port now ports. snd (upsert_port_list ok port now ports)" for w
  by (rule ports_timed_table) (rule aarch64.double_to_unsigned_axioms)

interpretation ports_x86_64: timed_table cvt_wrapping pe_port pe_seen_at id w
    "\<lambda>now ports. unlink_old_ports cvt_wrapping now w ports"
    "\<lambda>ok port now ports. snd (upsert_port_list ok port now ports)" for w
  by (rule ports_timed_table) (rule x86_64.double_to_unsigned_axioms)

section \<open>The list of sources as a function\<close>

fun source_of :: "u32 \<Rightarrow> source_entry list \<Rightarrow> source_entry" where
  "source_of src [] = new_source src"
| "source_of src (s # sources) = (if se_src_ipv4 s = src then s else source_of src sources)"

lemma new_source_simps [simp]:
  "se_src_ipv4 (new_source src) = src" "se_ports (new_source src) = []"
  "se_last_alert_at (new_source src) = 0" "prune_ports cvt (new_source src) now w = new_source src"
  by (simp_all add: new_source_def prune_ports_def)

lemma prune_ports_simps [simp]:
  "se_src_ipv4 (prune_ports cvt s now w) = se_src_ipv4 s"
  "se_last_alert_at (prune_ports cvt s now w) = se_last_alert_at s"
  "se_last_seen_at (prune_ports cvt s now w) = se_last_seen_at s"
  "se_ports (prune_ports cvt s now w) = unlink_old_ports cvt now w (se_ports s)"
  by (simp_all add: prune_ports_def)

lemma source_of_src [simp]: "se_src_ipv4 (source_of src sources) = src"
  by (induction sources) auto

lemma source_of_absent: "src \<notin> se_src_ipv4 ` set sources \<Longrightarrow> source_of src sources = new_source src"
  by (induction sources) auto

lemma source_of_cases: "source_of src sources = new_source src \<or> source_of src sources \<in> set sources"
  by (induction sources) auto

lemma source_of_nth:
  "distinct (map se_src_ipv4 sources) \<Longrightarrow> i < length sources \<Longrightarrow>
   source_of (se_src_ipv4 (sources ! i)) sources = sources ! i"
proof (induction sources arbitrary: i)
  case (Cons s sources)
  then show ?case by (cases i) (auto simp: image_iff)
qed simp

lemma unlink_idle_srcs:
  "set (map se_src_ipv4 (unlink_idle_sources cvt now w sources)) \<subseteq> set (map se_src_ipv4 sources)"
  by (induction sources) (auto simp: Let_def)

lemma unlink_idle_distinct:
  "distinct (map se_src_ipv4 sources) \<Longrightarrow>
   distinct (map se_src_ipv4 (unlink_idle_sources cvt now w sources))"
proof (induction sources)
  case (Cons s sources)
  with unlink_idle_srcs [of cvt now w sources] show ?case by (auto simp: Let_def)
qed simp

lemma unlink_idle_source_of:
  assumes "distinct (map se_src_ipv4 sources)"
  shows "source_of src (unlink_idle_sources cvt now w sources) = prune_ports cvt (source_of src sources) now w \<or>
    source_of src (unlink_idle_sources cvt now w sources) = new_source src \<and>
    unlink_old_ports cvt now w (se_ports (source_of src sources)) = [] \<and>
    difftime_u32 cvt now (se_last_alert_at (source_of src sources)) > w"
  using assms
proof (induction sources)
  case (Cons s sources)
  show ?case
  proof (cases "se_src_ipv4 s = src")
    case True
    with Cons.prems have "src \<notin> se_src_ipv4 ` set (unlink_idle_sources cvt now w sources)"
      using unlink_idle_srcs [of cvt now w sources] by auto
    with True show ?thesis by (auto simp: Let_def source_of_absent)
  next
    case False
    with Cons show ?thesis by (auto simp: Let_def)
  qed
qed simp

lemma find_source_cases:
  obtains (absent) "find_source src sources = None" "src \<notin> se_src_ipv4 ` set sources"
  | (present) i where "find_source src sources = Some i" "i < length sources"
    "se_src_ipv4 (sources ! i) = src"
proof -
  have "(case find_source src sources of
      None \<Rightarrow> src \<notin> se_src_ipv4 ` set sources
    | Some i \<Rightarrow> i < length sources \<and> se_src_ipv4 (sources ! i) = src)"
    by (induction sources) (auto split: option.splits)
  then show ?thesis using absent present by (auto split: option.splits)
qed

lemma source_of_update:
  assumes "distinct (map se_src_ipv4 sources)" "i < length sources"
    "se_src_ipv4 s' = se_src_ipv4 (sources ! i)"
  shows "distinct (map se_src_ipv4 (sources[i := s']))"
    and "source_of src (sources[i := s']) = (if src = se_src_ipv4 s' then s' else source_of src sources)"
proof -
  have same: "map se_src_ipv4 (sources[i := s']) = map se_src_ipv4 sources"
    using assms(2,3) by (simp add: map_update list_update_same_conv)
  with assms(1) show d: "distinct (map se_src_ipv4 (sources[i := s']))" by simp
  show "source_of src (sources[i := s']) = (if src = se_src_ipv4 s' then s' else source_of src sources)"
    using assms
  proof (induction sources arbitrary: i)
    case (Cons s sources)
    then show ?case by (cases i) auto
  qed simp
qed

section \<open>Probes\<close>

definition is_scan_probe :: "packet_info \<Rightarrow> bool" where
  "is_scan_probe p \<longleftrightarrow>
     has_ipv4 p \<and> has_tcp p \<and> has_ports p \<and>
     tcp_flags p AND TH_SYN \<noteq> 0 \<and> tcp_flags p AND TH_ACK = 0"

lemma observe_ignores:
  "\<not> is_scan_probe p \<or> now = time_error \<Longrightarrow>
   scan_detector_observe_at cvt sok pok (Some d) (Some p) (Some a) now = (False, Some d, Some a)"
  by (auto simp: scan_detector_observe_at_def is_scan_probe_def)

lemma observe_null [simp]:
  "scan_detector_observe_at cvt sok pok (Some d) None alert now = (False, Some d, alert)"
  "scan_detector_observe_at cvt sok pok (Some d) packet None now = (False, Some d, None)"
  by (simp_all add: scan_detector_observe_at_def split: option.splits)

text \<open>The state of the detector once the source of a probe is at hand.\<close>

definition with_source ::
  "(int \<Rightarrow> u32) \<Rightarrow> bool \<Rightarrow> time_t \<Rightarrow> u32 \<Rightarrow> scan_detector \<Rightarrow> scan_detector \<times> nat option" where
  "with_source cvt sok now src d =
     find_or_create_source sok (prune_sources cvt (d\<lparr>sd_revision := sd_revision d + 1\<rparr>) now) src"

lemma observe_probe:
  assumes "is_scan_probe p" "now \<noteq> time_error"
  shows "scan_detector_observe_at cvt sok pok (Some d) (Some p) (Some a) now =
    (case with_source cvt sok now (src_ipv4 p) d of
       (d', None) \<Rightarrow> (False, Some d', Some a)
     | (d', Some i) \<Rightarrow>
         (case observe_source cvt pok (sd_window_seconds d') (sd_threshold d') p now (sd_sources d' ! i) of
            (outcome, s) \<Rightarrow>
              (outcome \<noteq> None, Some (d'\<lparr>sd_sources := (sd_sources d')[i := s]\<rparr>),
               (case outcome of None \<Rightarrow> Some a
                | Some n \<Rightarrow> Some \<lparr>al_src_ipv4 = src_ipv4 p, al_unique_ports = n,
                                  al_window_seconds = sd_window_seconds d'\<rparr>))))"
  using assms
  by (simp add: scan_detector_observe_at_def is_scan_probe_def with_source_def Let_def
      split: prod.splits option.splits)

lemma with_source_fields:
  "with_source cvt sok now src d = (d', r) \<Longrightarrow>
   sd_window_seconds d' = sd_window_seconds d \<and> sd_threshold d' = sd_threshold d \<and>
   sd_revision d' = sd_revision d + 1"
  by (auto simp: with_source_def find_or_create_source_def prune_sources_def
      split: option.splits if_splits)

lemma with_source_cases:
  assumes "distinct (map se_src_ipv4 (sd_sources d))"
  obtains (refused) d' where "\<not> sok" "with_source cvt sok now src d = (d', None)"
    "sd_sources d' = unlink_idle_sources cvt now (sd_window_seconds d) (sd_sources d)"
  | (found) d' i where "with_source cvt sok now src d = (d', Some i)" "i < length (sd_sources d')"
    "distinct (map se_src_ipv4 (sd_sources d'))"
    "\<And>src'. source_of src' (sd_sources d') =
       source_of src' (unlink_idle_sources cvt now (sd_window_seconds d) (sd_sources d))"
    "sd_sources d' ! i = source_of src (sd_sources d')"
proof -
  let ?ss = "unlink_idle_sources cvt now (sd_window_seconds d) (sd_sources d)"
  let ?d = "prune_sources cvt (d\<lparr>sd_revision := sd_revision d + 1\<rparr>) now"
  have ss: "sd_sources ?d = ?ss" by (simp add: prune_sources_def)
  have dist: "distinct (map se_src_ipv4 ?ss)" using assms by (rule unlink_idle_distinct)
  show thesis
  proof (cases rule: find_source_cases [of src ?ss])
    case absent
    show thesis
    proof (cases sok)
      case True
      show thesis
        by (rule found [of "?d\<lparr>sd_sources := new_source src # ?ss\<rparr>" 0])
          (use absent True dist in \<open>auto simp: with_source_def find_or_create_source_def ss source_of_absent\<close>)
    next
      case False
      show thesis
        by (rule refused [of ?d])
          (use absent False in \<open>auto simp: with_source_def find_or_create_source_def ss\<close>)
    qed
  next
    case (present i)
    then have "?ss ! i = source_of src ?ss" using source_of_nth [OF dist present(2)] by simp
    then show thesis
      by (intro found [of ?d i])
        (use present dist in \<open>simp_all add: with_source_def find_or_create_source_def ss\<close>)
  qed
qed

section \<open>The invariant of the detector\<close>

definition detector_ok :: "scan_detector \<Rightarrow> bool" where
  "detector_ok d \<longleftrightarrow>
     0 < sd_window_seconds d \<and> 0 < sd_threshold d \<and>
     distinct (map se_src_ipv4 (sd_sources d)) \<and>
     (\<forall>s \<in> set (sd_sources d). distinct (map pe_port (se_ports s)))"

lemma unlink_idle_ports:
  "(\<forall>s \<in> set sources. distinct (map pe_port (se_ports s))) \<Longrightarrow>
   \<forall>s \<in> set (unlink_idle_sources cvt now w sources). distinct (map pe_port (se_ports s))"
  by (induction sources)
    (auto simp: Let_def unlink_old_ports_filter intro: distinct_map_filter_keyed)

lemma observe_source_src [simp]:
  "se_src_ipv4 (snd (observe_source cvt pok w threshold p now s)) = se_src_ipv4 s"
  by (auto simp: observe_source_def upsert_port_def Let_def split_beta)

lemma observe_source_ports:
  "se_ports (snd (observe_source cvt pok w threshold p now s)) =
   snd (upsert_port_list pok (dst_port p) now (unlink_old_ports cvt now w (se_ports s)))"
  by (auto simp: observe_source_def upsert_port_def Let_def split_beta prune_ports_def)

lemma upsert_port_list_distinct:
  "distinct (map pe_port ports) \<Longrightarrow> distinct (map pe_port (snd (upsert_port_list ok port now ports)))"
  by (cases rule: upsert_port_list_cases [of port ports now ok]) auto

lemma find_or_create_ok:
  "find_or_create_source sok d src = (d', r) \<Longrightarrow>
   (\<forall>s \<in> set (sd_sources d). distinct (map pe_port (se_ports s))) \<Longrightarrow>
   \<forall>s \<in> set (sd_sources d'). distinct (map pe_port (se_ports s))"
  by (auto simp: find_or_create_source_def split: option.splits if_splits)

lemma observe_at_ok:
  assumes "detector_ok d"
    and "scan_detector_observe_at cvt sok pok (Some d) packet alert now = (raised, d', alert')"
  shows "\<exists>e. d' = Some e \<and> detector_ok e \<and> sd_window_seconds e = sd_window_seconds d \<and>
    sd_threshold e = sd_threshold d"
proof (cases "\<exists>p a. packet = Some p \<and> alert = Some a \<and> is_scan_probe p \<and> now \<noteq> time_error")
  case False
  with assms show ?thesis
    by (cases packet; cases alert) (auto simp: observe_ignores)
next
  case True
  then obtain p a where p: "packet = Some p" "alert = Some a" "is_scan_probe p" "now \<noteq> time_error"
    by blast
  have d: "0 < sd_window_seconds d" "0 < sd_threshold d" "distinct (map se_src_ipv4 (sd_sources d))"
    "\<forall>s \<in> set (sd_sources d). distinct (map pe_port (se_ports s))"
    using assms(1) by (auto simp: detector_ok_def)
  have ports: "\<forall>s \<in> set (unlink_idle_sources cvt now w (sd_sources d)). distinct (map pe_port (se_ports s))" for w
    using d(4) by (rule unlink_idle_ports)
  show ?thesis
  proof (cases rule: with_source_cases [OF d(3), of sok cvt now "src_ipv4 p"])
    case (1 d1)
    then show ?thesis
      using assms(2) with_source_fields [OF 1(2)] d ports unlink_idle_distinct [OF d(3)]
      by (auto simp: p observe_probe detector_ok_def)
  next
    case (2 d1 i)
    let ?s = "snd (observe_source cvt pok (sd_window_seconds d1) (sd_threshold d1) p now (sd_sources d1 ! i))"
    have "\<forall>s \<in> set (sd_sources d1). distinct (map pe_port (se_ports s))"
      using 2(1) unfolding with_source_def
      by (rule find_or_create_ok) (simp add: prune_sources_def ports)
    then have "\<forall>s \<in> set ((sd_sources d1)[i := ?s]). distinct (map pe_port (se_ports s))"
      using 2(2) by (auto simp: observe_source_ports unlink_old_ports_filter dest!: set_update_subset_insert [THEN subsetD]
          intro!: upsert_port_list_distinct distinct_map_filter_keyed)
    moreover have "distinct (map se_src_ipv4 ((sd_sources d1)[i := ?s]))"
      using source_of_update(1) [OF 2(3,2), of ?s] by simp
    ultimately show ?thesis
      using assms(2) with_source_fields [OF 2(1)] d
      by (auto simp: p observe_probe 2(1) detector_ok_def split_beta)
  qed
qed

section \<open>Refinement of the log\<close>

text \<open>
  The specification keeps for every source the log of its probes and the time of its last alert
  (0 before the first). The relation \<open>detector_tracks\<close> ties the pruned lists to it: an alert time
  may also be forgotten together with an idle source, once its cooldown is over.
\<close>

definition source_tracks ::
  "u32 \<Rightarrow> time_t \<Rightarrow> (u16 \<times> time_t) list \<Rightarrow> time_t \<Rightarrow> source_entry \<Rightarrow> bool" where
  "source_tracks w now log last_alert s \<longleftrightarrow>
     tracks pe_port pe_seen_at w now log (se_ports s) \<and>
     ordered_log log \<and> (\<forall>(k, t) \<in> set log. 0 \<le> t \<and> t \<le> now) \<and>
     0 \<le> last_alert \<and> last_alert \<le> now \<and>
     (se_last_alert_at s = last_alert \<or> se_last_alert_at s = 0 \<and> now - last_alert > uint w)"

definition detector_tracks ::
  "time_t \<Rightarrow> (u32 \<Rightarrow> (u16 \<times> time_t) list) \<Rightarrow> (u32 \<Rightarrow> time_t) \<Rightarrow> scan_detector \<Rightarrow> bool" where
  "detector_tracks now logs last_alerts d \<longleftrightarrow>
     distinct (map se_src_ipv4 (sd_sources d)) \<and>
     (\<forall>src. source_tracks (sd_window_seconds d) now (logs src) (last_alerts src)
              (source_of src (sd_sources d)))"

lemma source_tracks_recent:
  assumes "source_tracks w before log la s" "before \<le> now" "now < 2 ^ 32"
  shows "recent_clock now log"
  using assms unfolding source_tracks_def recent_clock_def by fastforce

lemma source_tracks_later:
  assumes "source_tracks w before log la s" "before \<le> now"
  shows "source_tracks w now log la s"
proof -
  have "tracks pe_port pe_seen_at w now log (se_ports s)"
    using assms tracks_later unfolding source_tracks_def by blast
  moreover have "\<forall>(k, t) \<in> set log. 0 \<le> t \<and> t \<le> now"
    using assms unfolding source_tracks_def by fastforce
  moreover have "se_last_alert_at s = la \<or> se_last_alert_at s = 0 \<and> now - la > uint w"
    using assms unfolding source_tracks_def by linarith
  ultimately show ?thesis
    using assms unfolding source_tracks_def by auto
qed

lemma source_tracks_prune:
  assumes "double_to_unsigned cvt" "source_tracks w now log la s" "now < 2 ^ 32"
  shows "source_tracks w now log la (prune_ports cvt s now w)"
  using timed_table.tracks_prune [OF ports_timed_table [OF assms(1)] _ source_tracks_recent [OF assms(2) order_refl assms(3)]]
    assms(2)
  by (simp add: source_tracks_def)

text \<open>Dropping an idle source loses nothing the specification still needs.\<close>

lemma source_tracks_drop:
  assumes "double_to_unsigned cvt" "source_tracks w now log la s" "now < 2 ^ 32"
    and "unlink_old_ports cvt now w (se_ports s) = []"
    and "difftime_u32 cvt now (se_last_alert_at s) > w"
  shows "source_tracks w now log la (new_source src)"
proof -
  have range: "0 \<le> se_last_alert_at s" "se_last_alert_at s \<le> now"
    using assms(2) unfolding source_tracks_def by auto
  then have "now - se_last_alert_at s > uint w"
    using assms(3,5) double_to_unsigned.older_than_window [OF assms(1), of "se_last_alert_at s" now w] by simp
  then have "now - la > uint w"
    using assms(2) unfolding source_tracks_def by auto
  moreover have "tracks pe_port pe_seen_at w now log ([] :: port_entry list)"
    using source_tracks_prune [OF assms(1-3)] assms(4) by (simp add: source_tracks_def)
  ultimately show ?thesis using assms(2) by (simp add: source_tracks_def)
qed

lemma unlink_idle_tracks:
  assumes "double_to_unsigned cvt" "distinct (map se_src_ipv4 sources)" "now < 2 ^ 32"
    and "source_tracks w now log la (source_of src sources)"
  shows "source_tracks w now log la (source_of src (unlink_idle_sources cvt now w sources))"
  using unlink_idle_source_of [OF assms(2), of src cvt now w]
    source_tracks_prune [OF assms(1,4,3)] source_tracks_drop [OF assms(1,4,3)]
  by auto

text \<open>One probe of a source: when it alerts, and the source afterwards.\<close>

definition probe_count :: "u32 \<Rightarrow> time_t \<Rightarrow> u16 \<Rightarrow> (u16 \<times> time_t) list \<Rightarrow> nat" where
  "probe_count w now port log = card (window_keys w now ((port, now) # log))"

lemma length_distinct_ports:
  assumes "distinct (map pe_port ports)"
  shows "length ports \<le> 65536" and "unat (count_ports ports) = card (pe_port ` set ports)"
proof -
  have "length ports = card (pe_port ` set ports)"
    using card_keys [OF assms] by simp
  moreover have "card (pe_port ` set ports) \<le> card (UNIV :: u16 set)"
    by (rule card_mono) simp_all
  ultimately show "length ports \<le> 65536" by (simp add: card_word)
  then show "unat (count_ports ports) = card (pe_port ` set ports)"
    using \<open>length ports = card (pe_port ` set ports)\<close>
    by (simp add: count_ports_length unat_of_nat_small)
qed

lemma observe_source_tracks:
  assumes "double_to_unsigned cvt" "source_tracks w now log la s" "0 \<le> now" "now < 2 ^ 32"
  obtains s' where
    "observe_source cvt True w threshold p now s =
      (if unat threshold \<le> probe_count w now (dst_port p) log \<and> now - la > uint w
       then Some (of_nat (probe_count w now (dst_port p) log)) else None, s')"
    "se_src_ipv4 s' = se_src_ipv4 s"
    "source_tracks w now ((dst_port p, now) # log)
       (if unat threshold \<le> probe_count w now (dst_port p) log \<and> now - la > uint w then now else la) s'"
proof -
  let ?port = "dst_port p"
  let ?s1 = "prune_ports cvt (s\<lparr>se_last_seen_at := now\<rparr>) now w"
  let ?ports = "snd (upsert_port_list True ?port now (unlink_old_ports cvt now w (se_ports s)))"
  let ?alert = "unat threshold \<le> probe_count w now ?port log \<and> now - la > uint w"
  let ?s2 = "?s1\<lparr>se_ports := ?ports\<rparr>"
  have st: "tracks pe_port pe_seen_at w now log (se_ports s)" "ordered_log log"
    "\<forall>(k, t) \<in> set log. 0 \<le> t \<and> t \<le> now" "0 \<le> la" "la \<le> now"
    "se_last_alert_at s = la \<or> se_last_alert_at s = 0 \<and> now - la > uint w"
    using assms(2) unfolding source_tracks_def by blast+
  have r: "recent_clock now log" using assms(2) order_refl assms(4) by (rule source_tracks_recent)
  note table = ports_timed_table [OF assms(1), of w]
  note step = timed_table.touch_step [OF table st(1) order_refl r st(2), of ?port]
  note exact = timed_table.touch_exact [OF table st(1) order_refl r st(2), of ?port]
  have ok: "fst (upsert_port_list True ?port now ports) = True" for ports
    by (auto simp: upsert_port_list_def split: option.splits)
  have count: "unat (count_ports ?ports) = probe_count w now ?port log"
    using exact length_distinct_ports(2) by (simp add: probe_count_def)
  then have count': "count_ports ?ports = of_nat (probe_count w now ?port log)"
    by (simp flip: count)
  have thr: "(of_nat (probe_count w now ?port log) :: u64) < threshold \<longleftrightarrow>
      \<not> unat threshold \<le> probe_count w now ?port log"
    unfolding count' [symmetric] by (simp add: word_less_nat_alt count not_le)
  have "difftime_u32 cvt now (se_last_alert_at s) \<le> w \<longleftrightarrow> now - se_last_alert_at s \<le> uint w"
    using double_to_unsigned.within_window [OF assms(1), of "se_last_alert_at s" now w] st(4-6) assms(3,4)
    by linarith
  also have "\<dots> \<longleftrightarrow> \<not> now - la > uint w" using st(4-6) by linarith
  finally have cool: "difftime_u32 cvt now (se_last_alert_at s) \<le> w \<longleftrightarrow> \<not> now - la > uint w" .
  have eq: "observe_source cvt True w threshold p now s =
      (if ?alert then Some (of_nat (probe_count w now ?port log)) else None,
       if ?alert then ?s2\<lparr>se_last_alert_at := now\<rparr> else ?s2)"
    by (simp add: observe_source_def upsert_port_def Let_def split_beta ok cool count' thr)
  have tr: "source_tracks w now ((?port, now) # log) (if ?alert then now else la)
      (if ?alert then ?s2\<lparr>se_last_alert_at := now\<rparr> else ?s2)"
    using step(2,3) st(3-6) assms(3) by (auto simp: source_tracks_def)
  show thesis by (rule that [OF eq _ tr]) simp
qed

text \<open>One probe of the whole detector.\<close>

lemma detector_tracks_later:
  "detector_tracks before logs las d \<Longrightarrow> before \<le> now \<Longrightarrow> detector_tracks now logs las d"
  by (auto simp: detector_tracks_def intro: source_tracks_later)

lemma observe_step:
  assumes "double_to_unsigned cvt" "detector_tracks before logs las d"
    and "before \<le> now" "0 \<le> now" "now < 2 ^ 32" and "is_scan_probe p"
  defines "n \<equiv> probe_count (sd_window_seconds d) now (dst_port p) (logs (src_ipv4 p))"
  defines "alert \<equiv> unat (sd_threshold d) \<le> n \<and> now - las (src_ipv4 p) > uint (sd_window_seconds d)"
  obtains d' where
    "scan_detector_observe_at cvt True True (Some d) (Some p) (Some a) now =
      (alert, Some d',
       Some (if alert then \<lparr>al_src_ipv4 = src_ipv4 p, al_unique_ports = of_nat n,
                            al_window_seconds = sd_window_seconds d\<rparr> else a))"
    "sd_window_seconds d' = sd_window_seconds d" "sd_threshold d' = sd_threshold d"
    "detector_tracks now (logs(src_ipv4 p := (dst_port p, now) # logs (src_ipv4 p)))
       (las(src_ipv4 p := if alert then now else las (src_ipv4 p))) d'"
proof -
  let ?w = "sd_window_seconds d" and ?src = "src_ipv4 p"
  have dist: "distinct (map se_src_ipv4 (sd_sources d))"
    and tr: "\<And>src. source_tracks ?w now (logs src) (las src) (source_of src (sd_sources d))"
    using detector_tracks_later [OF assms(2,3)] by (auto simp: detector_tracks_def)
  obtain d1 i where d1: "with_source cvt True now ?src d = (d1, Some i)" "i < length (sd_sources d1)"
    "distinct (map se_src_ipv4 (sd_sources d1))"
    "\<And>src'. source_of src' (sd_sources d1) = source_of src' (unlink_idle_sources cvt now ?w (sd_sources d))"
    "sd_sources d1 ! i = source_of ?src (sd_sources d1)"
    by (cases rule: with_source_cases [OF dist, of True cvt now ?src]) auto
  note fields = with_source_fields [OF d1(1)]
  have tr1: "source_tracks ?w now (logs src) (las src) (source_of src (sd_sources d1))" for src
    unfolding d1(4) using unlink_idle_tracks [OF assms(1) dist assms(5) tr] .
  obtain s' where s': "observe_source cvt True ?w (sd_threshold d) p now (sd_sources d1 ! i) =
      (if alert then Some (of_nat n) else None, s')"
    "se_src_ipv4 s' = ?src"
    "source_tracks ?w now ((dst_port p, now) # logs ?src) (if alert then now else las ?src) s'"
    using observe_source_tracks [OF assms(1) tr1 [of ?src] assms(4,5), of "sd_threshold d" p]
    unfolding d1(5) n_def alert_def by force
  let ?d' = "d1\<lparr>sd_sources := (sd_sources d1)[i := s']\<rparr>"
  have upd: "distinct (map se_src_ipv4 ((sd_sources d1)[i := s']))"
    "source_of src ((sd_sources d1)[i := s']) = (if src = ?src then s' else source_of src (sd_sources d1))" for src
    using source_of_update [OF d1(3,2), of s'] s'(2) d1(5) by simp_all
  show thesis
  proof (rule that [of ?d'])
    show "scan_detector_observe_at cvt True True (Some d) (Some p) (Some a) now =
      (alert, Some ?d',
       Some (if alert then \<lparr>al_src_ipv4 = src_ipv4 p, al_unique_ports = of_nat n,
                            al_window_seconds = ?w\<rparr> else a))"
      using observe_probe [OF assms(6), of now] assms(4) d1(1) s'(1) fields by simp
    show "sd_window_seconds ?d' = ?w" "sd_threshold ?d' = sd_threshold d"
      using fields by simp_all
    show "detector_tracks now (logs(?src := (dst_port p, now) # logs ?src))
       (las(?src := if alert then now else las ?src)) ?d'"
      using upd tr1 s'(3) fields by (auto simp: detector_tracks_def)
  qed
qed

section \<open>Runs of the detector\<close>

fun scan_run ::
  "(int \<Rightarrow> u32) \<Rightarrow> (time_t \<times> packet_info) list \<Rightarrow> scan_detector option \<Rightarrow> scan_alert option \<Rightarrow>
   (bool \<times> scan_alert option) list \<times> scan_detector option" where
  "scan_run cvt [] detector alert = ([], detector)"
| "scan_run cvt ((now, p) # run) detector alert =
     (case scan_detector_observe cvt True True now detector (Some p) alert of
        (raised, detector, alert) \<Rightarrow>
          (case scan_run cvt run detector alert of
             (outcomes, detector) \<Rightarrow> ((raised, alert) # outcomes, detector)))"

text \<open>The fast path of the capture thread decides exactly like \<open>scan_detector_observe_at\<close>.\<close>

lemma observe_fast_path:
  "scan_detector_observe cvt sok pok now detector packet alert =
   scan_detector_observe_at cvt sok pok detector packet alert now"
  by (auto simp: scan_detector_observe_def scan_detector_observe_at_def split: option.splits)

text \<open>
  The specification: every probe is logged under its source, nothing is ever pruned. A step gives
  the alert, if any, the logs and the times of the last alerts.
\<close>

definition spec_step ::
  "u32 \<Rightarrow> nat \<Rightarrow> (u32 \<Rightarrow> (u16 \<times> time_t) list) \<Rightarrow> (u32 \<Rightarrow> time_t) \<Rightarrow> time_t \<Rightarrow> packet_info \<Rightarrow>
   scan_alert option \<times> (u32 \<Rightarrow> (u16 \<times> time_t) list) \<times> (u32 \<Rightarrow> time_t)" where
  "spec_step w threshold logs las now p =
     (if \<not> is_scan_probe p then (None, logs, las)
      else (let src = src_ipv4 p;
                n = probe_count w now (dst_port p) (logs src);
                alert = (threshold \<le> n \<and> now - las src > uint w)
            in (if alert then Some \<lparr>al_src_ipv4 = src, al_unique_ports = of_nat n, al_window_seconds = w\<rparr>
                else None,
                logs(src := (dst_port p, now) # logs src),
                las(src := if alert then now else las src))))"

fun scan_spec ::
  "u32 \<Rightarrow> nat \<Rightarrow> (u32 \<Rightarrow> (u16 \<times> time_t) list) \<Rightarrow> (u32 \<Rightarrow> time_t) \<Rightarrow>
   (time_t \<times> packet_info) list \<Rightarrow> scan_alert option list" where
  "scan_spec w threshold logs las [] = []"
| "scan_spec w threshold logs las ((now, p) # run) =
     (case spec_step w threshold logs las now p of
        (outcome, logs', las') \<Rightarrow> outcome # scan_spec w threshold logs' las' run)"

fun logs_after ::
  "(u32 \<Rightarrow> (u16 \<times> time_t) list) \<Rightarrow> (time_t \<times> packet_info) list \<Rightarrow> u32 \<Rightarrow> (u16 \<times> time_t) list" where
  "logs_after logs [] = logs"
| "logs_after logs ((now, p) # run) =
     logs_after (if is_scan_probe p
                 then logs(src_ipv4 p := (dst_port p, now) # logs (src_ipv4 p)) else logs) run"

lemma spec_step_logs:
  "fst (snd (spec_step w threshold logs las now p)) =
   (if is_scan_probe p then logs(src_ipv4 p := (dst_port p, now) # logs (src_ipv4 p)) else logs)"
  by (simp add: spec_step_def Let_def)

lemma scan_spec_length [simp]: "length (scan_spec w threshold logs las run) = length run"
  by (induction run arbitrary: logs las) (auto simp: split_beta)

lemma observe_spec_step:
  assumes "double_to_unsigned cvt" "detector_tracks before logs las d"
    and "before \<le> now" "0 \<le> now" "now < 2 ^ 32"
    and "spec_step (sd_window_seconds d) (unat (sd_threshold d)) logs las now p = (outcome, logs', las')"
  obtains d' a' where
    "scan_detector_observe cvt True True now (Some d) (Some p) (Some a) =
      (outcome \<noteq> None, Some d', Some a')"
    "outcome = None \<or> outcome = Some a'"
    "sd_window_seconds d' = sd_window_seconds d" "sd_threshold d' = sd_threshold d"
    "detector_tracks now logs' las' d'"
proof (cases "is_scan_probe p")
  case False
  then have "scan_detector_observe cvt True True now (Some d) (Some p) (Some a) = (False, Some d, Some a)"
    by (simp add: observe_fast_path observe_ignores)
  moreover have "detector_tracks now logs' las' d" "outcome = None"
    using assms(2,3,6) False detector_tracks_later by (auto simp: spec_step_def)
  ultimately show thesis by (intro that [of d a]) simp_all
next
  case True
  let ?n = "probe_count (sd_window_seconds d) now (dst_port p) (logs (src_ipv4 p))"
  let ?alert = "unat (sd_threshold d) \<le> ?n \<and> now - las (src_ipv4 p) > uint (sd_window_seconds d)"
  let ?a = "if ?alert then \<lparr>al_src_ipv4 = src_ipv4 p, al_unique_ports = of_nat ?n,
                            al_window_seconds = sd_window_seconds d\<rparr> else a"
  obtain d' where d':
    "scan_detector_observe_at cvt True True (Some d) (Some p) (Some a) now = (?alert, Some d', Some ?a)"
    "sd_window_seconds d' = sd_window_seconds d" "sd_threshold d' = sd_threshold d"
    "detector_tracks now (logs(src_ipv4 p := (dst_port p, now) # logs (src_ipv4 p)))
       (las(src_ipv4 p := if ?alert then now else las (src_ipv4 p))) d'"
    by (rule observe_step [OF assms(1-5) True])
  have spec: "outcome = (if ?alert then Some ?a else None)"
    "logs' = logs(src_ipv4 p := (dst_port p, now) # logs (src_ipv4 p))"
    "las' = las(src_ipv4 p := if ?alert then now else las (src_ipv4 p))"
    using assms(6) True unfolding spec_step_def Let_def by (auto split: if_splits)
  show thesis
  proof (rule that [of d' ?a])
    show "scan_detector_observe cvt True True now (Some d) (Some p) (Some a) =
        (outcome \<noteq> None, Some d', Some ?a)"
      unfolding observe_fast_path d'(1) spec by simp
    show "outcome = None \<or> outcome = Some ?a" unfolding spec by simp
    show "detector_tracks now logs' las' d'" unfolding spec by (rule d'(4))
  qed (fact d')+
qed

definition reported :: "bool \<times> scan_alert option \<Rightarrow> bool \<times> scan_alert option" where
  "reported result = (fst result, if fst result then snd result else None)"

lemma scan_run_spec:
  assumes "double_to_unsigned cvt" "clock_ok before run" "detector_tracks before logs las d"
  shows "map reported (fst (scan_run cvt run (Some d) (Some a))) =
    map (\<lambda>outcome. (outcome \<noteq> None, outcome))
      (scan_spec (sd_window_seconds d) (unat (sd_threshold d)) logs las run)"
  using assms(2,3)
proof (induction run arbitrary: before logs las d a)
  case Nil
  then show ?case by simp
next
  case (Cons x run)
  obtain now p where x: "x = (now, p)" by fastforce
  with Cons.prems have c: "before \<le> now" "0 \<le> now" "now < 2 ^ 32" "clock_ok now run"
    by simp_all
  obtain outcome logs' las' where
    spec: "spec_step (sd_window_seconds d) (unat (sd_threshold d)) logs las now p = (outcome, logs', las')"
    by (metis prod_cases3)
  obtain d' a' where step:
    "scan_detector_observe cvt True True now (Some d) (Some p) (Some a) = (outcome \<noteq> None, Some d', Some a')"
    "outcome = None \<or> outcome = Some a'"
    "sd_window_seconds d' = sd_window_seconds d" "sd_threshold d' = sd_threshold d"
    "detector_tracks now logs' las' d'"
    by (rule observe_spec_step [OF assms(1) Cons.prems(2) c(1-3) spec])
  show ?case
    using Cons.IH [OF c(4) step(5), of a'] step(2-4)
    by (auto simp: x step(1) spec split_beta reported_def)
qed

lemma scan_run_tracks:
  assumes "double_to_unsigned cvt" "clock_ok before run" "detector_tracks before logs las d"
  shows "\<exists>d' later las'. snd (scan_run cvt run (Some d) (Some a)) = Some d' \<and> before \<le> later \<and>
      (later = before \<or> later \<in> fst ` set run) \<and>
      sd_window_seconds d' = sd_window_seconds d \<and> sd_threshold d' = sd_threshold d \<and>
      detector_tracks later (logs_after logs run) las' d'"
  using assms(2,3)
proof (induction run arbitrary: before logs las d a)
  case Nil
  then show ?case by auto
next
  case (Cons x run)
  obtain now p where x: "x = (now, p)" by fastforce
  with Cons.prems have c: "before \<le> now" "0 \<le> now" "now < 2 ^ 32" "clock_ok now run"
    by simp_all
  obtain outcome logs' las' where
    spec: "spec_step (sd_window_seconds d) (unat (sd_threshold d)) logs las now p = (outcome, logs', las')"
    by (metis prod_cases3)
  obtain d' a' where step:
    "scan_detector_observe cvt True True now (Some d) (Some p) (Some a) = (outcome \<noteq> None, Some d', Some a')"
    "sd_window_seconds d' = sd_window_seconds d" "sd_threshold d' = sd_threshold d"
    "detector_tracks now logs' las' d'"
    by (rule observe_spec_step [OF assms(1) Cons.prems(2) c(1-3) spec])
  have logs': "logs' = (if is_scan_probe p then logs(src_ipv4 p := (dst_port p, now) # logs (src_ipv4 p)) else logs)"
    using spec_step_logs [of "sd_window_seconds d" "unat (sd_threshold d)" logs las now p]
    unfolding spec by simp
  obtain d2 later las2 where
    "snd (scan_run cvt run (Some d') (Some a')) = Some d2" "now \<le> later"
    "later = now \<or> later \<in> fst ` set run"
    "sd_window_seconds d2 = sd_window_seconds d'" "sd_threshold d2 = sd_threshold d'"
    "detector_tracks later (logs_after logs' run) las2 d2"
    using Cons.IH [OF c(4) step(4), of a'] by blast
  moreover have "snd (scan_run cvt (x # run) (Some d) (Some a)) = snd (scan_run cvt run (Some d') (Some a'))"
    by (simp add: x step(1) split_beta)
  moreover have "logs_after logs (x # run) = logs_after logs' run"
    unfolding logs' x by simp
  ultimately show ?case
    using c(1) step(2,3) by (intro exI [of _ d2] exI [of _ later] exI [of _ las2]) (auto simp: x)
qed

section \<open>The specification in closed form\<close>

definition probes_seen ::
  "u32 \<Rightarrow> (u32 \<Rightarrow> (u16 \<times> time_t) list) \<Rightarrow> (time_t \<times> packet_info) list \<Rightarrow> nat \<Rightarrow> nat" where
  "probes_seen w logs run i =
     (case run ! i of (now, p) \<Rightarrow>
        probe_count w now (dst_port p) (logs_after logs (take i run) (src_ipv4 p)))"

definition quiet ::
  "u32 \<Rightarrow> (u32 \<Rightarrow> time_t) \<Rightarrow> (time_t \<times> packet_info) list \<Rightarrow> (nat \<Rightarrow> bool) \<Rightarrow> nat \<Rightarrow> bool" where
  "quiet w las run alerted i \<longleftrightarrow>
     fst (run ! i) - las (src_ipv4 (snd (run ! i))) > uint w \<and>
     (\<forall>j < i. alerted j \<and> src_ipv4 (snd (run ! j)) = src_ipv4 (snd (run ! i)) \<longrightarrow>
        fst (run ! i) - fst (run ! j) > uint w)"

lemma quiet_Suc:
  assumes "clock_ok now run" "i < length run" "las (src_ipv4 p) \<le> now"
  shows "quiet w las ((now, p) # run) alerted (Suc i) \<longleftrightarrow>
    quiet w (las(src_ipv4 p := if alerted 0 then now else las (src_ipv4 p))) run (\<lambda>j. alerted (Suc j)) i"
proof -
  have "now \<le> fst (run ! i)"
    using assms(1,2) nth_mem [OF assms(2)] unfolding clock_ok_def by (cases "run ! i") auto
  then show ?thesis
    using assms(3) by (auto simp: quiet_def All_less_Suc2)
qed

lemma quiet_0: "quiet w las ((now, p) # run) alerted 0 \<longleftrightarrow> now - las (src_ipv4 p) > uint w"
  by (simp add: quiet_def)

lemma probes_seen_Suc:
  "probes_seen w logs ((now, p) # run) (Suc i) =
   probes_seen w (if is_scan_probe p then logs(src_ipv4 p := (dst_port p, now) # logs (src_ipv4 p)) else logs) run i"
  by (simp add: probes_seen_def)

lemma scan_spec_nth:
  assumes "clock_ok before run" "\<forall>src. las src \<le> before" "i < length run"
  shows "scan_spec w threshold logs las run ! i =
    (let p = snd (run ! i); n = probes_seen w logs run i in
     if is_scan_probe p \<and> threshold \<le> n \<and>
        quiet w las run (\<lambda>j. scan_spec w threshold logs las run ! j \<noteq> None) i
     then Some \<lparr>al_src_ipv4 = src_ipv4 p, al_unique_ports = of_nat n, al_window_seconds = w\<rparr>
     else None)"
  using assms
proof (induction run arbitrary: before logs las i)
  case Nil
  then show ?case by simp
next
  case (Cons x run)
  obtain now p where x: "x = (now, p)" by fastforce
  with Cons.prems have c: "before \<le> now" "clock_ok now run" by simp_all
  obtain outcome logs' las' where
    spec: "spec_step w threshold logs las now p = (outcome, logs', las')"
    by (metis prod_cases3)
  show ?case
  proof (cases i)
    case 0
    then show ?thesis
      using spec by (auto simp: x quiet_0 probes_seen_def spec_step_def Let_def split: if_splits)
  next
    case (Suc k)
    have las: "las' = las(src_ipv4 p := if outcome \<noteq> None then now else las (src_ipv4 p))"
      using spec by (auto simp: spec_step_def Let_def split: if_splits)
    have logs: "logs' = (if is_scan_probe p then logs(src_ipv4 p := (dst_port p, now) # logs (src_ipv4 p)) else logs)"
      using spec_step_logs [of w threshold logs las now p] unfolding spec by simp
    have "\<forall>src. las' src \<le> now" using Cons.prems(2) c(1) unfolding las by (auto intro: order_trans)
    note IH = Cons.IH [OF c(2) this, of k logs']
    have "quiet w las' run (\<lambda>j. scan_spec w threshold logs' las' run ! j \<noteq> None) k =
        quiet w las (x # run) (\<lambda>j. scan_spec w threshold logs las (x # run) ! j \<noteq> None) (Suc k)"
      unfolding x las using Cons.prems(2,3) c(1,2) Suc
      by (subst quiet_Suc) (auto simp: spec [unfolded las] intro: order_trans)
    then show ?thesis
      using IH Cons.prems(3) by (simp add: Suc x spec probes_seen_Suc logs)
  qed
qed

lemma set_logs_after:
  "(port, t) \<in> set (logs_after logs run src) \<longleftrightarrow>
   (port, t) \<in> set (logs src) \<or>
   (\<exists>x \<in> set run. is_scan_probe (snd x) \<and> src_ipv4 (snd x) = src \<and> dst_port (snd x) = port \<and> fst x = t)"
  by (induction logs run rule: logs_after.induct) auto

text \<open>The number of ports counted for probe \<open>i\<close>, over the probes up to and including it.\<close>

definition ports_in_window :: "u32 \<Rightarrow> (time_t \<times> packet_info) list \<Rightarrow> nat \<Rightarrow> u16 set" where
  "ports_in_window w run i =
     {dst_port (snd (run ! j)) | j. j \<le> i \<and> is_scan_probe (snd (run ! j)) \<and>
        src_ipv4 (snd (run ! j)) = src_ipv4 (snd (run ! i)) \<and>
        fst (run ! i) - fst (run ! j) \<le> uint w}"

lemma ports_in_window_iff:
  assumes "is_scan_probe (snd (run ! i))"
  shows "port \<in> ports_in_window w run i \<longleftrightarrow> port = dst_port (snd (run ! i)) \<or>
    (\<exists>j < i. is_scan_probe (snd (run ! j)) \<and> src_ipv4 (snd (run ! j)) = src_ipv4 (snd (run ! i)) \<and>
       dst_port (snd (run ! j)) = port \<and> fst (run ! i) - fst (run ! j) \<le> uint w)"
proof -
  have le: "(\<exists>j \<le> i. Q j) \<longleftrightarrow> Q i \<or> (\<exists>j < i. Q j)" for Q :: "nat \<Rightarrow> bool"
    by (auto simp: le_less)
  have "port \<in> ports_in_window w run i \<longleftrightarrow>
      (\<exists>j \<le> i. is_scan_probe (snd (run ! j)) \<and> src_ipv4 (snd (run ! j)) = src_ipv4 (snd (run ! i)) \<and>
         dst_port (snd (run ! j)) = port \<and> fst (run ! i) - fst (run ! j) \<le> uint w)"
    unfolding ports_in_window_def by blast
  then show ?thesis using assms unfolding le by auto
qed

lemma probes_seen_eq:
  assumes "i < length run" "is_scan_probe (snd (run ! i))"
  shows "probes_seen w (\<lambda>_. []) run i = card (ports_in_window w run i)"
proof -
  have "window_keys w (fst (run ! i)) ((dst_port (snd (run ! i)), fst (run ! i)) #
      logs_after (\<lambda>_. []) (take i run) (src_ipv4 (snd (run ! i)))) = ports_in_window w run i"
    (is "?L = _")
  proof (rule set_eqI)
    fix port
    have "port \<in> ?L \<longleftrightarrow> port = dst_port (snd (run ! i)) \<or>
        (\<exists>x \<in> set (take i run). is_scan_probe (snd x) \<and> src_ipv4 (snd x) = src_ipv4 (snd (run ! i)) \<and>
           dst_port (snd x) = port \<and> fst (run ! i) - fst x \<le> uint w)"
      by (auto simp: window_keys_def set_logs_after)
    also have "\<dots> \<longleftrightarrow> port \<in> ports_in_window w run i"
      unfolding bex_take ports_in_window_iff [OF assms(2)] using assms(1) by auto
    finally show "port \<in> ?L \<longleftrightarrow> port \<in> ports_in_window w run i" .
  qed
  then show ?thesis by (simp add: probes_seen_def probe_count_def split_beta)
qed

lemma detector_tracks_create:
  "scan_detector_create True w threshold = Some d \<Longrightarrow> detector_tracks 0 (\<lambda>_. []) (\<lambda>_. 0) d"
  by (auto simp: scan_detector_create_def detector_tracks_def source_tracks_def ordered_log_def)

lemma scan_run_nth:
  assumes "double_to_unsigned cvt" "clock_ok 0 run" "i < length run"
    and "scan_detector_create True w threshold = Some d"
  shows "reported (fst (scan_run cvt run (Some d) (Some a)) ! i) =
    (let p = snd (run ! i); n = card (ports_in_window (sd_window_seconds d) run i);
         alert = (is_scan_probe p \<and> unat (sd_threshold d) \<le> n \<and> fst (run ! i) > uint (sd_window_seconds d) \<and>
           (\<forall>j < i. fst (fst (scan_run cvt run (Some d) (Some a)) ! j) \<and>
              src_ipv4 (snd (run ! j)) = src_ipv4 p \<longrightarrow> fst (run ! i) - fst (run ! j) > uint (sd_window_seconds d)))
     in (alert, if alert then Some \<lparr>al_src_ipv4 = src_ipv4 p, al_unique_ports = of_nat n,
                                    al_window_seconds = sd_window_seconds d\<rparr> else None))"
proof -
  let ?w = "sd_window_seconds d"
  let ?outs = "fst (scan_run cvt run (Some d) (Some a))"
  let ?spec = "scan_spec ?w (unat (sd_threshold d)) (\<lambda>_. []) (\<lambda>_. 0) run"
  have outs: "map reported ?outs = map (\<lambda>outcome. (outcome \<noteq> None, outcome)) ?spec"
    using assms(1,2) detector_tracks_create [OF assms(4)] by (rule scan_run_spec)
  have len: "length ?outs = length run"
    using arg_cong [OF outs, of length] by simp
  have nth: "reported (?outs ! j) = (?spec ! j \<noteq> None, ?spec ! j)" if "j < length run" for j
    using arg_cong [OF outs, of "\<lambda>xs. xs ! j"] that len by simp
  have raised: "fst (?outs ! j) \<longleftrightarrow> ?spec ! j \<noteq> None" if "j < length run" for j
    using nth [OF that] by (simp add: reported_def)
  have "quiet ?w (\<lambda>_. 0) run (\<lambda>j. ?spec ! j \<noteq> None) i \<longleftrightarrow>
      fst (run ! i) > uint ?w \<and>
      (\<forall>j < i. fst (?outs ! j) \<and> src_ipv4 (snd (run ! j)) = src_ipv4 (snd (run ! i)) \<longrightarrow>
         fst (run ! i) - fst (run ! j) > uint ?w)"
    using raised assms(3) by (auto simp: quiet_def)
  then show ?thesis
    unfolding nth [OF assms(3)] using scan_spec_nth [OF assms(2) _ assms(3), of "\<lambda>_. 0" ?w "unat (sd_threshold d)" "\<lambda>_. []"]
    by (cases "is_scan_probe (snd (run ! i))") (auto simp: Let_def probes_seen_eq [OF assms(3)])
qed

section \<open>The snapshot\<close>

text \<open>The loop on natural numbers, and the word-sized loop below the range of \<open>size_t\<close>.\<close>

fun max_ports_nat ::
  "(snapshot_port \<Rightarrow> bool) \<Rightarrow> u32 option \<Rightarrow> nat \<Rightarrow> nat \<Rightarrow> snapshot_port list \<Rightarrow> nat" where
  "max_ports_nat fresh previous count maximum [] = maximum"
| "max_ports_nat fresh previous count maximum (port # ports) =
     (let count = (if previous \<noteq> Some (sp_src_ipv4 port) then 0 else count)
      in if fresh port
         then max_ports_nat fresh (Some (sp_src_ipv4 port)) (count + 1) (max (count + 1) maximum) ports
         else max_ports_nat fresh (Some (sp_src_ipv4 port)) count maximum ports)"

lemma max_ports_loop_nat:
  assumes "unat count + length ports < 2 ^ 64"
  shows "unat (max_ports_loop cvt now w previous count maximum ports) =
    max_ports_nat (\<lambda>port. \<not> outside_window cvt now (sp_seen_at port) w) previous (unat count)
      (unat maximum) ports"
  using assms
proof (induction ports arbitrary: previous count maximum)
  case (Cons port ports)
  let ?c = "if previous \<noteq> Some (sp_src_ipv4 port) then 0 else count"
  have "unat ?c \<le> unat count" by simp
  then have "unat (?c + 1) = unat ?c + 1"
    using Cons.prems by (intro unat_increment_u64) simp
  then show ?case
    using Cons.IH [of ?c "Some (sp_src_ipv4 port)" maximum]
      Cons.IH [of "?c + 1" "Some (sp_src_ipv4 port)" "if ?c + 1 > maximum then ?c + 1 else maximum"]
      Cons.prems \<open>unat ?c \<le> unat count\<close>
    by (auto simp: Let_def max_def word_less_nat_alt)
qed simp

definition fresh_ports :: "(snapshot_port \<Rightarrow> bool) \<Rightarrow> source_entry \<Rightarrow> nat" where
  "fresh_ports fresh s = length (filter fresh (snapshot_ports_of s))"

lemma max_ports_block:
  assumes "c \<le> m" "\<forall>port \<in> set ports. sp_src_ipv4 port = src"
  shows "max_ports_nat fresh (Some src) c m (ports @ rest) =
    max_ports_nat fresh (Some src) (c + length (filter fresh ports)) (max m (c + length (filter fresh ports))) rest"
  using assms
proof (induction ports arbitrary: c m)
  case Nil
  then show ?case by (simp add: max_def)
next
  case (Cons port ports)
  show ?case
  proof (cases "fresh port")
    case True
    then show ?thesis
      using Cons.IH [of "c + 1" "max (c + 1) m"] Cons.prems
      by (auto simp: max_def add.commute add.left_commute)
  next
    case False
    then show ?thesis using Cons.IH [of c m] Cons.prems by simp
  qed
qed

lemma max_ports_new_block:
  assumes "previous \<noteq> Some src" "ports \<noteq> []" "\<forall>port \<in> set ports. sp_src_ipv4 port = src"
  shows "max_ports_nat fresh previous c m (ports @ rest) =
    max_ports_nat fresh (Some src) (length (filter fresh ports)) (max m (length (filter fresh ports))) rest"
proof -
  obtain port ports' where "ports = port # ports'" "sp_src_ipv4 port = src"
    using assms(2,3) by (cases ports) auto
  then have "max_ports_nat fresh previous c m (ports @ rest) =
      max_ports_nat fresh (Some src) 0 m (ports @ rest)"
    using assms(1) by simp
  then show ?thesis using max_ports_block [OF _ assms(3), of 0 m fresh rest] by simp
qed

lemma snapshot_ports_of_src: "\<forall>port \<in> set (snapshot_ports_of s). sp_src_ipv4 port = se_src_ipv4 s"
  by (simp add: snapshot_ports_of_def)

lemma max_ports_sources:
  assumes "distinct (map se_src_ipv4 sources)" "\<forall>s \<in> set sources. previous \<noteq> Some (se_src_ipv4 s)"
  shows "max_ports_nat fresh previous c m (concat (map snapshot_ports_of sources)) =
    fold (\<lambda>s m. max m (fresh_ports fresh s)) sources m"
  using assms
proof (induction sources arbitrary: previous c m)
  case (Cons s sources)
  then have next_block: "\<forall>s' \<in> set sources. Some (se_src_ipv4 s) \<noteq> Some (se_src_ipv4 s')"
    by (auto simp: image_iff)
  show ?case
  proof (cases "snapshot_ports_of s = []")
    case True
    then show ?thesis using Cons by (simp add: fresh_ports_def)
  next
    case False
    then show ?thesis
      using Cons max_ports_new_block [OF _ False snapshot_ports_of_src, of previous fresh c m]
        Cons.IH [OF _ next_block]
      by (simp add: fresh_ports_def)
  qed
qed simp

lemma fold_max:
  fixes f :: "'a \<Rightarrow> nat"
  shows "m \<le> fold (\<lambda>x m. max m (f x)) xs m" "x \<in> set xs \<Longrightarrow> f x \<le> fold (\<lambda>x m. max m (f x)) xs m"
    "fold (\<lambda>x m. max m (f x)) xs m = m \<or> (\<exists>x \<in> set xs. fold (\<lambda>x m. max m (f x)) xs m = f x)"
proof (induction xs arbitrary: m)
  case (Cons y ys)
  {
    case 1
    show ?case using Cons(1) [of "max m (f y)"] by simp
  next
    case 2
    then show ?case using Cons(1) [of "max m (f y)"] Cons(2) [of "max m (f y)"] by auto
  next
    case 3
    show ?case using Cons(3) [of "max m (f y)"] by (auto simp: max_def)
  }
qed simp_all

text \<open>The total number of ports is far below the capacity of a snapshot.\<close>

lemma snapshot_fits:
  assumes "distinct (map se_src_ipv4 sources)" "\<forall>s \<in> set sources. distinct (map pe_port (se_ports s))"
  shows "length (concat (map snapshot_ports_of sources)) \<le> 2 ^ 48"
proof -
  have "length (concat (map snapshot_ports_of sources)) = (\<Sum>s \<leftarrow> sources. length (se_ports s))"
    by (simp add: length_concat snapshot_ports_of_def comp_def)
  also have "\<dots> \<le> (\<Sum>s \<leftarrow> sources. 65536)"
    using assms(2) length_distinct_ports(1) by (intro sum_list_mono) auto
  also have "\<dots> = length sources * 65536" by (simp add: sum_list_triv)
  also have "length sources = card (se_src_ipv4 ` set sources)"
    using card_keys [OF assms(1)] by simp
  also have "card (se_src_ipv4 ` set sources) \<le> card (UNIV :: u32 set)"
    by (rule card_mono) simp_all
  then have "card (se_src_ipv4 ` set sources) * 65536 \<le> 2 ^ 48" by (simp add: card_word)
  finally show ?thesis .
qed

lemma snapshot_max_ports:
  assumes "distinct (map se_src_ipv4 (sd_sources d))"
    and "\<forall>s \<in> set (sd_sources d). distinct (map pe_port (se_ports s))"
    and "now \<noteq> time_error"
  shows "\<exists>snapshot. scan_detector_snapshot True (Some d) = Some snapshot \<and>
    unat (scan_snapshot_max_ports cvt (Some snapshot) now) =
      fold (\<lambda>s m. max m (length (unlink_old_ports cvt now (sd_window_seconds d) (se_ports s)))) (sd_sources d) 0"
proof -
  let ?ports = "concat (map snapshot_ports_of (sd_sources d))"
  let ?fresh = "\<lambda>port. \<not> outside_window cvt now (sp_seen_at port) (sd_window_seconds d)"
  have len: "length ?ports \<le> 2 ^ 48" using assms(1,2) by (rule snapshot_fits)
  then have "unat (of_nat (length ?ports) :: u64) = length ?ports"
    by (intro unat_of_nat_small) simp
  moreover have "fresh_ports ?fresh s = length (unlink_old_ports cvt now (sd_window_seconds d) (se_ports s))" for s
    by (simp add: fresh_ports_def snapshot_ports_of_def filter_map comp_def unlink_old_ports_filter outside_window_def)
  moreover have "\<not> length ?ports > snapshot_capacity" using len by (simp add: snapshot_capacity_def)
  ultimately show ?thesis
    using len assms(3) max_ports_loop_nat [of 0 ?ports cvt now "sd_window_seconds d" None 0]
      max_ports_sources [OF assms(1), of None ?fresh 0 0]
    by (simp add: scan_detector_snapshot_def scan_snapshot_max_ports_def Let_def)
qed

lemma detector_tracks_distinct:
  assumes "detector_tracks now logs las d"
  shows "distinct (map se_src_ipv4 (sd_sources d))"
    and "\<forall>s \<in> set (sd_sources d). distinct (map pe_port (se_ports s))"
proof -
  show d: "distinct (map se_src_ipv4 (sd_sources d))"
    using assms by (simp add: detector_tracks_def)
  show "\<forall>s \<in> set (sd_sources d). distinct (map pe_port (se_ports s))"
  proof
    fix s assume "s \<in> set (sd_sources d)"
    then have "source_of (se_src_ipv4 s) (sd_sources d) = s"
      using source_of_nth [OF d] by (auto simp: in_set_conv_nth)
    moreover have "distinct (map pe_port (se_ports (source_of (se_src_ipv4 s) (sd_sources d))))"
      using assms unfolding detector_tracks_def source_tracks_def tracks_def by blast
    ultimately show "distinct (map pe_port (se_ports s))" by simp
  qed
qed

text \<open>What the display shows: the largest number of ports any source has in the window.\<close>

definition window_ports :: "u32 \<Rightarrow> time_t \<Rightarrow> (time_t \<times> packet_info) list \<Rightarrow> u32 \<Rightarrow> u16 set" where
  "window_ports w now run src =
     {dst_port p | p t. (t, p) \<in> set run \<and> is_scan_probe p \<and> src_ipv4 p = src \<and> now - t \<le> uint w}"

lemma window_ports_log:
  "window_keys w now (logs_after (\<lambda>_. []) run src) = window_ports w now run src"
  by (auto simp: window_keys_def window_ports_def set_logs_after) force+

lemma tracked_ports:
  assumes "double_to_unsigned cvt" "source_tracks w now log la s" "now < 2 ^ 32"
  shows "length (unlink_old_ports cvt now w (se_ports s)) = card (window_keys w now log)"
proof -
  note table = ports_timed_table [OF assms(1), of w]
  have t: "tracks pe_port pe_seen_at w now log (se_ports s)" "ordered_log log"
    using assms(2) by (auto simp: source_tracks_def)
  have r: "recent_clock now log" using assms(2) order_refl assms(3) by (rule source_tracks_recent)
  have "distinct (map pe_port (unlink_old_ports cvt now w (se_ports s)))"
    using timed_table.tracks_prune [OF table t(1) r] by (simp add: tracks_def)
  then have "length (unlink_old_ports cvt now w (se_ports s)) =
      card (pe_port ` set (unlink_old_ports cvt now w (se_ports s)))"
    by (simp add: card_keys)
  then show ?thesis using timed_table.tracks_exact [OF table t(1) r t(2)] by simp
qed

lemma tracked_maximum:
  assumes "double_to_unsigned cvt" "detector_tracks now logs las d" "now < 2 ^ 32"
  defines "m \<equiv> fold (\<lambda>s m. max m (length (unlink_old_ports cvt now (sd_window_seconds d) (se_ports s)))) (sd_sources d) 0"
  shows "card (window_keys (sd_window_seconds d) now (logs src)) \<le> m"
    and "\<exists>src. card (window_keys (sd_window_seconds d) now (logs src)) = m"
proof -
  let ?w = "sd_window_seconds d"
  let ?f = "\<lambda>s. length (unlink_old_ports cvt now ?w (se_ports s))"
  have dist: "distinct (map se_src_ipv4 (sd_sources d))"
    and tr: "\<And>src. source_tracks ?w now (logs src) (las src) (source_of src (sd_sources d))"
    using assms(2) by (auto simp: detector_tracks_def)
  have count: "?f (source_of src (sd_sources d)) = card (window_keys ?w now (logs src))" for src
    by (rule tracked_ports [OF assms(1) tr assms(3)])
  have present: "?f s = card (window_keys ?w now (logs (se_src_ipv4 s)))" if "s \<in> set (sd_sources d)" for s
    using that count [of "se_src_ipv4 s"] source_of_nth [OF dist] by (auto simp: in_set_conv_nth)
  show "card (window_keys ?w now (logs src)) \<le> m" for src
  proof (cases "source_of src (sd_sources d) \<in> set (sd_sources d)")
    case True
    from fold_max(2) [OF True, of ?f 0] show ?thesis by (simp add: m_def count)
  next
    case False
    with source_of_cases [of src "sd_sources d"]
    have "source_of src (sd_sources d) = new_source src" by blast
    then show ?thesis using count [of src] by simp
  qed
  consider "m = 0" | s where "s \<in> set (sd_sources d)" "m = ?f s"
    using fold_max(3) [of ?f "sd_sources d" 0] by (auto simp: m_def)
  then show "\<exists>src. card (window_keys ?w now (logs src)) = m"
  proof cases
    case 1
    then show ?thesis
      using \<open>\<And>src. card (window_keys ?w now (logs src)) \<le> m\<close> by auto
  next
    case 2
    then show ?thesis using present by metis
  qed
qed

section \<open>Reachable detectors\<close>

text \<open>
  A step is one call with any packet, any clock reading (backwards included) and any outcome of the
  two allocations.
\<close>

inductive detector_step :: "(int \<Rightarrow> u32) \<Rightarrow> scan_detector \<Rightarrow> scan_detector \<Rightarrow> bool" for cvt where
  observe: "scan_detector_observe cvt sok pok now (Some d) packet alert = (raised, Some d', alert') \<Longrightarrow>
    detector_step cvt d d'"

inductive_cases detector_stepE: "detector_step cvt d d'"

inductive detector_reachable :: "(int \<Rightarrow> u32) \<Rightarrow> u32 \<Rightarrow> u64 \<Rightarrow> scan_detector \<Rightarrow> bool"
  for cvt w threshold where
  create: "scan_detector_create ok w threshold = Some d \<Longrightarrow> detector_reachable cvt w threshold d"
| step: "detector_reachable cvt w threshold d \<Longrightarrow> detector_step cvt d d' \<Longrightarrow>
    detector_reachable cvt w threshold d'"

lemma detector_step_ok:
  assumes "detector_step cvt d d'" "detector_ok d"
  shows "detector_ok d' \<and> sd_window_seconds d' = sd_window_seconds d \<and> sd_threshold d' = sd_threshold d"
proof -
  from assms(1) obtain sok pok now packet alert raised alert' where
    "scan_detector_observe cvt sok pok now (Some d) packet alert = (raised, Some d', alert')"
    by (rule detector_stepE)
  then show ?thesis
    using observe_at_ok [OF assms(2), of cvt sok pok packet alert now] by (auto simp: observe_fast_path)
qed

lemma detector_create_ok:
  "scan_detector_create ok w threshold = Some d \<Longrightarrow>
   detector_ok d \<and> sd_window_seconds d = (if w = 0 then 10 else w) \<and>
   sd_threshold d = (if threshold = 0 then 20 else threshold)"
  by (auto simp: scan_detector_create_def detector_ok_def word_gt_0 split: if_splits)

lemma detector_reachable_ok:
  "detector_reachable cvt w threshold d \<Longrightarrow>
   detector_ok d \<and> sd_window_seconds d = (if w = 0 then 10 else w) \<and>
   sd_threshold d = (if threshold = 0 then 20 else threshold)"
proof (induction rule: detector_reachable.induct)
  case (create ok d)
  then show ?case by (rule detector_create_ok)
next
  case (step d d')
  then show ?case using detector_step_ok [of cvt d d'] by simp
qed

section \<open>A clock within the first window\<close>

text \<open>
  The flags of a run in which every call has its own time, packet and outcomes of the allocations. As
  long as no source has alerted, its time of the last alert is the initial 0, and no age up to the
  window gets past the cooldown.
\<close>

type_synonym observation = "time_t \<times> packet_info \<times> bool \<times> bool"

fun alert_flags ::
  "(int \<Rightarrow> u32) \<Rightarrow> observation list \<Rightarrow> scan_detector option \<Rightarrow> scan_alert option \<Rightarrow> bool list" where
  "alert_flags cvt [] detector alert = []"
| "alert_flags cvt ((now, p, alloc_source, alloc_port) # calls) detector alert =
     (case scan_detector_observe cvt alloc_source alloc_port now detector (Some p) alert of
        (raised, detector, alert) \<Rightarrow> raised # alert_flags cvt calls detector alert)"

definition never_alerted :: "scan_detector \<Rightarrow> bool" where
  "never_alerted d \<longleftrightarrow> list_all (\<lambda>s. se_last_alert_at s = 0) (sd_sources d)"

lemma never_alerted_prune:
  "never_alerted d \<Longrightarrow> never_alerted (prune_sources cvt d now)"
proof -
  have "list_all (\<lambda>s. se_last_alert_at s = 0) sources \<Longrightarrow>
      list_all (\<lambda>s. se_last_alert_at s = 0) (unlink_idle_sources cvt now w sources)" for w sources
    by (induction sources) (auto simp: Let_def prune_ports_def)
  then show "never_alerted d \<Longrightarrow> ?thesis" by (simp add: never_alerted_def prune_sources_def)
qed

lemma never_alerted_find:
  assumes "find_or_create_source ok d src = (d', r)" "never_alerted d"
  shows "never_alerted d' \<and> (case r of None \<Rightarrow> True | Some i \<Rightarrow> i < length (sd_sources d'))"
proof (cases rule: find_source_cases [of src "sd_sources d"])
  case absent
  with assms show ?thesis
    by (auto simp: find_or_create_source_def never_alerted_def new_source_def split: if_split_asm)
next
  case (present i)
  with assms(1) have "d' = d" "r = Some i" by (simp_all add: find_or_create_source_def)
  with assms(2) present(2) show ?thesis by simp
qed

lemma observe_source_silent:
  assumes "se_last_alert_at s = 0" "difftime_u32 cvt now 0 \<le> w"
  shows "\<exists>s'. observe_source cvt ok w threshold p now s = (None, s') \<and> se_last_alert_at s' = 0"
  using assms by (auto simp: observe_source_def upsert_port_def prune_ports_def Let_def split: prod.split)

lemma observe_silent:
  assumes "never_alerted d" "difftime_u32 cvt now 0 \<le> sd_window_seconds d"
  shows "\<exists>d' a'. scan_detector_observe cvt sok pok now (Some d) packet alert = (False, Some d', a') \<and>
    never_alerted d' \<and> sd_window_seconds d' = sd_window_seconds d"
proof -
  let ?d = "prune_sources cvt (d\<lparr>sd_revision := sd_revision d + 1\<rparr>) now"
  have "never_alerted (d\<lparr>sd_revision := sd_revision d + 1\<rparr>)" using assms(1) by (simp add: never_alerted_def)
  then have start: "never_alerted ?d" by (rule never_alerted_prune)
  have window: "sd_window_seconds ?d = sd_window_seconds d" by (simp add: prune_sources_def)
  have main: "\<exists>d' a'. scan_detector_observe_at cvt sok pok (Some d) packet alert now = (False, Some d', a') \<and>
      never_alerted d' \<and> sd_window_seconds d' = sd_window_seconds d"
    if "packet = Some p" for p
  proof -
    obtain d1 r where found: "find_or_create_source sok ?d (src_ipv4 p) = (d1, r)" by fastforce
    note d1 = never_alerted_find [OF found start]
    have w: "sd_window_seconds d1 = sd_window_seconds d"
      using found window by (auto simp: find_or_create_source_def split: option.split_asm if_split_asm)
    show ?thesis
    proof (cases r)
      case None
      with found d1 w assms(1) that show ?thesis
        by (auto simp: scan_detector_observe_at_def Let_def split: option.split)
    next
      case (Some i)
      with d1 have "se_last_alert_at (sd_sources d1 ! i) = 0"
        by (auto simp: never_alerted_def list_all_length)
      with assms(2) obtain s' where s': "observe_source cvt pok (sd_window_seconds d1) (sd_threshold d1) p now
          (sd_sources d1 ! i) = (None, s')" "se_last_alert_at s' = 0"
        using observe_source_silent w by metis
      have "never_alerted (d1\<lparr>sd_sources := (sd_sources d1)[i := s']\<rparr>)"
        using d1 s'(2) Some by (auto simp: never_alerted_def list_all_length nth_list_update)
      with Some found s'(1) w assms(1) that show ?thesis
        by (auto simp: scan_detector_observe_at_def Let_def split: option.split)
    qed
  qed
  show ?thesis
    using main assms(1) by (auto simp: scan_detector_observe_def split: option.split)
qed

lemma alert_flags_silent:
  assumes "double_to_unsigned cvt" "never_alerted d"
    and "list_all (\<lambda>(now, _). 0 \<le> now \<and> now \<le> uint (sd_window_seconds d)) calls"
  shows "list_all (\<lambda>raised. \<not> raised) (alert_flags cvt calls (Some d) alert)"
  using assms(2,3)
proof (induction calls arbitrary: d alert)
  case (Cons call calls)
  obtain now p sok pok where call: "call = (now, p, sok, pok)" by (cases call)
  have now: "0 \<le> now" "now \<le> uint (sd_window_seconds d)" using Cons.prems(2) by (simp_all add: call)
  then have "now < 2 ^ 32" using unsigned_less [where 'a = int, of "sd_window_seconds d"] by simp
  with now have "difftime_u32 cvt now 0 \<le> sd_window_seconds d"
    using double_to_unsigned.uint_difftime [OF assms(1), of 0 now] by (simp add: word_le_def)
  then obtain d' a' where observed: "scan_detector_observe cvt sok pok now (Some d) (Some p) alert = (False, Some d', a')"
    "never_alerted d'" "sd_window_seconds d' = sd_window_seconds d"
    using observe_silent [OF Cons.prems(1), of cvt now sok pok "Some p" alert] by blast
  with Cons.IH [of d' a'] Cons.prems(2) show ?case by (simp add: call)
qed simp

section \<open>Properties\<close>

text \<open>
  C2: the scan alert is exact. Over any run of packets on a clock that does not step back, packet
  \<open>i\<close> raises a scan alert exactly when it is an initial SYN, its source has sent initial SYNs to at
  least the threshold of distinct ports in the window that ends with it, more than a window has
  passed since every earlier alert of that source, and the time itself exceeds the window (the
  start value 0 of \<open>last_alert_at\<close>). The alert then names the source, that number of ports and the
  window. Nothing the detector prunes, and no idle source it drops, changes an answer. The
  allocations of the run succeed.
\<close>

theorem scan_alert_exact:
  assumes "double_to_unsigned cvt" and "clock_ok 0 run" and "i < length run"
    and "scan_detector_create True w threshold = Some d"
  shows "case fst (scan_run cvt run (Some d) (Some a)) ! i of (raised, alert) \<Rightarrow>
    raised =
      (is_scan_probe (snd (run ! i)) \<and>
       unat (sd_threshold d) \<le> card (ports_in_window (sd_window_seconds d) run i) \<and>
       fst (run ! i) > uint (sd_window_seconds d) \<and>
       (\<forall>j < i. fst (fst (scan_run cvt run (Some d) (Some a)) ! j) \<and>
          src_ipv4 (snd (run ! j)) = src_ipv4 (snd (run ! i)) \<longrightarrow>
          fst (run ! i) - fst (run ! j) > uint (sd_window_seconds d))) \<and>
    (raised \<longrightarrow> alert =
       Some \<lparr>al_src_ipv4 = src_ipv4 (snd (run ! i)),
             al_unique_ports = of_nat (card (ports_in_window (sd_window_seconds d) run i)),
             al_window_seconds = sd_window_seconds d\<rparr>)"
  using scan_run_nth [OF assms, of a] by (auto simp: reported_def Let_def split: prod.splits)

definition probe_example :: "u16 \<Rightarrow> packet_info" where
  "probe_example port = packet_info_zero
     \<lparr>has_ethernet := True, ether_type := 0x0800, has_ipv4 := True, ip_protocol := 6,
       src_ipv4 := 0x0a000009, has_ports := True, dst_port := port, has_tcp := True,
       tcp_flags := TH_SYN\<rparr>"

lemma probe_example_simps [simp]:
  "is_scan_probe (probe_example port)" "src_ipv4 (probe_example port) = 0x0a000009"
  "dst_port (probe_example port) = port"
  by (simp_all add: probe_example_def is_scan_probe_def)

definition scan_example :: "(time_t \<times> packet_info) list" where
  "scan_example = [(1000, probe_example 80), (1004, probe_example 80), (1009, probe_example 443)]"

definition alert_zero :: scan_alert where
  "alert_zero = \<lparr>al_src_ipv4 = 0, al_unique_ports = 0, al_window_seconds = 0\<rparr>"

lemma scan_example_simps:
  "clock_ok 0 scan_example" "length scan_example = 3"
  "scan_example ! 0 = (1000, probe_example 80)" "scan_example ! Suc 0 = (1004, probe_example 80)"
  "scan_example ! 2 = (1009, probe_example 443)"
  by (simp_all add: scan_example_def clock_ok_def)

lemma scan_example_ports:
  "ports_in_window 5 scan_example 0 = {80}" "ports_in_window 5 scan_example (Suc 0) = {80}"
  "ports_in_window 5 scan_example 2 = {80, 443}"
  by (auto simp: set_eq_iff ports_in_window_iff scan_example_simps less_2_cases_iff)

theorem scan_alert_exact_witness:
  "\<exists>d. scan_detector_create True 5 2 = Some d \<and>
     fst (scan_run cvt_saturating scan_example (Some d) (Some alert_zero)) ! 2 =
       (True, Some \<lparr>al_src_ipv4 = 0x0a000009, al_unique_ports = 2, al_window_seconds = 5\<rparr>)"
proof -
  obtain d where d: "scan_detector_create True 5 2 = Some d" "sd_window_seconds d = 5" "sd_threshold d = 2"
    by (simp add: scan_detector_create_def)
  let ?outs = "fst (scan_run cvt_saturating scan_example (Some d) (Some alert_zero))"
  note exact = scan_alert_exact [OF aarch64.double_to_unsigned_axioms scan_example_simps(1) _ d(1), of _ alert_zero,
      unfolded d scan_example_simps]
  have early: "\<not> fst (?outs ! 0)" "\<not> fst (?outs ! Suc 0)"
    using exact [of 0] exact [of "Suc 0"] by (auto simp: scan_example_simps scan_example_ports split: prod.splits)
  have "\<forall>j < 2. \<not> fst (?outs ! j)" using early by (simp add: less_Suc_eq numeral_2_eq_2)
  then show ?thesis
    using exact [of 2] d(1) by (auto simp: scan_example_simps scan_example_ports split: prod.splits)
qed

text \<open>
  C21: the snapshot shows the busiest source. A snapshot of the detector taken after a run, evaluated
  at any later time, gives the largest number of distinct ports that one source has probed in the
  window that ends then; the guard against an overflowing allocation never fires, and the count
  does not wrap. The allocations of the run and of the snapshot succeed.
\<close>

theorem scan_snapshot_exact:
  assumes "double_to_unsigned cvt" and "clock_ok 0 run" and "\<forall>(t, _) \<in> set run. t \<le> now"
    and "0 \<le> now" and "now < 2 ^ 32" and "scan_detector_create True w threshold = Some d"
  shows "\<exists>snapshot m.
    scan_detector_snapshot True (snd (scan_run cvt run (Some d) (Some a))) = Some snapshot \<and>
    unat (scan_snapshot_max_ports cvt (Some snapshot) now) = m \<and>
    (\<forall>src. card (window_ports (sd_window_seconds d) now run src) \<le> m) \<and>
    (\<exists>src. card (window_ports (sd_window_seconds d) now run src) = m)"
proof -
  obtain d' later las where d': "snd (scan_run cvt run (Some d) (Some a)) = Some d'"
    "later = 0 \<or> later \<in> fst ` set run" "sd_window_seconds d' = sd_window_seconds d"
    "detector_tracks later (logs_after (\<lambda>_. []) run) las d'"
    using scan_run_tracks [OF assms(1,2) detector_tracks_create [OF assms(6)], of a] by blast
  have "later \<le> now" using d'(2) assms(3,4) by fastforce
  with d'(4) have tr: "detector_tracks now (logs_after (\<lambda>_. []) run) las d'" by (rule detector_tracks_later)
  from snapshot_max_ports [OF detector_tracks_distinct [OF tr], of now cvt] assms(4) tracked_maximum [OF assms(1) tr assms(5)]
  show ?thesis by (auto simp: d'(1,3) window_ports_log)
qed

theorem scan_snapshot_exact_witness:
  "\<exists>d snapshot m. scan_detector_create True 5 2 = Some d \<and>
     scan_detector_snapshot True
       (snd (scan_run cvt_saturating [(1000, probe_example 80)] (Some d) (Some alert_zero))) = Some snapshot \<and>
     unat (scan_snapshot_max_ports cvt_saturating (Some snapshot) 1005) = m \<and> 1 \<le> m"
proof -
  obtain d where d: "scan_detector_create True 5 2 = Some d" "sd_window_seconds d = 5"
    by (simp add: scan_detector_create_def)
  have "window_ports 5 1005 [(1000, probe_example 80)] 0x0a000009 = {80}"
    by (auto simp: window_ports_def)
  then have "card (window_ports 5 1005 [(1000, probe_example 80)] 0x0a000009) = 1" by simp
  with scan_snapshot_exact [OF aarch64.double_to_unsigned_axioms _ _ _ _ d(1), of "[(1000, probe_example 80)]" 1005 alert_zero]
  show ?thesis using d by (auto simp: clock_ok_def) (metis le_refl)
qed

text \<open>
  C25: the invariant of the detector. Whatever the packets, the clock and the allocations do, every
  reachable detector has one entry for each source and one for each port of a source, keeps its
  window and threshold, which are positive, and so never holds more than 65536 ports of a source.
\<close>

theorem scan_detector_invariant:
  assumes "detector_reachable cvt w threshold d"
  shows "distinct (map se_src_ipv4 (sd_sources d)) \<and>
    (\<forall>s \<in> set (sd_sources d). distinct (map pe_port (se_ports s)) \<and>
       unat (count_ports (se_ports s)) = length (se_ports s) \<and> length (se_ports s) \<le> 65536) \<and>
    sd_window_seconds d = (if w = 0 then 10 else w) \<and>
    sd_threshold d = (if threshold = 0 then 20 else threshold) \<and>
    0 < sd_window_seconds d \<and> 0 < sd_threshold d"
proof -
  have "\<forall>s \<in> set (sd_sources d). distinct (map pe_port (se_ports s))"
    using detector_reachable_ok [OF assms] by (simp add: detector_ok_def)
  then have "\<forall>s \<in> set (sd_sources d). distinct (map pe_port (se_ports s)) \<and>
       unat (count_ports (se_ports s)) = length (se_ports s) \<and> length (se_ports s) \<le> 65536"
    using length_distinct_ports by (simp add: card_keys)
  then show ?thesis
    using detector_reachable_ok [OF assms] by (simp add: detector_ok_def word_gt_0)
qed

theorem scan_detector_invariant_witness:
  "\<exists>d. detector_reachable cvt_wrapping 5 2 d \<and> sd_threshold d = 2"
proof -
  obtain d where d: "scan_detector_create True 5 2 = Some d" by (simp add: scan_detector_create_def)
  then have "detector_reachable cvt_wrapping 5 2 d" by (rule detector_reachable.create)
  with scan_detector_invariant [OF this] show ?thesis by auto
qed

end
