(* ===== verification/Tm1637.thy ===== *)
theory Tm1637
  imports C_Runtime
begin

text \<open>
  The TM1637 driver of \<open>src/tm1637.c\<close>. The bus is the record of callbacks of \<open>include/tm1637.h\<close>
  over a context of any type: a callback takes the context and gives its result with the new
  context. Every driver function is a state transformer on the context whose first component is
  the returned flag. The second half is the \<open>gpiod\<close> backend: the calls it makes, given the
  outcomes the library reports.
\<close>

section \<open>The bus and the driver\<close>

record 'c tm1637_bus =
  set_clk :: "'c \<Rightarrow> int \<Rightarrow> int \<times> 'c"
  set_dio :: "'c \<Rightarrow> int \<Rightarrow> int \<times> 'c"
  get_dio :: "'c \<Rightarrow> int \<times> 'c"
  delay_us :: "'c \<Rightarrow> u32 \<Rightarrow> 'c"

record 'c tm1637 =
  tm_bus :: "'c tm1637_bus"
  tm_brightness :: u32

text \<open>\<open>f && g\<close> on actions: the second runs only when the first gives true.\<close>

definition and_then :: "('c \<Rightarrow> bool \<times> 'c) \<Rightarrow> ('c \<Rightarrow> bool \<times> 'c) \<Rightarrow> 'c \<Rightarrow> bool \<times> 'c" where
  "and_then f g c = (case f c of (ok, c) \<Rightarrow> if ok then g c else (False, c))"

definition delay :: "'c tm1637 \<Rightarrow> 'c \<Rightarrow> 'c" where
  "delay display c = delay_us (tm_bus display) c 10"

definition clk :: "'c tm1637 \<Rightarrow> int \<Rightarrow> 'c \<Rightarrow> bool \<times> 'c" where
  "clk display value c =
     (case set_clk (tm_bus display) c value of
        (r, c) \<Rightarrow> if r \<noteq> 0 then (False, c) else (True, delay display c))"

definition dio :: "'c tm1637 \<Rightarrow> int \<Rightarrow> 'c \<Rightarrow> bool \<times> 'c" where
  "dio display value c =
     (case set_dio (tm_bus display) c value of
        (r, c) \<Rightarrow> if r \<noteq> 0 then (False, c) else (True, delay display c))"

definition start :: "'c tm1637 \<Rightarrow> 'c \<Rightarrow> bool \<times> 'c" where
  "start display =
     and_then (dio display 1) (and_then (clk display 1) (and_then (dio display 0) (clk display 0)))"

text \<open>No short circuit here: each line is driven even after an error.\<close>

definition stop :: "'c tm1637 \<Rightarrow> 'c \<Rightarrow> bool \<times> 'c" where
  "stop display c =
     (case clk display 0 c of (ok1, c) \<Rightarrow>
      case dio display 0 c of (ok2, c) \<Rightarrow>
      case clk display 1 c of (ok3, c) \<Rightarrow>
      case dio display 1 c of (ok4, c) \<Rightarrow> (ok4 \<and> ok3 \<and> ok2 \<and> ok1, c))"

text \<open>The bit loop, over the bit numbers that are left.\<close>

fun write_bits :: "'c tm1637 \<Rightarrow> u8 \<Rightarrow> nat list \<Rightarrow> 'c \<Rightarrow> bool \<times> 'c" where
  "write_bits display byte [] c = (True, c)"
| "write_bits display byte (k # ks) c =
     and_then (and_then (dio display (uint (drop_bit k byte AND 1)))
                (and_then (clk display 1) (clk display 0)))
       (write_bits display byte ks) c"

definition write_byte :: "'c tm1637 \<Rightarrow> u8 \<Rightarrow> 'c \<Rightarrow> bool \<times> 'c" where
  "write_byte display byte =
     and_then (write_bits display byte [0..<8])
       (and_then (and_then (dio display 1) (clk display 1))
          (\<lambda>c. case get_dio (tm_bus display) c of
                 (ack, c) \<Rightarrow> (case clk display 0 c of (ok, c) \<Rightarrow> (ok \<and> ack = 0, c))))"

fun write_bytes :: "'c tm1637 \<Rightarrow> u8 list \<Rightarrow> 'c \<Rightarrow> bool \<times> 'c" where
  "write_bytes display [] c = (True, c)"
| "write_bytes display (byte # bytes) c =
     and_then (write_byte display byte) (write_bytes display bytes) c"

definition transaction :: "'c tm1637 \<Rightarrow> u8 list \<Rightarrow> 'c \<Rightarrow> bool \<times> 'c" where
  "transaction display bytes c =
     (case and_then (start display) (write_bytes display bytes) c of
        (ok, c) \<Rightarrow> (case stop display c of (stopped, c) \<Rightarrow> (stopped \<and> ok, c)))"

text \<open>\<open>None\<close> for the bus is a \<open>NULL\<close> bus or one with a \<open>NULL\<close> callback.\<close>

definition tm1637_open_bus :: "bool \<Rightarrow> 'c tm1637_bus option \<Rightarrow> u32 \<Rightarrow> 'c tm1637 option" where
  "tm1637_open_bus alloc_ok bus brightness =
     (case bus of
        None \<Rightarrow> None
      | Some b \<Rightarrow>
          if brightness > 7 then None
          else if alloc_ok then Some \<lparr>tm_bus = b, tm_brightness = brightness\<rparr> else None)"

section \<open>Numbers and frames\<close>

definition digits :: "u8 list" where
  "digits = [0x3f, 0x06, 0x5b, 0x4f, 0x66, 0x6d, 0x7d, 0x07, 0x7f, 0x6f]"

definition tm1637_encode_number :: "u32 \<Rightarrow> u64 \<Rightarrow> u8 list" where
  "tm1637_encode_number kind value =
     (let value = (if value > 999 then 999 else value)
      in [if kind \<ge> 1 \<and> kind \<le> 3 then digits ! unat kind else 0,
          digits ! unat (value div 100),
          digits ! unat ((value div 10) mod 10),
          digits ! unat (value mod 10)])"

definition tm1637_write :: "'c tm1637 option \<Rightarrow> u8 list option \<Rightarrow> 'c \<Rightarrow> bool \<times> 'c" where
  "tm1637_write display segments c =
     (case (display, segments) of
        (Some d, Some s) \<Rightarrow>
          let bytes = 0xc0 # map (\<lambda>i. s ! i AND 0x7f) [0..<4];
              control = ucast (0x88 OR tm_brightness d)
          in and_then (transaction d [0x40])
               (and_then (transaction d bytes) (transaction d [control])) c
      | _ \<Rightarrow> (False, c))"

definition tm1637_clear :: "'c tm1637 option \<Rightarrow> 'c \<Rightarrow> bool \<times> 'c" where
  "tm1637_clear display c =
     (case tm1637_write display (Some [0, 0, 0, 0]) c of
        (ok, c) \<Rightarrow>
          (case display of
             None \<Rightarrow> (False, c)
           | Some d \<Rightarrow> (case transaction d [0x80] c of (off, c) \<Rightarrow> (off \<and> ok, c))))"

section \<open>The gpiod backend\<close>

text \<open>
  What the driver asks of \<open>libgpiod\<close>, \<open>calloc\<close> and \<open>free\<close>, in the order of the calls, and the
  outcomes they report.
\<close>

datatype gpio_line = ClkLine | DioLine

datatype gpio_call =
    AllocDriver
  | ChipOpen
  | GetLine gpio_line
  | RequestOutput gpio_line
  | ReleaseLine gpio_line
  | ChipClose
  | FreeDriver

text \<open>
  The callbacks \<open>tm1637_open\<close> installs, over the functions of \<open>libgpiod\<close> as parameters.
  \<open>nanosleep\<close> takes a duration in nanoseconds and gives its return value, \<open>errno\<close> and the time that
  was left; the sleep is repeated while it was interrupted and \<open>None\<close> is a sleep that never ends.
\<close>

record 'c gpiod =
  line_set_value :: "'c \<Rightarrow> gpio_line \<Rightarrow> int \<Rightarrow> int \<times> 'c"
  line_get_value :: "'c \<Rightarrow> gpio_line \<Rightarrow> int \<times> 'c"

abbreviation "EINTR \<equiv> (4 :: int)"

definition gpio_clk :: "'c gpiod \<Rightarrow> 'c \<Rightarrow> int \<Rightarrow> int \<times> 'c" where
  "gpio_clk lib c value = line_set_value lib c ClkLine value"

definition gpio_dio :: "'c gpiod \<Rightarrow> 'c \<Rightarrow> int \<Rightarrow> int \<times> 'c" where
  "gpio_dio lib c value = line_set_value lib c DioLine value"

definition gpio_read :: "'c gpiod \<Rightarrow> 'c \<Rightarrow> int \<times> 'c" where
  "gpio_read lib c = line_get_value lib c DioLine"

partial_function (option) sleep_on :: "('c \<Rightarrow> int \<Rightarrow> int \<times> int \<times> int \<times> 'c) \<Rightarrow> int \<Rightarrow> 'c \<Rightarrow> 'c option" where
  "sleep_on nanosleep duration c =
     (case nanosleep c duration of
        (result, errno, left, c) \<Rightarrow>
          if result \<noteq> 0 \<and> errno = EINTR then sleep_on nanosleep left c else Some c)"

definition gpio_delay :: "('c \<Rightarrow> int \<Rightarrow> int \<times> int \<times> int \<times> 'c) \<Rightarrow> 'c \<Rightarrow> u32 \<Rightarrow> 'c option" where
  "gpio_delay nanosleep c microseconds = sleep_on nanosleep (uint microseconds * 1000) c"

text \<open>The bus of \<open>tm1637_open\<close>, for a delay that returns.\<close>

definition gpio_bus :: "'c gpiod \<Rightarrow> ('c \<Rightarrow> u32 \<Rightarrow> 'c) \<Rightarrow> 'c tm1637_bus" where
  "gpio_bus lib wait =
     \<lparr>set_clk = gpio_clk lib, set_dio = gpio_dio lib, get_dio = gpio_read lib, delay_us = wait\<rparr>"

record gpio_outcomes =
  go_alloc :: bool
  go_chip_open :: bool
  go_get_line :: "gpio_line \<Rightarrow> bool"
  go_request :: "gpio_line \<Rightarrow> bool"

record tm1637_gpio =
  tg_chip :: bool
  tg_clk_requested :: bool
  tg_dio_requested :: bool

definition tm1637_close :: "tm1637_gpio option \<Rightarrow> gpio_call list" where
  "tm1637_close display =
     (case display of
        None \<Rightarrow> []
      | Some d \<Rightarrow>
          (if tg_dio_requested d then [ReleaseLine DioLine] else []) @
          (if tg_clk_requested d then [ReleaseLine ClkLine] else []) @
          (if tg_chip d then [ChipClose] else []) @
          [FreeDriver])"

text \<open>
  \<open>chip_path = None\<close> is \<open>NULL\<close>. The result is the driver or \<open>NULL\<close>, the warning text (empty on
  success) and the calls made; the \<open>goto failure\<close> is the local function \<open>failure\<close>.
\<close>

definition tm1637_open ::
  "gpio_outcomes \<Rightarrow> string option \<Rightarrow> u32 \<Rightarrow> u32 \<Rightarrow> u32 \<Rightarrow> tm1637_gpio option \<times> string \<times> gpio_call list" where
  "tm1637_open env chip_path clk_line dio_line brightness =
     (let failure = (\<lambda>message display calls. (None, message, calls @ tm1637_close display));
          message = ''TM1637 GPIO initialization failed; display disabled'';
          d0 = \<lparr>tg_chip = False, tg_clk_requested = False, tg_dio_requested = False\<rparr>;
          d1 = d0\<lparr>tg_chip := True\<rparr>;
          d2 = d1\<lparr>tg_clk_requested := True\<rparr>;
          lines = [AllocDriver, ChipOpen, GetLine ClkLine, GetLine DioLine]
      in if chip_path = None \<or> clk_line = dio_line \<or> brightness > 7
           then failure ''invalid TM1637 configuration; display disabled'' None []
         else if \<not> go_alloc env
           then failure ''failed to allocate TM1637 driver; display disabled'' None [AllocDriver]
         else if \<not> go_chip_open env then failure message (Some d0) [AllocDriver, ChipOpen]
         else if \<not> go_get_line env ClkLine \<or> \<not> go_get_line env DioLine
           then failure message (Some d1) lines
         else if \<not> go_request env ClkLine
           then failure message (Some d1) (lines @ [RequestOutput ClkLine])
         else if \<not> go_request env DioLine
           then failure message (Some d2) (lines @ [RequestOutput ClkLine, RequestOutput DioLine])
         else (Some (d2\<lparr>tg_dio_requested := True\<rparr>), '''',
               lines @ [RequestOutput ClkLine, RequestOutput DioLine]))"

end
