(* ===== verification/Tm1637_Properties.thy ===== *)
theory Tm1637_Properties
  imports Tm1637 "HOL-Library.Sublist"
begin

text \<open>
  What the driver puts on the wire. The bus here records every call and answers by an arbitrary
  function of the calls so far, which covers every bus whose answers depend on its history. A
  receiver that follows the protocol of the chip decodes the recorded calls.
\<close>

section \<open>The recording bus\<close>

datatype bus_op = SetClk int | SetDio int | GetDio | Delay u32

definition recording_bus :: "(bus_op list \<Rightarrow> int) \<Rightarrow> bus_op list tm1637_bus" where
  "recording_bus answer =
     \<lparr>set_clk = (\<lambda>ops v. (answer (ops @ [SetClk v]), ops @ [SetClk v])),
      set_dio = (\<lambda>ops v. (answer (ops @ [SetDio v]), ops @ [SetDio v])),
      get_dio = (\<lambda>ops. (answer (ops @ [GetDio]), ops @ [GetDio])),
      delay_us = (\<lambda>ops us. ops @ [Delay us])\<rparr>"

definition recorder :: "(bus_op list \<Rightarrow> int) \<Rightarrow> u32 \<Rightarrow> bus_op list tm1637" where
  "recorder answer brightness = \<lparr>tm_bus = recording_bus answer, tm_brightness = brightness\<rparr>"

lemma recorder_brightness [simp]: "tm_brightness (recorder answer b) = b"
  by (simp add: recorder_def)

lemma recorder_ops [model_simps]:
  "clk (recorder answer b) v ops =
   (if answer (ops @ [SetClk v]) \<noteq> 0 then (False, ops @ [SetClk v])
    else (True, ops @ [SetClk v, Delay 10]))"
  "dio (recorder answer b) v ops =
   (if answer (ops @ [SetDio v]) \<noteq> 0 then (False, ops @ [SetDio v])
    else (True, ops @ [SetDio v, Delay 10]))"
  "get_dio (tm_bus (recorder answer b)) ops = (answer (ops @ [GetDio]), ops @ [GetDio])"
  by (simp_all add: clk_def dio_def delay_def recorder_def recording_bus_def)

text \<open>The calls that drive or read a line.\<close>

definition line_ops :: "bus_op list \<Rightarrow> bus_op list" where
  "line_ops ops = filter (\<lambda>x. case x of Delay _ \<Rightarrow> False | _ \<Rightarrow> True) ops"

lemma line_ops_simps [simp]:
  "line_ops [] = []" "line_ops (xs @ ys) = line_ops xs @ line_ops ys"
  "line_ops (SetClk v # xs) = SetClk v # line_ops xs" "line_ops (SetDio v # xs) = SetDio v # line_ops xs"
  "line_ops (GetDio # xs) = GetDio # line_ops xs" "line_ops (Delay us # xs) = line_ops xs"
  by (simp_all add: line_ops_def)

section \<open>The receiver\<close>

text \<open>
  The receiver samples a data bit at each rising clock inside a frame, least significant bit
  first; the ninth clock is the acknowledge. Data falling while the clock is high starts a frame,
  data rising while it is high ends one. \<open>rx_ok\<close> turns false when the host does not release the
  data line for the acknowledge or reads it at another moment.
\<close>

record receiver =
  rx_clk :: bool
  rx_dio :: bool
  rx_active :: bool
  rx_bits :: nat
  rx_byte :: u8
  rx_frame :: "u8 list"
  rx_frames :: "u8 list list"
  rx_ok :: bool

fun receive :: "receiver \<Rightarrow> bus_op \<Rightarrow> receiver" where
  "receive r (SetClk v) =
     (let r' = (if rx_active r \<and> \<not> rx_clk r \<and> v \<noteq> 0
                then if rx_bits r < 8
                     then r\<lparr>rx_byte := rx_byte r OR push_bit (rx_bits r) (of_bool (rx_dio r)),
                            rx_bits := Suc (rx_bits r)\<rparr>
                     else r\<lparr>rx_frame := rx_frame r @ [rx_byte r], rx_bits := 0, rx_byte := 0,
                            rx_ok := (rx_ok r \<and> rx_dio r)\<rparr>
                else r)
      in r'\<lparr>rx_clk := (v \<noteq> 0)\<rparr>)"
| "receive r (SetDio v) =
     (let r' = (if rx_clk r \<and> rx_dio r \<and> v = 0
                then r\<lparr>rx_active := True, rx_bits := 0, rx_byte := 0, rx_frame := []\<rparr>
                else if rx_clk r \<and> \<not> rx_dio r \<and> v \<noteq> 0
                then r\<lparr>rx_active := False, rx_frames := rx_frames r @ [rx_frame r]\<rparr>
                else r)
      in r'\<lparr>rx_dio := (v \<noteq> 0)\<rparr>)"
| "receive r GetDio = r\<lparr>rx_ok := (rx_ok r \<and> rx_clk r \<and> rx_dio r)\<rparr>"
| "receive r (Delay us) = r"

definition decode :: "receiver \<Rightarrow> bus_op list \<Rightarrow> receiver" where
  "decode r ops = fold (\<lambda>x r. receive r x) ops r"

lemma decode_simps [simp]:
  "decode r [] = r" "decode r (x # xs) = decode (receive r x) xs"
  "decode r (xs @ ys) = decode (decode r xs) ys"
  by (simp_all add: decode_def)

lemma decode_line_ops: "decode r (line_ops ops) = decode r ops"
proof (induction ops arbitrary: r)
  case (Cons x ops)
  then show ?case by (cases x) simp_all
qed simp

definition idle_receiver :: "u8 list list \<Rightarrow> receiver" where
  "idle_receiver frames =
     \<lparr>rx_clk = True, rx_dio = True, rx_active = False, rx_bits = 0, rx_byte = 0, rx_frame = [],
      rx_frames = frames, rx_ok = True\<rparr>"

text \<open>Both lines high, no frame open, no violation: the bus between two transactions.\<close>

definition released :: "receiver \<Rightarrow> bool" where
  "released r \<longleftrightarrow> rx_clk r \<and> rx_dio r \<and> \<not> rx_active r \<and> rx_ok r"

section \<open>Waveforms\<close>

definition bit_wave :: "u8 \<Rightarrow> nat \<Rightarrow> bus_op list" where
  "bit_wave byte k = [SetDio (of_bool (bit byte k)), SetClk 1, SetClk 0]"

definition byte_wave :: "u8 \<Rightarrow> bus_op list" where
  "byte_wave byte = concat (map (bit_wave byte) [0..<8]) @ [SetDio 1, SetClk 1, GetDio, SetClk 0]"

definition start_wave :: "bus_op list" where
  "start_wave = [SetDio 1, SetClk 1, SetDio 0, SetClk 0]"

definition stop_wave :: "bus_op list" where
  "stop_wave = [SetClk 0, SetDio 0, SetClk 1, SetDio 1]"

text \<open>A receiver inside a frame, between two bytes.\<close>

definition between_bytes :: "receiver \<Rightarrow> bool" where
  "between_bytes r \<longleftrightarrow> rx_active r \<and> \<not> rx_clk r \<and> rx_bits r = 0 \<and> rx_byte r = 0"

lemma take_bit_next:
  fixes b :: u8
  shows "take_bit k b OR push_bit k (of_bool (bit b k)) = take_bit (Suc k) b"
  by (rule bit_word_eqI) (auto simp: bit_simps less_Suc_eq)

lemma decode_bit_waves:
  assumes "between_bytes r" "k \<le> 8"
  shows "decode r (concat (map (bit_wave b) [0..<k])) =
    r\<lparr>rx_byte := take_bit k b, rx_bits := k, rx_dio := (if k = 0 then rx_dio r else bit b (k - 1))\<rparr>"
  using assms(2)
proof (induction k)
  case 0
  then show ?case using assms(1) by (cases r) (simp add: between_bytes_def)
next
  case (Suc k)
  then show ?case
    using assms(1) by (simp add: bit_wave_def between_bytes_def take_bit_next)
qed

lemma decode_byte_wave:
  assumes "between_bytes r"
  shows "decode r (byte_wave b) = r\<lparr>rx_frame := rx_frame r @ [b], rx_dio := True\<rparr>"
  using assms decode_bit_waves [OF assms, of 8 b]
  by (cases r) (simp add: between_bytes_def byte_wave_def take_bit_word_eq_self)

lemma decode_start_wave:
  "released r \<Longrightarrow> decode r start_wave = r\<lparr>rx_clk := False, rx_dio := False, rx_active := True,
     rx_bits := 0, rx_byte := 0, rx_frame := []\<rparr>"
  by (cases r) (simp add: released_def start_wave_def)

lemma decode_stop_wave:
  "between_bytes r \<Longrightarrow> rx_ok r \<Longrightarrow>
   released (decode r stop_wave) \<and> rx_frames (decode r stop_wave) = rx_frames r @ [rx_frame r]"
  by (simp add: between_bytes_def released_def stop_wave_def)

lemma decode_byte_waves:
  assumes "between_bytes r"
  shows "between_bytes (decode r (concat (map byte_wave bytes))) \<and>
    rx_frame (decode r (concat (map byte_wave bytes))) = rx_frame r @ bytes \<and>
    rx_frames (decode r (concat (map byte_wave bytes))) = rx_frames r \<and>
    rx_ok (decode r (concat (map byte_wave bytes))) = rx_ok r"
  using assms
proof (induction bytes arbitrary: r)
  case (Cons b bytes)
  let ?r = "r\<lparr>rx_frame := rx_frame r @ [b], rx_dio := True\<rparr>"
  have "between_bytes ?r" using Cons.prems by (simp add: between_bytes_def)
  from Cons.IH [OF this] show ?case by (simp add: decode_byte_wave [OF Cons.prems])
qed simp

text \<open>A whole transaction on the wire is one frame.\<close>

lemma decode_transaction:
  assumes "released r"
  shows "released (decode r (start_wave @ concat (map byte_wave bytes) @ stop_wave)) \<and>
    rx_frames (decode r (start_wave @ concat (map byte_wave bytes) @ stop_wave)) = rx_frames r @ [bytes]"
proof -
  let ?r1 = "decode r start_wave"
  have r1: "between_bytes ?r1" "rx_frame ?r1 = []" "rx_frames ?r1 = rx_frames r" "rx_ok ?r1"
    using assms by (simp_all add: decode_start_wave between_bytes_def) (simp add: released_def)
  from decode_byte_waves [OF r1(1), of bytes] r1(2-4)
  show ?thesis using decode_stop_wave [of "decode ?r1 (concat (map byte_wave bytes))"] by simp
qed

section \<open>What the driver emits\<close>

text \<open>Every line call of \<open>new\<close>, made after \<open>ops\<close>, was answered by 0.\<close>

fun clean :: "(bus_op list \<Rightarrow> int) \<Rightarrow> bus_op list \<Rightarrow> bus_op list \<Rightarrow> bool" where
  "clean answer ops [] = True"
| "clean answer ops (x # new) =
     ((case x of Delay _ \<Rightarrow> True | _ \<Rightarrow> answer (ops @ [x]) = 0) \<and> clean answer (ops @ [x]) new)"

lemma clean_append [simp]:
  "clean answer ops (new1 @ new2) \<longleftrightarrow> clean answer ops new1 \<and> clean answer (ops @ new1) new2"
  by (induction answer ops new1 rule: clean.induct) auto

text \<open>
  An action emits a waveform when it makes the calls of the waveform up to the first bad answer
  and gives true exactly when there was none.
\<close>

definition emits :: "(bus_op list \<Rightarrow> int) \<Rightarrow> (bus_op list \<Rightarrow> bool \<times> bus_op list) \<Rightarrow> bus_op list \<Rightarrow> bool" where
  "emits answer act wave \<longleftrightarrow>
     (\<forall>ops. \<exists>ok new. act ops = (ok, ops @ new) \<and> prefix (line_ops new) wave \<and>
        ok = clean answer ops new \<and> (ok \<longrightarrow> line_ops new = wave))"

lemma emitsE:
  assumes "emits answer act wave"
  obtains ok new where "act ops = (ok, ops @ new)" "prefix (line_ops new) wave"
    "ok = clean answer ops new" "ok \<Longrightarrow> line_ops new = wave"
  using assms unfolding emits_def by blast

lemma emits_clk: "emits answer (clk (recorder answer b) v) [SetClk v]"
  by (simp add: emits_def model_simps)

lemma emits_dio: "emits answer (dio (recorder answer b) v) [SetDio v]"
  by (simp add: emits_def model_simps)

lemma emits_and_then:
  assumes f: "emits answer f w1" and g: "emits answer g w2"
  shows "emits answer (and_then f g) (w1 @ w2)"
  unfolding emits_def
proof
  fix ops
  obtain ok1 new1 where 1: "f ops = (ok1, ops @ new1)" "prefix (line_ops new1) w1"
    "ok1 = clean answer ops new1" "ok1 \<Longrightarrow> line_ops new1 = w1"
    using emitsE [OF f, of ops] by blast
  show "\<exists>ok new. and_then f g ops = (ok, ops @ new) \<and> prefix (line_ops new) (w1 @ w2) \<and>
      ok = clean answer ops new \<and> (ok \<longrightarrow> line_ops new = w1 @ w2)"
  proof (cases ok1)
    case False
    with 1 show ?thesis by (auto simp: and_then_def)
  next
    case True
    obtain ok2 new2 where "g (ops @ new1) = (ok2, (ops @ new1) @ new2)" "prefix (line_ops new2) w2"
      "ok2 = clean answer (ops @ new1) new2" "ok2 \<Longrightarrow> line_ops new2 = w2"
      using emitsE [OF g, of "ops @ new1"] by blast
    with 1 True show ?thesis by (auto simp: and_then_def intro!: exI [of _ "new1 @ new2"])
  qed
qed

lemma write_bits_Cons:
  "write_bits display byte (k # ks) =
   and_then (and_then (dio display (uint (drop_bit k byte AND 1))) (and_then (clk display 1) (clk display 0)))
     (write_bits display byte ks)"
  by (rule ext) simp

lemma write_bytes_Cons:
  "write_bytes display (byte # bytes) = and_then (write_byte display byte) (write_bytes display bytes)"
  by (rule ext) simp

lemma emits_bits:
  "emits answer (write_bits (recorder answer b) byte ks) (concat (map (bit_wave byte) ks))"
proof (induction ks)
  case Nil
  then show ?case by (auto simp: emits_def)
next
  case (Cons k ks)
  have bit: "uint (drop_bit k byte AND 1) = of_bool (bit byte k)"
    by (rule bit_eqI) (auto simp: bit_simps)
  have "emits answer
      (and_then (and_then (dio (recorder answer b) (uint (drop_bit k byte AND 1)))
        (and_then (clk (recorder answer b) 1) (clk (recorder answer b) 0)))
        (write_bits (recorder answer b) byte ks))
      (([SetDio (uint (drop_bit k byte AND 1))] @ [SetClk 1] @ [SetClk 0]) @ concat (map (bit_wave byte) ks))"
    by (intro emits_and_then emits_clk emits_dio Cons.IH)
  then show ?case
    unfolding write_bits_Cons bit by (simp only: list.map concat.simps bit_wave_def [of byte k] append.simps)
qed

lemma emits_byte: "emits answer (write_byte (recorder answer b) byte) (byte_wave byte)"
proof -
  have "emits answer (\<lambda>c. case get_dio (tm_bus (recorder answer b)) c of
      (ack, c) \<Rightarrow> (case clk (recorder answer b) 0 c of (ok, c) \<Rightarrow> (ok \<and> ack = 0, c)))
      [GetDio, SetClk 0]"
    by (auto simp: emits_def model_simps)
  then have "emits answer (write_byte (recorder answer b) byte)
      (concat (map (bit_wave byte) [0..<8]) @ ([SetDio 1] @ [SetClk 1]) @ [GetDio, SetClk 0])"
    unfolding write_byte_def by (intro emits_and_then emits_bits emits_clk emits_dio)
  then show ?thesis by (simp add: byte_wave_def)
qed

lemma emits_bytes:
  "emits answer (write_bytes (recorder answer b) bytes) (concat (map byte_wave bytes))"
proof (induction bytes)
  case Nil
  then show ?case by (auto simp: emits_def)
next
  case (Cons byte bytes)
  then have "emits answer (and_then (write_byte (recorder answer b) byte) (write_bytes (recorder answer b) bytes))
      (byte_wave byte @ concat (map byte_wave bytes))"
    by (intro emits_and_then emits_byte)
  then show ?case unfolding write_bytes_Cons by simp
qed

lemma emits_start: "emits answer (start (recorder answer b)) start_wave"
proof -
  have "emits answer (start (recorder answer b)) ([SetDio 1] @ [SetClk 1] @ [SetDio 0] @ [SetClk 0])"
    unfolding start_def by (intro emits_and_then emits_clk emits_dio)
  then show ?thesis by (simp add: start_wave_def)
qed

text \<open>The calls of one line operation: the operation and, unless it failed, the delay.\<close>

definition line_step :: "(bus_op list \<Rightarrow> int) \<Rightarrow> bus_op \<Rightarrow> bus_op list \<Rightarrow> bus_op list" where
  "line_step answer x ops = x # (if answer (ops @ [x]) = 0 then [Delay 10] else [])"

lemma line_step_calls:
  "clk (recorder answer b) v ops =
     (clean answer ops (line_step answer (SetClk v) ops), ops @ line_step answer (SetClk v) ops)"
  "dio (recorder answer b) v ops =
     (clean answer ops (line_step answer (SetDio v) ops), ops @ line_step answer (SetDio v) ops)"
  "line_ops (line_step answer (SetClk v) ops) = [SetClk v]"
  "line_ops (line_step answer (SetDio v) ops) = [SetDio v]"
  by (simp_all add: model_simps line_step_def)

lemma stop_calls:
  "\<exists>new. stop (recorder answer b) ops = (clean answer ops new, ops @ new) \<and> line_ops new = stop_wave"
proof -
  define n1 where "n1 = line_step answer (SetClk 0) ops"
  define n2 where "n2 = line_step answer (SetDio 0) (ops @ n1)"
  define n3 where "n3 = line_step answer (SetClk 1) (ops @ n1 @ n2)"
  define n4 where "n4 = line_step answer (SetDio 1) (ops @ n1 @ n2 @ n3)"
  have "stop (recorder answer b) ops = (clean answer ops (n1 @ n2 @ n3 @ n4), ops @ n1 @ n2 @ n3 @ n4)"
    by (simp add: stop_def line_step_calls(1,2) n1_def [symmetric] n2_def [symmetric]
        n3_def [symmetric] n4_def [symmetric]) blast
  moreover have "line_ops (n1 @ n2 @ n3 @ n4) = stop_wave"
    by (simp add: n1_def n2_def n3_def n4_def line_step_calls stop_wave_def)
  ultimately show ?thesis by blast
qed

lemma transaction_calls:
  "\<exists>new sent. transaction (recorder answer b) bytes ops = (clean answer ops new, ops @ new) \<and>
     line_ops new = sent @ stop_wave \<and> prefix sent (start_wave @ concat (map byte_wave bytes)) \<and>
     (clean answer ops new \<longrightarrow> sent = start_wave @ concat (map byte_wave bytes))"
proof -
  have "emits answer (and_then (start (recorder answer b)) (write_bytes (recorder answer b) bytes))
      (start_wave @ concat (map byte_wave bytes))"
    by (intro emits_and_then emits_start emits_bytes)
  then obtain ok new where body:
    "and_then (start (recorder answer b)) (write_bytes (recorder answer b) bytes) ops = (ok, ops @ new)"
    "prefix (line_ops new) (start_wave @ concat (map byte_wave bytes))" "ok = clean answer ops new"
    "ok \<Longrightarrow> line_ops new = start_wave @ concat (map byte_wave bytes)"
    using emitsE [of answer _ _ ops] by blast
  obtain new2 where "stop (recorder answer b) (ops @ new) = (clean answer (ops @ new) new2, (ops @ new) @ new2)"
    "line_ops new2 = stop_wave"
    using stop_calls by blast
  with body show ?thesis
    by (intro exI [of _ "new @ new2"] exI [of _ "line_ops new"]) (auto simp: transaction_def)
qed

section \<open>A bus whose lines work\<close>

text \<open>Driving a line never fails; the acknowledge bits are arbitrary.\<close>

definition lines_work :: "(bus_op list \<Rightarrow> int) \<Rightarrow> bool" where
  "lines_work answer \<longleftrightarrow> (\<forall>ops v. answer (ops @ [SetClk v]) = 0 \<and> answer (ops @ [SetDio v]) = 0)"

text \<open>An action that makes all calls of a waveform whatever is acknowledged.\<close>

definition drives :: "(bus_op list \<Rightarrow> int) \<Rightarrow> (bus_op list \<Rightarrow> bool \<times> bus_op list) \<Rightarrow> bus_op list \<Rightarrow> bool" where
  "drives answer act wave \<longleftrightarrow>
     (\<forall>ops. \<exists>new. act ops = (clean answer ops new, ops @ new) \<and> line_ops new = wave)"

lemma clean_without_reads:
  assumes "lines_work answer" "GetDio \<notin> set new"
  shows "clean answer ops new"
  using assms(2)
proof (induction new arbitrary: ops)
  case (Cons x new)
  then show ?case using assms(1) by (cases x) (auto simp: lines_work_def)
qed simp

lemma GetDio_line_ops: "GetDio \<in> set (line_ops new) \<longleftrightarrow> GetDio \<in> set new"
  by (auto simp: line_ops_def)

lemma prefix_without_reads:
  "prefix (line_ops new) wave \<Longrightarrow> GetDio \<notin> set wave \<Longrightarrow> GetDio \<notin> set new"
  using GetDio_line_ops set_mono_prefix by fast

lemma emits_total:
  assumes "lines_work answer" "emits answer act wave" "GetDio \<notin> set wave"
  shows "\<exists>new. act ops = (True, ops @ new) \<and> clean answer ops new \<and> line_ops new = wave"
proof -
  obtain ok new where "act ops = (ok, ops @ new)" "prefix (line_ops new) wave"
    "ok = clean answer ops new" "ok \<Longrightarrow> line_ops new = wave"
    using emitsE [OF assms(2), of ops] by blast
  with clean_without_reads [OF assms(1) prefix_without_reads [OF _ assms(3)]] show ?thesis by auto
qed

lemma drives_byte:
  assumes "lines_work answer"
  shows "drives answer (write_byte (recorder answer b) byte) (byte_wave byte)"
  unfolding drives_def
proof
  fix ops
  have "emits answer (and_then (write_bits (recorder answer b) byte [0..<8])
      (and_then (dio (recorder answer b) 1) (clk (recorder answer b) 1)))
      (concat (map (bit_wave byte) [0..<8]) @ [SetDio 1] @ [SetClk 1])"
    by (intro emits_and_then emits_bits emits_clk emits_dio)
  from emits_total [OF assms this, of ops] obtain new where new:
    "and_then (write_bits (recorder answer b) byte [0..<8])
      (and_then (dio (recorder answer b) 1) (clk (recorder answer b) 1)) ops = (True, ops @ new)"
    "clean answer ops new" "line_ops new = concat (map (bit_wave byte) [0..<8]) @ [SetDio 1, SetClk 1]"
    by (auto simp: bit_wave_def)
  have "write_byte (recorder answer b) byte ops =
      (case get_dio (tm_bus (recorder answer b)) (ops @ new) of
        (ack, c) \<Rightarrow> (case clk (recorder answer b) 0 c of (ok, c) \<Rightarrow> (ok \<and> ack = 0, c)))"
    using new(1) by (auto simp: write_byte_def and_then_def split: prod.splits if_splits)
  also have "\<dots> = (clean answer ops (new @ [GetDio, SetClk 0, Delay 10]), ops @ new @ [GetDio, SetClk 0, Delay 10])"
    using assms new(2) by (auto simp: model_simps lines_work_def) (metis append.assoc append_Cons append_Nil)+
  finally show "\<exists>new. write_byte (recorder answer b) byte ops = (clean answer ops new, ops @ new) \<and>
      line_ops new = byte_wave byte"
    using new(3) by (intro exI [of _ "new @ [GetDio, SetClk 0, Delay 10]"]) (simp add: byte_wave_def)
qed

lemma write_bytes_calls:
  assumes "lines_work answer"
  shows "\<exists>new n. write_bytes (recorder answer b) bytes ops = (clean answer ops new, ops @ new) \<and>
    line_ops new = concat (map byte_wave (take n bytes)) \<and> n \<le> length bytes \<and>
    (clean answer ops new \<longrightarrow> n = length bytes)"
proof (induction bytes arbitrary: ops)
  case Nil
  then show ?case by (intro exI [of _ "[]"]) simp
next
  case (Cons byte bytes)
  obtain new1 where 1: "write_byte (recorder answer b) byte ops = (clean answer ops new1, ops @ new1)"
    "line_ops new1 = byte_wave byte"
    using drives_byte [OF assms, of b byte] unfolding drives_def by blast
  show ?case
  proof (cases "clean answer ops new1")
    case False
    with 1 show ?thesis
      by (intro exI [of _ new1] exI [of _ 1]) (simp add: and_then_def)
  next
    case True
    obtain new2 n where "write_bytes (recorder answer b) bytes (ops @ new1) =
        (clean answer (ops @ new1) new2, (ops @ new1) @ new2)"
      "line_ops new2 = concat (map byte_wave (take n bytes))" "n \<le> length bytes"
      "clean answer (ops @ new1) new2 \<longrightarrow> n = length bytes"
      using Cons.IH [of "ops @ new1"] by blast
    with 1 True show ?thesis
      by (intro exI [of _ "new1 @ new2"] exI [of _ "Suc n"]) (simp add: and_then_def)
  qed
qed

text \<open>One transaction is one frame: all bytes, or those up to the one that was not acknowledged.\<close>

lemma transaction_frame:
  assumes "lines_work answer" "released r"
  shows "\<exists>new n. transaction (recorder answer b) bytes ops = (clean answer ops new, ops @ new) \<and>
    (clean answer ops new \<longrightarrow> n = length bytes) \<and> n \<le> length bytes \<and>
    released (decode r new) \<and> rx_frames (decode r new) = rx_frames r @ [take n bytes]"
proof -
  obtain new1 where 1: "start (recorder answer b) ops = (True, ops @ new1)" "clean answer ops new1"
    "line_ops new1 = start_wave"
    using emits_total [OF assms(1) emits_start, of b ops] by (auto simp: start_wave_def)
  obtain new2 n where 2: "write_bytes (recorder answer b) bytes (ops @ new1) =
      (clean answer (ops @ new1) new2, (ops @ new1) @ new2)"
    "line_ops new2 = concat (map byte_wave (take n bytes))" "n \<le> length bytes"
    "clean answer (ops @ new1) new2 \<longrightarrow> n = length bytes"
    using write_bytes_calls [OF assms(1), of b bytes "ops @ new1"] by blast
  obtain new3 where 3: "stop (recorder answer b) (ops @ new1 @ new2) =
      (clean answer (ops @ new1 @ new2) new3, (ops @ new1 @ new2) @ new3)" "line_ops new3 = stop_wave"
    using stop_calls by blast
  have "transaction (recorder answer b) bytes ops =
      (clean answer ops (new1 @ new2 @ new3), ops @ new1 @ new2 @ new3)"
    using 1 2(1) 3(1) by (auto simp: transaction_def and_then_def)
  moreover have "decode r (new1 @ new2 @ new3) =
      decode r (start_wave @ concat (map byte_wave (take n bytes)) @ stop_wave)"
    by (simp flip: decode_line_ops [of _ new1] decode_line_ops [of _ new2] decode_line_ops [of _ new3]
        add: 1(3) 2(2) 3(2))
  ultimately show ?thesis
    using decode_transaction [OF assms(2), of "take n bytes"] 1(2) 2(3,4)
    by (intro exI [of _ "new1 @ new2 @ new3"] exI [of _ n]) simp
qed

section \<open>The gpiod backend\<close>

text \<open>
  What a trace of calls holds, the newest first. Releasing something that is not held is a fault.
\<close>

datatype gpio_resource = HeldDriver | HeldChip | HeldLine gpio_line

definition give_back :: "gpio_resource \<Rightarrow> gpio_resource list \<Rightarrow> gpio_resource list option" where
  "give_back x held = (if x \<in> set held then Some (remove1 x held) else None)"

fun holds :: "gpio_outcomes \<Rightarrow> gpio_resource list \<Rightarrow> gpio_call list \<Rightarrow> gpio_resource list option" where
  "holds env held [] = Some held"
| "holds env held (AllocDriver # calls) =
     holds env (if go_alloc env then HeldDriver # held else held) calls"
| "holds env held (ChipOpen # calls) =
     holds env (if go_chip_open env then HeldChip # held else held) calls"
| "holds env held (GetLine l # calls) = holds env held calls"
| "holds env held (RequestOutput l # calls) =
     holds env (if go_request env l then HeldLine l # held else held) calls"
| "holds env held (ReleaseLine l # calls) =
     Option.bind (give_back (HeldLine l) held) (\<lambda>held. holds env held calls)"
| "holds env held (ChipClose # calls) =
     Option.bind (give_back HeldChip held) (\<lambda>held. holds env held calls)"
| "holds env held (FreeDriver # calls) =
     Option.bind (give_back HeldDriver held) (\<lambda>held. holds env held calls)"

section \<open>Whole writes\<close>

lemma write_frames:
  assumes "lines_work answer" "released r"
  shows "\<exists>ok new fs. tm1637_write (Some (recorder answer b)) (Some segments) ops = (ok, ops @ new) \<and>
    released (decode r new) \<and> rx_frames (decode r new) = rx_frames r @ fs \<and>
    ok = clean answer ops new \<and>
    (ok \<longrightarrow> fs = [[0x40], 0xc0 # map (\<lambda>i. segments ! i AND 0x7f) [0..<4], [ucast (0x88 OR b)]])"
proof -
  let ?data = "0xc0 # map (\<lambda>i. segments ! i AND 0x7f) [0..<4]"
  let ?control = "[ucast (0x88 OR b)] :: u8 list"
  obtain x1 m1 where 1: "transaction (recorder answer b) [0x40] ops = (clean answer ops x1, ops @ x1)"
    "clean answer ops x1 \<longrightarrow> m1 = length [0x40 :: u8]" "released (decode r x1)"
    "rx_frames (decode r x1) = rx_frames r @ [take m1 [0x40]]"
    using transaction_frame [OF assms, of b "[0x40]" ops] by blast
  obtain x2 m2 where 2: "transaction (recorder answer b) ?data (ops @ x1) =
      (clean answer (ops @ x1) x2, (ops @ x1) @ x2)"
    "clean answer (ops @ x1) x2 \<longrightarrow> m2 = length ?data" "released (decode (decode r x1) x2)"
    "rx_frames (decode (decode r x1) x2) = rx_frames (decode r x1) @ [take m2 ?data]"
    using transaction_frame [OF assms(1) 1(3), of b ?data "ops @ x1"] by blast
  obtain x3 m3 where 3: "transaction (recorder answer b) ?control (ops @ x1 @ x2) =
      (clean answer (ops @ x1 @ x2) x3, (ops @ x1 @ x2) @ x3)"
    "clean answer (ops @ x1 @ x2) x3 \<longrightarrow> m3 = length ?control"
    "released (decode (decode (decode r x1) x2) x3)"
    "rx_frames (decode (decode (decode r x1) x2) x3) =
       rx_frames (decode (decode r x1) x2) @ [take m3 ?control]"
    using transaction_frame [OF assms(1) 2(3), of b ?control "ops @ x1 @ x2"] by blast
  have "write": "tm1637_write (Some (recorder answer b)) (Some segments) ops =
      and_then (transaction (recorder answer b) [0x40])
        (and_then (transaction (recorder answer b) ?data) (transaction (recorder answer b) ?control)) ops"
    by (simp only: tm1637_write_def option.case prod.case Let_def recorder_brightness)
  consider (first) "\<not> clean answer ops x1"
    | (second) "clean answer ops x1" "\<not> clean answer (ops @ x1) x2"
    | (third) "clean answer ops x1" "clean answer (ops @ x1) x2" by blast
  then show ?thesis
  proof cases
    case first
    with 1 show ?thesis unfolding "write"
      by (intro exI [of _ False] exI [of _ x1] exI [of _ "[take m1 [0x40]]"]) (simp add: and_then_def)
  next
    case second
    with 1 2 show ?thesis unfolding "write"
      by (intro exI [of _ False] exI [of _ "x1 @ x2"] exI [of _ "[take m1 [0x40], take m2 ?data]"])
        (simp add: and_then_def)
  next
    case third
    with 1 2 3 show ?thesis unfolding "write"
      by (intro exI [of _ "clean answer (ops @ x1 @ x2) x3"] exI [of _ "x1 @ x2 @ x3"]
            exI [of _ "[take m1 [0x40], take m2 ?data, take m3 ?control]"])
        (auto simp: and_then_def)
  qed
qed

lemma clean_zero: "clean (\<lambda>_. 0) ops new"
proof (induction new arbitrary: ops)
  case (Cons x new)
  then show ?case by (cases x) simp_all
qed simp

lemma idle_released: "released (idle_receiver frames)" "rx_frames (idle_receiver frames) = frames"
  by (simp_all add: idle_receiver_def released_def)

section \<open>Digits\<close>

definition shown_digit :: "u8 \<Rightarrow> nat option" where
  "shown_digit s = (if s \<in> set digits then Some (length (takeWhile (\<lambda>d. d \<noteq> s) digits)) else None)"

lemma shown_digit_digits:
  "n < 10 \<Longrightarrow> shown_digit (digits ! n) = Some n \<and> digits ! n AND 0x7f = digits ! n"
proof -
  assume "n < 10"
  then have "n = 0 \<or> n = 1 \<or> n = 2 \<or> n = 3 \<or> n = 4 \<or> n = 5 \<or> n = 6 \<or> n = 7 \<or> n = 8 \<or> n = 9"
    by presburger
  then show ?thesis by (elim disjE) (simp_all add: shown_digit_def digits_def)
qed

lemma decimal_sum: "100 * (n div 100) + 10 * (n div 10 mod 10) + n mod 10 = (n :: nat)"
proof -
  have "n div 100 = n div 10 div 10" by (simp flip: div_mult2_eq)
  then show ?thesis
    using div_mult_mod_eq [of "n div 10" 10] div_mult_mod_eq [of n 10] by linarith
qed

lemma encode_digits:
  "\<exists>k h t u. tm1637_encode_number kind value = [k, digits ! h, digits ! t, digits ! u] \<and>
     h < 10 \<and> t < 10 \<and> u < 10 \<and> 100 * h + 10 * t + u = min (unat value) 999 \<and>
     shown_digit (digits ! h) = Some h \<and> shown_digit (digits ! t) = Some t \<and>
     shown_digit (digits ! u) = Some u \<and>
     shown_digit k = (if 1 \<le> kind \<and> kind \<le> 3 then Some (unat kind) else None) \<and>
     map (\<lambda>s. s AND 0x7f) (tm1637_encode_number kind value) = tm1637_encode_number kind value"
proof -
  let ?v = "if value > 999 then 999 else value"
  let ?n = "unat ?v"
  have n: "?n = min (unat value) 999" by (simp add: word_less_nat_alt)
  have dig: "unat (?v div 100) = ?n div 100" "unat ((?v div 10) mod 10) = (?n div 10) mod 10"
    "unat (?v mod 10) = ?n mod 10"
    by (simp_all add: unat_div unat_mod)
  have lt: "?n div 100 < 10" "(?n div 10) mod 10 < 10" "?n mod 10 < 10" using n by auto
  have sum: "100 * (?n div 100) + 10 * ((?n div 10) mod 10) + ?n mod 10 = ?n"
    by (rule decimal_sum)
  let ?k = "if kind \<ge> 1 \<and> kind \<le> 3 then digits ! unat kind else 0"
  have k: "shown_digit ?k = (if 1 \<le> kind \<and> kind \<le> 3 then Some (unat kind) else None) \<and> ?k AND 0x7f = ?k"
  proof (cases "kind \<ge> 1 \<and> kind \<le> 3")
    case True
    then have "unat kind < 10" by (auto simp: word_le_nat_alt)
    with True shown_digit_digits show ?thesis by simp
  next
    case False
    have "shown_digit 0 = None" by (simp add: shown_digit_def digits_def)
    with False show ?thesis by auto
  qed
  have enc: "tm1637_encode_number kind value =
      [?k, digits ! (?n div 100), digits ! ((?n div 10) mod 10), digits ! (?n mod 10)]"
    unfolding tm1637_encode_number_def Let_def by (simp only: dig)
  note d = shown_digit_digits [OF lt(1)] shown_digit_digits [OF lt(2)] shown_digit_digits [OF lt(3)]
  have "map (\<lambda>s. s AND 0x7f) (tm1637_encode_number kind value) = tm1637_encode_number kind value"
    unfolding enc list.map using k d by simp
  with enc lt sum n k d show ?thesis by metis
qed

text \<open>
  The delay returns after exactly the time asked for when \<open>nanosleep\<close> works as documented: an
  interrupted call slept for a while and says what is left. The context counts the time slept.
\<close>

lemma sleep_on_exact:
  fixes nanosleep :: "int \<Rightarrow> int \<Rightarrow> int \<times> int \<times> int \<times> int" and duration slept :: int
  assumes "\<And>slept duration. 0 < duration \<Longrightarrow> \<exists>result errno left.
      nanosleep slept duration = (result, errno, left, slept + (duration - left)) \<and>
      0 \<le> left \<and> left < duration \<and> (if result \<noteq> 0 \<and> errno = EINTR then 0 < left else left = 0)"
    and "0 < duration"
  shows "sleep_on nanosleep duration slept = Some (slept + duration)"
  using assms(2)
proof (induction "nat duration" arbitrary: duration slept rule: less_induct)
  case less
  obtain result errno left where call:
    "nanosleep slept duration = (result, errno, left, slept + (duration - left))"
    "0 \<le> left" "left < duration" "if result \<noteq> 0 \<and> errno = EINTR then 0 < left else left = 0"
    using assms(1) [OF less.prems] by blast
  show ?case
  proof (cases "result \<noteq> 0 \<and> errno = EINTR")
    case True
    with less.hyps [of left] call less.prems
    have "sleep_on nanosleep left (slept + (duration - left)) = Some (slept + (duration - left) + left)" by simp
    with True call(1) show ?thesis by (subst sleep_on.simps) simp
  next
    case False
    with call show ?thesis by (subst sleep_on.simps) auto
  qed
qed

text \<open>
  Switching off: when the lines can be driven, \<open>tm1637_clear\<close> always sends the display-off
  command \<open>0x80\<close> as its last frame, also when the chip refused a part of the blank digits before;
  it returns true exactly when nothing was refused, and it leaves the bus released.
\<close>

lemma tm1637_clear_switches_off:
  assumes "lines_work answer" and "released r"
  shows "\<exists>ok new fs n. tm1637_clear (Some (recorder answer b)) ops = (ok, ops @ new) \<and>
    ok = clean answer ops new \<and> released (decode r new) \<and>
    rx_frames (decode r new) = rx_frames r @ fs @ [take n [0x80]] \<and>
    (ok \<longrightarrow> fs = [[0x40], [0xc0, 0, 0, 0, 0], [ucast (0x88 OR b)]] \<and> n = 1)"
proof -
  obtain ok1 x1 fs where 1:
    "tm1637_write (Some (recorder answer b)) (Some [0, 0, 0, 0]) ops = (ok1, ops @ x1)"
    "released (decode r x1)" "rx_frames (decode r x1) = rx_frames r @ fs" "ok1 = clean answer ops x1"
    "ok1 \<longrightarrow> fs = [[0x40], 0xc0 # map (\<lambda>i. [0, 0, 0, 0] ! i AND 0x7f) [0..<4], [ucast (0x88 OR b)]]"
    using write_frames [OF assms, of b "[0, 0, 0, 0]" ops] by blast
  obtain x2 n where 2: "transaction (recorder answer b) [0x80] (ops @ x1) =
      (clean answer (ops @ x1) x2, (ops @ x1) @ x2)"
    "clean answer (ops @ x1) x2 \<longrightarrow> n = length [0x80 :: u8]" "released (decode (decode r x1) x2)"
    "rx_frames (decode (decode r x1) x2) = rx_frames (decode r x1) @ [take n [0x80]]"
    using transaction_frame [OF assms(1) 1(2), of b "[0x80]" "ops @ x1"] by blast
  show ?thesis
    using 1 2 by (intro exI [of _ "clean answer ops (x1 @ x2)"] exI [of _ "x1 @ x2"] exI [of _ fs] exI [of _ n])
      (auto simp: tm1637_clear_def upt_conv_Cons)
qed

section \<open>Properties\<close>

text \<open>
  C9: the wire protocol. On a bus that answers 0 throughout, \<open>tm1637_write\<close> returns true and a
  receiver of the chip's protocol has decoded exactly three frames: the data command \<open>0x40\<close>, the
  address command \<open>0xc0\<close> with the four segment bytes (bit 7 cleared, as the colon is not used), and
  the display control \<open>0x88 | brightness\<close>. Every acknowledge slot was left to the chip, and both
  lines are released at the end.
\<close>

theorem tm1637_write_frames:
  "\<exists>new. tm1637_write (Some (recorder (\<lambda>_. 0) brightness)) (Some segments) ops = (True, ops @ new) \<and>
     rx_frames (decode (idle_receiver frames) new) =
       frames @ [[0x40], 0xc0 # map (\<lambda>i. segments ! i AND 0x7f) [0..<4], [ucast (0x88 OR brightness)]] \<and>
     released (decode (idle_receiver frames) new)"
proof -
  have "lines_work (\<lambda>_. 0)" by (simp add: lines_work_def)
  from write_frames [OF this idle_released(1), of brightness segments ops frames]
  show ?thesis by (auto simp: clean_zero idle_released)
qed

text \<open>
  C24: errors never leave the bus half driven. Whatever each call answers, a transaction ends by
  driving clock low, data low, clock high, data high, skipping none of the four; before that it has
  made the calls of the full waveform up to the first error, and it returns true exactly when every
  call succeeded and every byte was acknowledged.
\<close>

theorem tm1637_transaction_stops:
  "\<exists>new sent. transaction (recorder answer b) bytes ops = (clean answer ops new, ops @ new) \<and>
     line_ops new = sent @ [SetClk 0, SetDio 0, SetClk 1, SetDio 1] \<and>
     (if clean answer ops new then sent = start_wave @ concat (map byte_wave bytes)
      else prefix sent (start_wave @ concat (map byte_wave bytes)))"
  using transaction_calls [of answer b bytes ops] by (auto simp: stop_wave_def)

text \<open>
  C39: the digits. The four segment bytes show the event type (blank unless 1, 2 or 3) and the three
  decimal digits of the value, saturated at 999; no byte uses bit 7, so nothing is lost by the mask
  of \<open>tm1637_write\<close>.
\<close>

theorem tm1637_encode_digits:
  "\<exists>k h t u. tm1637_encode_number kind value = [k, digits ! h, digits ! t, digits ! u] \<and>
     h < 10 \<and> t < 10 \<and> u < 10 \<and> 100 * h + 10 * t + u = min (unat value) 999 \<and>
     shown_digit (digits ! h) = Some h \<and> shown_digit (digits ! t) = Some t \<and>
     shown_digit (digits ! u) = Some u \<and>
     shown_digit k = (if 1 \<le> kind \<and> kind \<le> 3 then Some (unat kind) else None) \<and>
     map (\<lambda>s. s AND 0x7f) (tm1637_encode_number kind value) = tm1637_encode_number kind value"
  by (rule encode_digits)

text \<open>
  C40: the backend neither leaks nor releases twice. Whatever \<open>libgpiod\<close> and \<open>calloc\<close> report,
  \<open>tm1637_open\<close> either returns no driver, gives a warning and holds nothing any more, or returns a
  driver without a warning that holds the chip and both lines, and \<open>tm1637_close\<close> then gives back
  exactly these.
\<close>

theorem tm1637_open_close_balanced:
  "case tm1637_open env chip_path clk_line dio_line brightness of
     (None, warning, calls) \<Rightarrow> warning \<noteq> [] \<and> holds env [] calls = Some []
   | (Some d, warning, calls) \<Rightarrow>
       warning = [] \<and> chip_path \<noteq> None \<and> clk_line \<noteq> dio_line \<and> brightness \<le> 7 \<and>
       holds env [] calls = Some [HeldLine DioLine, HeldLine ClkLine, HeldChip, HeldDriver] \<and>
       holds env [] (calls @ tm1637_close (Some d)) = Some []"
proof (cases "chip_path = None \<or> clk_line = dio_line \<or> brightness > 7")
  case True
  then show ?thesis by (simp add: tm1637_open_def tm1637_close_def Let_def)
next
  case False
  then obtain path where "chip_path = Some path" "clk_line \<noteq> dio_line" "\<not> brightness > 7" by auto
  then show ?thesis
    by (cases "go_alloc env"; cases "go_chip_open env"; cases "go_get_line env ClkLine";
        cases "go_get_line env DioLine"; cases "go_request env ClkLine"; cases "go_request env DioLine";
        simp add: tm1637_open_def tm1637_close_def give_back_def not_less Let_def)
qed

end
