(* ===== verification/Bounded_Fifo.thy ===== *)
theory Bounded_Fifo
  imports Prelude
begin

text \<open>
  The interface of a bounded queue between a producer and a consumer: pushing appends unless the
  queue is full, when the element is dropped; popping takes the oldest element. The client lemmas
  follow the elements through any sequence of operations.
\<close>

datatype 'a fifo_op = Push 'a | Pop

locale bounded_fifo =
  fixes contents :: "'q \<Rightarrow> 'a list" and fifo_ok :: "'q \<Rightarrow> bool" and capacity :: nat
    and push :: "'a \<Rightarrow> 'q \<Rightarrow> 'q" and pop :: "'q \<Rightarrow> ('a \<times> 'q) option"
  assumes fifo_bounded: "fifo_ok q \<Longrightarrow> length (contents q) \<le> capacity"
    and push_ok: "fifo_ok q \<Longrightarrow> fifo_ok (push x q)"
    and push_contents: "fifo_ok q \<Longrightarrow>
      contents (push x q) = (if length (contents q) < capacity then contents q @ [x] else contents q)"
    and pop_None: "fifo_ok q \<Longrightarrow> pop q = None \<longleftrightarrow> contents q = []"
    and pop_Some: "fifo_ok q \<Longrightarrow> pop q = Some (x, q') \<Longrightarrow> fifo_ok q' \<and> contents q = x # contents q'"
begin

text \<open>The queue, what was accepted and what was delivered, after a sequence of operations.\<close>

fun history :: "'a fifo_op list \<Rightarrow> 'q \<Rightarrow> 'q \<times> 'a list \<times> 'a list" where
  "history [] q = (q, [], [])"
| "history (Push x # rest) q =
     (case history rest (push x q) of
        (q', accepted, delivered) \<Rightarrow>
          (q', (if length (contents q) < capacity then [x] else []) @ accepted, delivered))"
| "history (Pop # rest) q =
     (case pop q of
        None \<Rightarrow> history rest q
      | Some (x, q1) \<Rightarrow>
          (case history rest q1 of (q', accepted, delivered) \<Rightarrow> (q', accepted, x # delivered)))"

text \<open>Nothing that was accepted is lost, duplicated or reordered.\<close>

lemma history_conserves:
  "fifo_ok q \<Longrightarrow> history steps q = (q', accepted, delivered) \<Longrightarrow>
   fifo_ok q' \<and> contents q @ accepted = delivered @ contents q'"
proof (induction steps q arbitrary: q' accepted delivered rule: history.induct)
  case (1 q)
  then show ?case by simp
next
  case (2 x rest q)
  obtain a where "history rest (push x q) = (q', a, delivered)"
    "accepted = (if length (contents q) < capacity then [x] else []) @ a"
    using 2(3) by (auto split: prod.splits)
  with 2(1) [OF push_ok [OF 2(2)] this(1)] show ?case
    by (auto simp: push_contents [OF 2(2)] split: if_splits)
next
  case (3 rest q)
  show ?case
  proof (cases "pop q")
    case None
    with 3 show ?thesis by simp
  next
    case (Some p)
    obtain x q1 where p: "p = (x, q1)" by fastforce
    from pop_Some [OF 3(3)] Some p have q1: "fifo_ok q1" "contents q = x # contents q1" by auto
    obtain d where "history rest q1 = (q', accepted, d)" "delivered = x # d"
      using 3(4) Some p by (auto split: prod.splits)
    with 3(2) [OF Some p [symmetric] q1(1)] q1 Some p show ?thesis by auto
  qed
qed

end

end
