(* ===== verification/Gpio_Led.thy ===== *)
theory Gpio_Led
  imports Bounded_Fifo Events
begin

text \<open>
  The LED controller of \<open>src/gpio_led.c\<close>, built with \<open>ENABLE_GPIO\<close>: the ring buffer of pending
  actions, the patterns, the worker thread and the acquisition and release of its resources.
  Everything the code does to its surroundings is a value of \<open>led_call\<close>; the outcomes of the
  fallible calls are a record.
\<close>

section \<open>State\<close>

definition queue_capacity :: u64 where
  "queue_capacity = 32"

record led_queue =
  lq_slots :: "led_action list"
  lq_head :: u64
  lq_tail :: u64
  lq_count :: u64

record led_controller =
  lc_requested :: bool
  lc_available :: bool
  lc_running :: bool
  lc_chip :: bool
  lc_line :: bool
  lc_queue :: led_queue

datatype led_call =
    LedAlloc
  | LedChipOpen
  | LedGetLine
  | LedRequest
  | LedRelease
  | LedChipClose
  | LedMutexInit
  | LedMutexDestroy
  | LedCondInit
  | LedCondDestroy
  | LedThreadCreate
  | LedThreadJoin
  | LedFree
  | LedSet int
  | LedSleep u32

record led_outcomes =
  lo_alloc :: bool
  lo_chip_open :: bool
  lo_get_line :: bool
  lo_request :: bool
  lo_mutex_init :: bool
  lo_cond_init :: bool
  lo_thread_create :: bool

section \<open>Warnings and patterns\<close>

text \<open>The buffer is \<open>None\<close> when the pointer is \<open>NULL\<close>; \<open>text = None\<close> is a \<open>NULL\<close> text.\<close>

definition led_copy_warning :: "string option \<Rightarrow> nat \<Rightarrow> string option \<Rightarrow> string option" where
  "led_copy_warning buffer buffer_size warning =
     (case buffer of
        None \<Rightarrow> None
      | Some old \<Rightarrow>
          if buffer_size = 0 then Some old
          else (case warning of
                  None \<Rightarrow> Some []
                | Some t \<Rightarrow> Some (c_strncpy buffer_size t)))"

definition drive_line :: "bool \<Rightarrow> int \<Rightarrow> led_call list" where
  "drive_line line value = (if line then [LedSet value] else [])"

text \<open>The loop of the rapid pattern from index \<open>i\<close>.\<close>

fun rapid_pulses :: "bool \<Rightarrow> nat list \<Rightarrow> led_call list" where
  "rapid_pulses line [] = []"
| "rapid_pulses line (i # is) =
     drive_line line 1 @ [LedSleep 100000] @ drive_line line 0 @
     (if i < 2 then [LedSleep 100000] else []) @ rapid_pulses line is"

definition play_pattern :: "bool \<Rightarrow> led_action \<Rightarrow> led_call list" where
  "play_pattern line action =
     (case action of
        LED_ACTION_SHORT \<Rightarrow> drive_line line 1 @ [LedSleep 100000] @ drive_line line 0
      | LED_ACTION_LONG \<Rightarrow> drive_line line 1 @ [LedSleep 500000] @ drive_line line 0
      | LED_ACTION_RAPID \<Rightarrow> rapid_pulses line [0..<3]
      | _ \<Rightarrow> [])"

section \<open>The ring buffer\<close>

definition queue_push :: "led_action \<Rightarrow> led_queue \<Rightarrow> led_queue" where
  "queue_push action q =
     (if lq_count q < queue_capacity
      then q\<lparr>lq_slots := (lq_slots q)[unat (lq_tail q) := action],
             lq_tail := (lq_tail q + 1) mod queue_capacity,
             lq_count := lq_count q + 1\<rparr>
      else q)"

text \<open>
  \<open>queue_pop\<close> once it no longer waits: \<open>None\<close> is the return value 0. The waiting loop at its start is the
  steps \<open>wait\<close>, \<open>empty\<close> and \<open>pop\<close> of the worker below.
\<close>

definition queue_pop :: "led_queue \<Rightarrow> (led_action \<times> led_queue) option" where
  "queue_pop q =
     (if lq_count q = 0 then None
      else Some (lq_slots q ! unat (lq_head q),
                 q\<lparr>lq_head := (lq_head q + 1) mod queue_capacity, lq_count := lq_count q - 1\<rparr>))"

definition led_controller_enqueue :: "led_controller option \<Rightarrow> led_action \<Rightarrow> led_controller option" where
  "led_controller_enqueue controller action =
     (case controller of
        None \<Rightarrow> None
      | Some c \<Rightarrow>
          if \<not> lc_available c \<or> action = LED_ACTION_NONE then Some c
          else Some (c\<lparr>lc_queue := queue_push action (lc_queue c)\<rparr>))"

definition led_controller_is_available :: "led_controller option \<Rightarrow> bool" where
  "led_controller_is_available controller = (case controller of None \<Rightarrow> False | Some c \<Rightarrow> lc_available c)"

section \<open>Creation and destruction\<close>

text \<open>The controller after \<open>calloc\<close>.\<close>

definition led_controller_zero :: led_controller where
  "led_controller_zero =
     \<lparr>lc_requested = False, lc_available = False, lc_running = False, lc_chip = False, lc_line = False,
      lc_queue = \<lparr>lq_slots = replicate 32 LED_ACTION_NONE, lq_head = 0, lq_tail = 0, lq_count = 0\<rparr>\<rparr>"

text \<open>The controller or \<open>NULL\<close>, the text passed to \<open>copy_warning\<close> last, and the calls.\<close>

definition led_controller_create ::
  "led_outcomes \<Rightarrow> bool \<Rightarrow> string option \<Rightarrow> bool \<Rightarrow> led_controller option \<times> string \<times> led_call list" where
  "led_controller_create env enable_led chip_path line_number_provided =
     (let c = led_controller_zero\<lparr>lc_requested := enable_led\<rparr>;
          opened = [LedAlloc, LedChipOpen, LedGetLine, LedRequest];
          locked = opened @ [LedMutexInit];
          waiting = locked @ [LedCondInit]
      in if \<not> lo_alloc env
           then (None, ''failed to allocate LED controller; LED disabled'', [LedAlloc])
         else if \<not> enable_led then (Some c, [], [LedAlloc])
         else if \<not> line_number_provided
           then (Some c, ''LED requested but --gpio-line was not provided; LED disabled'', [LedAlloc])
         else (case chip_path of
             None \<Rightarrow> (Some c, ''LED requested but no GPIO chip path was provided; LED disabled'', [LedAlloc])
           | Some path \<Rightarrow>
               if \<not> lo_chip_open env
                 then (Some c,
                       c_snprintf 256 (''failed to open GPIO chip '' @ path @ ''; LED disabled''),
                       [LedAlloc, LedChipOpen])
               else if \<not> lo_get_line env
                 then (Some c, ''failed to access requested GPIO line; LED disabled'',
                       [LedAlloc, LedChipOpen, LedGetLine, LedChipClose])
               else if \<not> lo_request env
                 then (Some c, ''failed to request GPIO line for output; LED disabled'',
                       opened @ [LedRelease, LedChipClose])
               else if \<not> lo_mutex_init env
                 then (Some c, ''failed to initialize LED worker; LED disabled'',
                       locked @ [LedRelease, LedChipClose])
               else if \<not> lo_cond_init env
                 then (Some c, ''failed to initialize LED worker; LED disabled'',
                       waiting @ [LedMutexDestroy, LedRelease, LedChipClose])
               else if \<not> lo_thread_create env
                 then (Some c, ''failed to start LED worker; LED disabled'',
                       waiting @ [LedThreadCreate, LedCondDestroy, LedMutexDestroy, LedRelease, LedChipClose])
               else (Some (c\<lparr>lc_chip := True, lc_line := True, lc_running := True, lc_available := True\<rparr>),
                     [], waiting @ [LedThreadCreate])))"

definition led_controller_destroy :: "led_controller option \<Rightarrow> led_call list" where
  "led_controller_destroy controller =
     (case controller of
        None \<Rightarrow> []
      | Some c \<Rightarrow>
          (if lc_available c then [LedThreadJoin, LedCondDestroy, LedMutexDestroy] else []) @
          (if lc_line c then drive_line (lc_line c) 0 @ [LedRelease] else []) @
          (if lc_chip c then [LedChipClose] else []) @ [LedFree])"

section \<open>The worker thread\<close>

text \<open>
  Where the worker is: at the head of its loop, at the condition of the waiting loop in \<open>queue_pop\<close>,
  blocked in \<open>pthread_cond_wait\<close> with the mutex released, playing an action without the mutex, or
  finished. A step of the system is one critical section of a thread or the playing of a pattern.
  A blocked worker has no step of its own: \<open>pthread_cond_signal\<close> or a spurious wake-up, which POSIX
  allows, brings it back to the condition.
\<close>

datatype worker_at = LoopHead | InPop | Waiting | Playing led_action | Finished

record led_system =
  ls_controller :: led_controller
  ls_worker :: worker_at
  ls_accepted :: "led_action list"
  ls_played :: "led_action list"
  ls_calls :: "led_call list"

inductive worker_step :: "led_system \<Rightarrow> led_system \<Rightarrow> bool" where
  loop: "ls_worker s = LoopHead \<Longrightarrow> lc_running (ls_controller s) \<Longrightarrow>
    worker_step s (s\<lparr>ls_worker := InPop\<rparr>)"
| leave: "ls_worker s = LoopHead \<Longrightarrow> \<not> lc_running (ls_controller s) \<Longrightarrow>
    worker_step s (s\<lparr>ls_worker := Finished,
      ls_calls := ls_calls s @ drive_line (lc_line (ls_controller s)) 0\<rparr>)"
| wait: "ls_worker s = InPop \<Longrightarrow> queue_pop (lc_queue (ls_controller s)) = None \<Longrightarrow>
    lc_running (ls_controller s) \<Longrightarrow> worker_step s (s\<lparr>ls_worker := Waiting\<rparr>)"
| empty: "ls_worker s = InPop \<Longrightarrow> queue_pop (lc_queue (ls_controller s)) = None \<Longrightarrow>
    \<not> lc_running (ls_controller s) \<Longrightarrow> worker_step s (s\<lparr>ls_worker := LoopHead\<rparr>)"
| pop: "ls_worker s = InPop \<Longrightarrow> queue_pop (lc_queue (ls_controller s)) = Some (action, q) \<Longrightarrow>
    worker_step s (s\<lparr>ls_controller := (ls_controller s)\<lparr>lc_queue := q\<rparr>, ls_worker := Playing action\<rparr>)"
| play: "ls_worker s = Playing action \<Longrightarrow>
    worker_step s (s\<lparr>ls_worker := LoopHead, ls_played := ls_played s @ [action],
      ls_calls := ls_calls s @ play_pattern (lc_line (ls_controller s)) action\<rparr>)"

text \<open>\<open>pthread_cond_signal\<close>, which wakes the worker if it is blocked and is lost otherwise.\<close>

definition cond_signal :: "led_system \<Rightarrow> led_system" where
  "cond_signal s = (if ls_worker s = Waiting then s\<lparr>ls_worker := InPop\<rparr> else s)"

text \<open>
  The other threads: an enqueue, which signals when it stored the action, and the critical section in
  which \<open>led_controller_destroy\<close> clears the flag and signals before it joins.
\<close>

definition stores_action :: "led_controller \<Rightarrow> led_action \<Rightarrow> bool" where
  "stores_action c action \<longleftrightarrow>
     lc_available c \<and> action \<noteq> LED_ACTION_NONE \<and> lq_count (lc_queue c) < queue_capacity"

inductive client_step :: "led_system \<Rightarrow> led_system \<Rightarrow> bool" where
  enqueue: "led_controller_enqueue (Some (ls_controller s)) action = Some c \<Longrightarrow>
    client_step s (let stored = stores_action (ls_controller s) action;
                       s = s\<lparr>ls_controller := c,
                             ls_accepted := ls_accepted s @ (if stored then [action] else [])\<rparr>
                   in if stored then cond_signal s else s)"
| stop_worker: "lc_available (ls_controller s) \<Longrightarrow>
    client_step s (cond_signal (s\<lparr>ls_controller := (ls_controller s)\<lparr>lc_running := False\<rparr>\<rparr>))"

inductive spurious_wakeup :: "led_system \<Rightarrow> led_system \<Rightarrow> bool" where
  spurious: "ls_worker s = Waiting \<Longrightarrow> spurious_wakeup s (s\<lparr>ls_worker := InPop\<rparr>)"

text \<open>The thread exists when the controller is available; otherwise it counts as finished.\<close>

inductive led_reachable :: "led_controller \<Rightarrow> led_system \<Rightarrow> bool" for c where
  started: "led_reachable c
    \<lparr>ls_controller = c, ls_worker = (if lc_available c then LoopHead else Finished), ls_accepted = [],
     ls_played = [], ls_calls = []\<rparr>"
| worker: "led_reachable c s \<Longrightarrow> worker_step s s' \<Longrightarrow> led_reachable c s'"
| client: "led_reachable c s \<Longrightarrow> client_step s s' \<Longrightarrow> led_reachable c s'"
| woken: "led_reachable c s \<Longrightarrow> spurious_wakeup s s' \<Longrightarrow> led_reachable c s'"

inductive_cases worker_stepE: "worker_step s s'"
inductive_cases client_stepE: "client_step s s'"
inductive_cases spurious_wakeupE: "spurious_wakeup s s'"

end
