(* ===== verification/Shutdown.thy ===== *)
theory Shutdown
  imports Prelude
begin

text \<open>
  The interface of a shutdown: a step relation that, once a system is told to stop, keeps it
  stopping, makes a rank smaller and is never stuck before the end. The client lemmas give that
  the end is reached and that no run towards it is longer than the rank.
\<close>

locale shutdown =
  fixes step :: "'s \<Rightarrow> 's \<Rightarrow> bool" and stopping :: "'s \<Rightarrow> bool" and ended :: "'s \<Rightarrow> bool"
    and rank :: "'s \<Rightarrow> nat"
  assumes step_stopping: "stopping s \<Longrightarrow> step s s' \<Longrightarrow> stopping s'"
    and step_rank: "stopping s \<Longrightarrow> step s s' \<Longrightarrow> rank s' < rank s"
    and not_stuck: "stopping s \<Longrightarrow> \<not> ended s \<Longrightarrow> \<exists>s'. step s s'"
begin

lemma reaches_end: "stopping s \<Longrightarrow> \<exists>s'. step\<^sup>*\<^sup>* s s' \<and> ended s'"
proof (induction "rank s" arbitrary: s rule: less_induct)
  case less
  show ?case
  proof (cases "ended s")
    case False
    then obtain s1 where s1: "step s s1" using not_stuck less.prems by blast
    with less.hyps [of s1] step_rank step_stopping less.prems obtain s'
      where "step\<^sup>*\<^sup>* s1 s'" "ended s'" by blast
    with s1 show ?thesis by (meson converse_rtranclp_into_rtranclp)
  qed blast
qed

lemma run_stopping: "(step ^^ n) s s' \<Longrightarrow> stopping s \<Longrightarrow> stopping s' \<and> n + rank s' \<le> rank s"
proof (induction n arbitrary: s')
  case (Suc n)
  then obtain s1 where s1: "(step ^^ n) s s1" "step s1 s'" by auto
  with Suc.IH Suc.prems(2) have "stopping s1" "n + rank s1 \<le> rank s" by blast+
  with s1(2) step_stopping step_rank show ?case by fastforce
qed simp

lemma run_bounded: "(step ^^ n) s s' \<Longrightarrow> stopping s \<Longrightarrow> n \<le> rank s"
  using run_stopping by (meson add_leE)

end

end
