(* ===== verification/Led_Properties.thy ===== *)
theory Led_Properties
  imports Gpio_Led Shutdown
begin

text \<open>
  What the LED controller promises: the ring buffer is a bounded queue of 32 actions, the worker
  plays what was accepted in order and leaves the line low, no accepted action waits behind a missed
  signal, the worker ends soon after it is told to, and no path of the creation leaks a resource.
\<close>

section \<open>The ring buffer is a bounded queue\<close>

definition queue_contents :: "led_queue \<Rightarrow> led_action list" where
  "queue_contents q =
     map (\<lambda>i. lq_slots q ! ((unat (lq_head q) + i) mod 32)) [0..<unat (lq_count q)]"

definition queue_ok :: "led_queue \<Rightarrow> bool" where
  "queue_ok q \<longleftrightarrow>
     length (lq_slots q) = 32 \<and> unat (lq_head q) < 32 \<and> unat (lq_count q) \<le> 32 \<and>
     unat (lq_tail q) = (unat (lq_head q) + unat (lq_count q)) mod 32"

lemma length_queue_contents [simp]: "length (queue_contents q) = unat (lq_count q)"
  by (simp add: queue_contents_def)

lemma next_index:
  fixes i :: u64
  shows "unat i < 32 \<Longrightarrow> unat ((i + 1) mod queue_capacity) = (unat i + 1) mod 32"
  by (simp add: queue_capacity_def unat_mod unat_increment_u64)

lemma ring_index_free:
  fixes h n i :: nat
  assumes "i < n" "n < 32"
  shows "(h + i) mod 32 \<noteq> (h + n) mod 32"
proof
  assume "(h + i) mod 32 = (h + n) mod 32"
  then have "(n - i) mod 32 = 0"
    using assms by (metis add_diff_cancel_left less_imp_le mod_eq_dvd_iff_nat mod_0_imp_dvd dvd_imp_mod_0 add_le_cancel_left)
  then show False using assms by simp
qed

lemma queue_push_ok:
  assumes "queue_ok q"
  shows "queue_ok (queue_push action q)"
    and "queue_contents (queue_push action q) =
      (if unat (lq_count q) < 32 then queue_contents q @ [action] else queue_contents q)"
proof -
  have q: "length (lq_slots q) = 32" "unat (lq_head q) < 32" "unat (lq_count q) \<le> 32"
    "unat (lq_tail q) = (unat (lq_head q) + unat (lq_count q)) mod 32"
    using assms by (auto simp: queue_ok_def)
  have full: "lq_count q < queue_capacity \<longleftrightarrow> unat (lq_count q) < 32"
    by (simp add: queue_capacity_def word_less_nat_alt)
  have count: "unat (lq_count q) < 32 \<Longrightarrow> unat (lq_count q + 1) = unat (lq_count q) + 1"
    by (rule unat_increment_u64) simp
  have tail: "unat ((lq_tail q + 1) mod queue_capacity) = (unat (lq_tail q) + 1) mod 32"
    by (rule next_index) (simp add: q(4))
  show "queue_ok (queue_push action q)"
    using q by (auto simp: queue_push_def queue_ok_def full count tail mod_Suc_eq)
  show "queue_contents (queue_push action q) =
      (if unat (lq_count q) < 32 then queue_contents q @ [action] else queue_contents q)"
  proof (cases "unat (lq_count q) < 32")
    case True
    have "(lq_slots q)[unat (lq_tail q) := action] ! ((unat (lq_head q) + i) mod 32) =
        lq_slots q ! ((unat (lq_head q) + i) mod 32)" if "i < unat (lq_count q)" for i
      using ring_index_free [OF that True, of "unat (lq_head q)"] unfolding q(4)
      by (intro nth_list_update_neq) simp
    moreover have "(lq_slots q)[unat (lq_tail q) := action] !
        ((unat (lq_head q) + unat (lq_count q)) mod 32) = action"
      unfolding q(4) by (simp add: q(1))
    ultimately show ?thesis
      using True by (simp add: queue_push_def queue_contents_def full count)
  next
    case False
    then show ?thesis by (simp add: queue_push_def full)
  qed
qed

lemma queue_pop_ok:
  assumes "queue_ok q"
  shows "queue_pop q = None \<longleftrightarrow> queue_contents q = []"
    and "queue_pop q = Some (action, q') \<Longrightarrow> queue_ok q' \<and> queue_contents q = action # queue_contents q'"
proof -
  have empty: "lq_count q = 0 \<longleftrightarrow> unat (lq_count q) = 0" by (simp add: unat_eq_0)
  show "queue_pop q = None \<longleftrightarrow> queue_contents q = []"
    by (simp add: queue_pop_def queue_contents_def empty)
  assume pop: "queue_pop q = Some (action, q')"
  then have n: "lq_count q \<noteq> 0" "action = lq_slots q ! unat (lq_head q)"
    "q' = q\<lparr>lq_head := (lq_head q + 1) mod queue_capacity, lq_count := lq_count q - 1\<rparr>"
    by (auto simp: queue_pop_def split: if_splits)
  have q: "length (lq_slots q) = 32" "unat (lq_head q) < 32" "unat (lq_count q) \<le> 32"
    "unat (lq_tail q) = (unat (lq_head q) + unat (lq_count q)) mod 32"
    using assms by (auto simp: queue_ok_def)
  have "1 \<le> lq_count q" using n(1) by (simp add: word_le_nat_alt Suc_le_eq unat_gt_0)
  then have dec: "unat (lq_count q - 1) = unat (lq_count q) - 1" by (simp add: unat_sub)
  obtain k where k: "unat (lq_count q) = Suc k" using n(1) unat_eq_0 not0_implies_Suc by metis
  have head: "unat ((lq_head q + 1) mod queue_capacity) = (unat (lq_head q) + 1) mod 32"
    using q(2) by (rule next_index)
  have "queue_ok q'"
    using q k by (simp add: n(3) queue_ok_def head dec mod_Suc_eq mod_add_left_eq)
  moreover have "queue_contents q = action # queue_contents q'"
    using q(2) by (simp add: n(2,3) queue_contents_def k dec head upt_conv_Cons map_Suc_upt [symmetric]
        mod_add_left_eq del: upt_Suc map_Suc_upt)
  ultimately show "queue_ok q' \<and> queue_contents q = action # queue_contents q'" by simp
qed

interpretation led_fifo: bounded_fifo queue_contents queue_ok 32 queue_push queue_pop
proof unfold_locales
  fix q x q' assume "queue_ok q"
  then show "length (queue_contents q) \<le> 32" by (simp add: queue_ok_def)
  show "queue_ok (queue_push x q)" using \<open>queue_ok q\<close> by (rule queue_push_ok)
  show "queue_contents (queue_push x q) =
      (if length (queue_contents q) < 32 then queue_contents q @ [x] else queue_contents q)"
    using queue_push_ok(2) [OF \<open>queue_ok q\<close>] by simp
  show "(queue_pop q = None) = (queue_contents q = [])" using \<open>queue_ok q\<close> by (rule queue_pop_ok)
  show "queue_pop q = Some (x, q') \<Longrightarrow> queue_ok q' \<and> queue_contents q = x # queue_contents q'"
    using queue_pop_ok(2) [OF \<open>queue_ok q\<close>] by simp
qed

section \<open>The worker and its line\<close>

text \<open>The level the line was driven to last, starting from 0 (the requested value).\<close>

fun line_level :: "int \<Rightarrow> led_call list \<Rightarrow> int" where
  "line_level level [] = level"
| "line_level level (LedSet v # calls) = line_level v calls"
| "line_level level (_ # calls) = line_level level calls"

lemma line_level_append [simp]: "line_level level (xs @ ys) = line_level (line_level level xs) ys"
  by (induction level xs rule: line_level.induct) auto

lemma pattern_ends_low: "line_level 0 (play_pattern line action) = 0"
  by (cases line; cases action) (simp_all add: play_pattern_def drive_line_def upt_conv_Cons)

definition in_flight :: "led_system \<Rightarrow> led_action list" where
  "in_flight s = (case ls_worker s of Playing action \<Rightarrow> [action] | _ \<Rightarrow> [])"

definition led_inv :: "led_system \<Rightarrow> bool" where
  "led_inv s \<longleftrightarrow>
     queue_ok (lc_queue (ls_controller s)) \<and>
     ls_accepted s = ls_played s @ in_flight s @ queue_contents (lc_queue (ls_controller s)) \<and>
     ls_calls s = concat (map (play_pattern (lc_line (ls_controller s))) (ls_played s)) @
       (if ls_worker s = Finished then drive_line (lc_line (ls_controller s)) 0 else []) \<and>
     (ls_worker s = Finished \<longrightarrow> \<not> lc_running (ls_controller s)) \<and>
     (ls_worker s = Waiting \<longrightarrow> lc_running (ls_controller s) \<and> queue_contents (lc_queue (ls_controller s)) = [])"

lemma worker_step_inv:
  assumes "worker_step s s'" "led_inv s"
  shows "led_inv s' \<and> lc_line (ls_controller s') = lc_line (ls_controller s)"
  using assms(1)
proof cases
  case loop
  then show ?thesis using assms(2) by (simp add: led_inv_def in_flight_def)
next
  case leave
  then show ?thesis using assms(2) by (simp add: led_inv_def in_flight_def)
next
  case wait
  then have "queue_contents (lc_queue (ls_controller s)) = []"
    using assms(2) led_fifo.pop_None by (simp add: led_inv_def)
  with wait show ?thesis using assms(2) by (simp add: led_inv_def in_flight_def)
next
  case empty
  then show ?thesis using assms(2) by (simp add: led_inv_def in_flight_def)
next
  case (pop action q)
  then have "queue_ok q \<and> queue_contents (lc_queue (ls_controller s)) = action # queue_contents q"
    using assms(2) led_fifo.pop_Some [of "lc_queue (ls_controller s)" action q] by (simp add: led_inv_def)
  with pop show ?thesis using assms(2) by (simp add: led_inv_def in_flight_def)
next
  case (play action)
  then show ?thesis using assms(2) by (simp add: led_inv_def in_flight_def)
qed

lemma client_step_inv:
  assumes "client_step s s'" "led_inv s"
  shows "led_inv s' \<and> lc_line (ls_controller s') = lc_line (ls_controller s)"
  using assms(1)
proof cases
  case (enqueue action c)
  let ?q = "lc_queue (ls_controller s)"
  have ok: "queue_ok ?q" using assms(2) by (simp add: led_inv_def)
  have full: "lq_count ?q < queue_capacity \<longleftrightarrow> length (queue_contents ?q) < 32"
    by (simp add: queue_capacity_def word_less_nat_alt)
  from enqueue show ?thesis
    using assms(2) led_fifo.push_ok [OF ok] led_fifo.push_contents [OF ok]
    by (auto simp: led_inv_def in_flight_def led_controller_enqueue_def stores_action_def cond_signal_def Let_def
        full split: if_splits)
next
  case stop_worker
  then show ?thesis using assms(2) by (auto simp: led_inv_def in_flight_def cond_signal_def)
qed

lemma spurious_wakeup_inv:
  "spurious_wakeup s s' \<Longrightarrow> led_inv s \<Longrightarrow> led_inv s' \<and> lc_line (ls_controller s') = lc_line (ls_controller s)"
  by (elim spurious_wakeupE) (simp add: led_inv_def in_flight_def)

lemma queue_zero: "queue_ok (lc_queue led_controller_zero)" "queue_contents (lc_queue led_controller_zero) = []"
  by (simp_all add: led_controller_zero_def queue_ok_def queue_contents_def)

lemma created_queue:
  "led_controller_create env enable chip given = (Some c, warning, calls) \<Longrightarrow>
   lc_queue c = lc_queue led_controller_zero \<and> lc_line c = lc_available c \<and> lc_running c = lc_available c"
  by (auto simp: led_controller_create_def led_controller_zero_def Let_def split: if_splits option.splits)

lemma led_reachable_inv:
  assumes "led_reachable c s" "led_controller_create env enable chip given = (Some c, warning, calls)"
  shows "led_inv s \<and> lc_line (ls_controller s) = lc_available c"
  using assms(1)
proof (induction rule: led_reachable.induct)
  case started
  then show ?case
    using created_queue [OF assms(2)] queue_zero by (simp add: led_inv_def in_flight_def drive_line_def)
next
  case (worker s s')
  then show ?case using worker_step_inv [of s s'] by simp
next
  case (client s s')
  then show ?case using client_step_inv [of s s'] by simp
next
  case (woken s s')
  then show ?case using spurious_wakeup_inv [of s s'] by simp
qed

section \<open>Stopping, and going to sleep\<close>

text \<open>How many steps the worker may still take once it was told to stop; a blocked one cannot.\<close>

fun worker_rank :: "worker_at \<Rightarrow> nat" where
  "worker_rank Finished = 0"
| "worker_rank LoopHead = 1"
| "worker_rank (Playing _) = 2"
| "worker_rank InPop = 3"
| "worker_rank Waiting = 0"

definition led_stopping :: "led_system \<Rightarrow> bool" where
  "led_stopping s \<longleftrightarrow> led_inv s \<and> \<not> lc_running (ls_controller s)"

lemma worker_step_running:
  "worker_step s s' \<Longrightarrow> lc_running (ls_controller s') = lc_running (ls_controller s) \<and> ls_accepted s' = ls_accepted s"
  by (erule worker_stepE) simp_all

lemma worker_step_rank:
  assumes "led_stopping s" "worker_step s s'"
  shows "worker_rank (ls_worker s') < worker_rank (ls_worker s)"
  using assms(2) by (cases rule: worker_stepE) (use assms(1) in \<open>auto simp: led_stopping_def\<close>)

lemma worker_pops:
  assumes "ls_worker s = InPop"
  shows "\<exists>s'. worker_step s s'"
proof (cases "queue_pop (lc_queue (ls_controller s))")
  case None
  with assms show ?thesis
    using worker_step.empty worker_step.wait by (cases "lc_running (ls_controller s)") blast+
next
  case (Some p)
  then show ?thesis using assms worker_step.pop by (cases p) blast
qed

lemma worker_can_step:
  assumes "led_inv s" "ls_worker s \<noteq> Finished" "ls_worker s \<noteq> Waiting"
  shows "\<exists>s'. worker_step s s'"
proof (cases "ls_worker s")
  case LoopHead
  then show ?thesis using worker_step.loop worker_step.leave by (cases "lc_running (ls_controller s)") blast+
qed (use assms worker_pops worker_step.play in blast)+

text \<open>Told to stop, the worker ends: the invariant says that it is not left blocked.\<close>

interpretation led_shutdown: shutdown worker_step led_stopping "\<lambda>s. ls_worker s = Finished"
    "\<lambda>s. worker_rank (ls_worker s)"
proof unfold_locales
  fix s s' assume s: "led_stopping s"
  show "worker_step s s' \<Longrightarrow> led_stopping s'"
    using s worker_step_inv worker_step_running by (simp add: led_stopping_def)
  show "worker_step s s' \<Longrightarrow> worker_rank (ls_worker s') < worker_rank (ls_worker s)"
    using s by (rule worker_step_rank)
  show "ls_worker s \<noteq> Finished \<Longrightarrow> \<exists>s'. worker_step s s'"
    using s worker_can_step by (auto simp: led_stopping_def led_inv_def)
qed

text \<open>Left alone, a running worker empties the queue and goes to sleep.\<close>

definition led_awake :: "led_system \<Rightarrow> bool" where
  "led_awake s \<longleftrightarrow> led_inv s \<and> lc_running (ls_controller s)"

definition queue_rank :: "led_system \<Rightarrow> nat" where
  "queue_rank s =
     (case ls_worker s of
        LoopHead \<Rightarrow> 2 | InPop \<Rightarrow> 1 | Playing _ \<Rightarrow> 3 | _ \<Rightarrow> 0) + 3 * unat (lq_count (lc_queue (ls_controller s)))"

lemma queue_rank_decreases:
  assumes "led_awake s" "worker_step s s'"
  shows "queue_rank s' < queue_rank s"
  using assms(2)
proof cases
  case (pop action q)
  then have "queue_contents (lc_queue (ls_controller s)) = action # queue_contents q"
    using assms(1) led_fifo.pop_Some by (simp add: led_awake_def led_inv_def)
  then have "length (queue_contents (lc_queue (ls_controller s))) = Suc (length (queue_contents q))" by simp
  with pop show ?thesis by (simp add: queue_rank_def)
qed (use assms(1) in \<open>auto simp: queue_rank_def led_awake_def\<close>)

interpretation led_draining: shutdown worker_step led_awake "\<lambda>s. ls_worker s = Waiting" queue_rank
proof unfold_locales
  fix s s' assume s: "led_awake s"
  show "worker_step s s' \<Longrightarrow> led_awake s'"
    using s worker_step_inv worker_step_running by (simp add: led_awake_def)
  show "worker_step s s' \<Longrightarrow> queue_rank s' < queue_rank s"
    using s by (rule queue_rank_decreases)
  show "ls_worker s \<noteq> Waiting \<Longrightarrow> \<exists>s'. worker_step s s'"
    using s worker_can_step by (auto simp: led_awake_def led_inv_def)
qed

lemma worker_run_keeps:
  "worker_step\<^sup>*\<^sup>* s s' \<Longrightarrow> led_awake s \<Longrightarrow> led_awake s' \<and> ls_accepted s' = ls_accepted s"
  by (induction rule: rtranclp_induct) (auto dest: led_draining.step_stopping worker_step_running)

section \<open>Resources\<close>

text \<open>
  What a trace of calls holds, the newest first. Closing, destroying, joining or freeing something
  that is not held is a fault; releasing a line that is not requested is a no-op of \<open>libgpiod\<close>.
\<close>

datatype led_resource = LedMemory | LedChip | LedLine | LedMutex | LedCond | LedThread

definition led_give_back :: "led_resource \<Rightarrow> led_resource list \<Rightarrow> led_resource list option" where
  "led_give_back x held = (if x \<in> set held then Some (remove1 x held) else None)"

definition led_call_effect ::
  "led_outcomes \<Rightarrow> led_call \<Rightarrow> led_resource list \<Rightarrow> led_resource list option" where
  "led_call_effect env call held =
     (case call of
        LedAlloc \<Rightarrow> Some (if lo_alloc env then LedMemory # held else held)
      | LedChipOpen \<Rightarrow> Some (if lo_chip_open env then LedChip # held else held)
      | LedRequest \<Rightarrow> Some (if lo_request env then LedLine # held else held)
      | LedMutexInit \<Rightarrow> Some (if lo_mutex_init env then LedMutex # held else held)
      | LedCondInit \<Rightarrow> Some (if lo_cond_init env then LedCond # held else held)
      | LedThreadCreate \<Rightarrow> Some (if lo_thread_create env then LedThread # held else held)
      | LedRelease \<Rightarrow> Some (remove1 LedLine held)
      | LedChipClose \<Rightarrow> led_give_back LedChip held
      | LedMutexDestroy \<Rightarrow> led_give_back LedMutex held
      | LedCondDestroy \<Rightarrow> led_give_back LedCond held
      | LedThreadJoin \<Rightarrow> led_give_back LedThread held
      | LedFree \<Rightarrow> led_give_back LedMemory held
      | _ \<Rightarrow> Some held)"

fun led_holds :: "led_outcomes \<Rightarrow> led_resource list \<Rightarrow> led_call list \<Rightarrow> led_resource list option" where
  "led_holds env held [] = Some held"
| "led_holds env held (call # calls) =
     Option.bind (led_call_effect env call held) (\<lambda>held. led_holds env held calls)"

definition led_created :: "led_outcomes \<Rightarrow> bool \<Rightarrow> string option \<Rightarrow> bool \<Rightarrow> bool" where
  "led_created env enable chip given \<longleftrightarrow>
     lo_alloc env \<and> enable \<and> given \<and> chip \<noteq> None \<and> lo_chip_open env \<and> lo_get_line env \<and>
     lo_request env \<and> lo_mutex_init env \<and> lo_cond_init env \<and> lo_thread_create env"

text \<open>
  The controller neither leaks nor gives back twice. Whatever the library and the threads
  report, \<open>led_controller_create\<close> returns a controller unless the allocation itself failed; when it
  is not available it holds nothing but its memory, and it is available exactly when every step
  succeeded; \<open>led_controller_destroy\<close> then gives back exactly what is held.
\<close>

lemma led_create_destroy_balanced:
  "case led_controller_create env enable chip given of
     (None, warning, calls) \<Rightarrow> \<not> lo_alloc env \<and> led_holds env [] calls = Some []
   | (Some c, warning, calls) \<Rightarrow>
       lo_alloc env \<and> lc_available c = led_created env enable chip given \<and>
       led_holds env [] calls =
         Some (if lc_available c then [LedThread, LedCond, LedMutex, LedLine, LedChip, LedMemory]
               else [LedMemory]) \<and>
       led_holds env [] (calls @ led_controller_destroy (Some c)) = Some []"
proof (cases "lo_alloc env \<and> enable \<and> given \<and> (\<exists>path. chip = Some path)")
  case False
  then show ?thesis
    by (cases "lo_alloc env"; cases enable; cases given; cases chip)
      (simp_all add: led_controller_create_def led_controller_destroy_def led_created_def Let_def
        led_call_effect_def led_give_back_def led_controller_zero_def)
next
  case True
  then obtain path where "chip = Some path" "lo_alloc env" "enable" "given" by blast
  then show ?thesis
    by (cases "lo_chip_open env"; cases "lo_get_line env"; cases "lo_request env";
        cases "lo_mutex_init env"; cases "lo_cond_init env"; cases "lo_thread_create env";
        simp add: led_controller_create_def led_controller_destroy_def led_created_def Let_def
          led_call_effect_def led_give_back_def led_controller_zero_def drive_line_def)
qed

section \<open>Properties\<close>

text \<open>
  C11: the worker plays the accepted actions in order. In every reachable state of the controller and
  its threads, the actions accepted by \<open>led_controller_enqueue\<close> are those played, the one being
  played, and those in the ring buffer, in this order, so none is lost, repeated or overtaken; at
  most 32 wait, and the calls made on the line are the patterns of the played actions.
\<close>

theorem led_worker_plays_in_order:
  assumes "led_controller_create env enable chip given = (Some c, warning, calls)"
    and "led_reachable c s"
  shows "ls_accepted s = ls_played s @ in_flight s @ queue_contents (lc_queue (ls_controller s)) \<and>
    length (queue_contents (lc_queue (ls_controller s))) \<le> 32 \<and>
    ls_calls s = concat (map (play_pattern (lc_available c)) (ls_played s)) @
      (if ls_worker s = Finished then drive_line (lc_available c) 0 else []) \<and>
    line_level 0 (ls_calls s) = 0"
proof -
  have inv: "led_inv s" "lc_line (ls_controller s) = lc_available c"
    using led_reachable_inv [OF assms(2,1)] by auto
  have dark: "line_level 0 (concat (map (play_pattern line) actions)) = 0" for line actions
    by (induction actions) (simp_all add: pattern_ends_low)
  show ?thesis
    using inv led_fifo.fifo_bounded dark
    by (simp add: led_inv_def drive_line_def)
qed

definition led_all_ok :: led_outcomes where
  "led_all_ok = \<lparr>lo_alloc = True, lo_chip_open = True, lo_get_line = True, lo_request = True,
     lo_mutex_init = True, lo_cond_init = True, lo_thread_create = True\<rparr>"

lemma led_example:
  obtains c calls where
    "led_controller_create led_all_ok True (Some ''/dev/gpiochip0'') True = (Some c, [], calls)"
    "lc_available c" "lq_count (lc_queue c) = 0"
  by (simp add: led_controller_create_def led_all_ok_def Let_def led_controller_zero_def)

theorem led_worker_plays_in_order_witness:
  "\<exists>c calls s. led_controller_create led_all_ok True (Some ''/dev/gpiochip0'') True = (Some c, [], calls) \<and>
     led_reachable c s \<and> ls_accepted s = [LED_ACTION_LONG] \<and>
     queue_contents (lc_queue (ls_controller s)) = [LED_ACTION_LONG]"
proof -
  obtain c calls where c: "led_controller_create led_all_ok True (Some ''/dev/gpiochip0'') True = (Some c, [], calls)"
    "lc_available c" "lq_count (lc_queue c) = 0"
    by (rule led_example)
  let ?s0 = "\<lparr>ls_controller = c, ls_worker = LoopHead, ls_accepted = [], ls_played = [], ls_calls = []\<rparr>"
  let ?c = "c\<lparr>lc_queue := queue_push LED_ACTION_LONG (lc_queue c)\<rparr>"
  have "client_step ?s0 (?s0\<lparr>ls_controller := ?c, ls_accepted := [LED_ACTION_LONG]\<rparr>)"
    using client_step.enqueue [of ?s0 LED_ACTION_LONG ?c] c(2,3)
    by (simp add: led_controller_enqueue_def stores_action_def cond_signal_def queue_capacity_def)
  then have "led_reachable c (?s0\<lparr>ls_controller := ?c, ls_accepted := [LED_ACTION_LONG]\<rparr>)" (is "led_reachable c ?s")
    using led_reachable.client [OF led_reachable.started [of c]] c(2) by simp
  with led_worker_plays_in_order [OF c(1) this] c(1) show ?thesis
    by (intro exI [of _ c] exI [of _ calls] exI [of _ ?s]) (simp add: in_flight_def)
qed

definition led_idle :: "led_controller \<Rightarrow> worker_at \<Rightarrow> led_system" where
  "led_idle c at = \<lparr>ls_controller = c, ls_worker = at, ls_accepted = [], ls_played = [], ls_calls = []\<rparr>"

text \<open>The worker goes to sleep on the empty queue.\<close>

lemma led_example_asleep:
  obtains c calls where
    "led_controller_create led_all_ok True (Some ''/dev/gpiochip0'') True = (Some c, [], calls)"
    "lc_available c" "lc_running c" "lq_count (lc_queue c) = 0" "led_reachable c (led_idle c Waiting)"
proof -
  obtain c calls where c: "led_controller_create led_all_ok True (Some ''/dev/gpiochip0'') True = (Some c, [], calls)"
    "lc_available c" "lq_count (lc_queue c) = 0"
    by (rule led_example)
  then have run: "lc_running c" using created_queue [OF c(1)] by simp
  have "led_reachable c (led_idle c LoopHead)"
    using led_reachable.started [of c] c(2) by (simp add: led_idle_def)
  moreover have "worker_step (led_idle c LoopHead) (led_idle c InPop)"
    using worker_step.loop [of "led_idle c LoopHead"] run by (simp add: led_idle_def)
  ultimately have "led_reachable c (led_idle c InPop)" by (rule led_reachable.worker)
  moreover have "worker_step (led_idle c InPop) (led_idle c Waiting)"
    using worker_step.wait [of "led_idle c InPop"] run c(3) by (simp add: led_idle_def queue_pop_def)
  ultimately have "led_reachable c (led_idle c Waiting)" by (rule led_reachable.worker)
  then show thesis by (rule that [OF c(1,2) run c(3)])
qed

text \<open>
  C13: joining the worker returns. In every reachable state in which the running flag is cleared, as
  \<open>led_controller_destroy\<close> does before it joins, the worker alone, without a further wake-up, reaches
  its end, and no run of it takes more than three steps, so at most one more pattern is played. In
  particular the worker is not left blocked on its condition variable, which rests on the signal
  after the flag is cleared.
\<close>

theorem led_worker_terminates:
  assumes "led_controller_create env enable chip given = (Some c, warning, calls)"
    and "led_reachable c s" and "\<not> lc_running (ls_controller s)"
  shows "(\<exists>s'. worker_step\<^sup>*\<^sup>* s s' \<and> ls_worker s' = Finished) \<and>
    (\<forall>n s'. (worker_step ^^ n) s s' \<longrightarrow> n \<le> 3)"
proof -
  have "led_stopping s" using led_reachable_inv [OF assms(2,1)] assms(3) by (simp add: led_stopping_def)
  moreover have "worker_rank w \<le> 3" for w by (cases w) simp_all
  ultimately show ?thesis using led_shutdown.run_bounded led_shutdown.reaches_end by (meson order_trans)
qed

text \<open>The worker sleeps when it is told to stop.\<close>

theorem led_worker_terminates_witness:
  "\<exists>c s s'. led_reachable c s \<and> \<not> lc_running (ls_controller s) \<and> ls_worker s = InPop \<and>
     worker_step\<^sup>*\<^sup>* s s' \<and> ls_worker s' = Finished"
proof -
  obtain c calls where c: "led_controller_create led_all_ok True (Some ''/dev/gpiochip0'') True = (Some c, [], calls)"
    "lc_available c" "led_reachable c (led_idle c Waiting)"
    by (rule led_example_asleep)
  let ?stopped = "led_idle (c\<lparr>lc_running := False\<rparr>) InPop"
  have "client_step (led_idle c Waiting) ?stopped"
    using client_step.stop_worker [of "led_idle c Waiting"] c(2) by (simp add: cond_signal_def led_idle_def)
  with c(3) have reached: "led_reachable c ?stopped" by (rule led_reachable.client)
  moreover have stopped: "\<not> lc_running (ls_controller ?stopped)" by (simp add: led_idle_def)
  ultimately obtain s' where "worker_step\<^sup>*\<^sup>* ?stopped s'" "ls_worker s' = Finished"
    using led_worker_terminates [OF c(1)] by blast
  with reached stopped show ?thesis
    by (intro exI [of _ c] exI [of _ ?stopped] exI [of _ s']) (simp add: led_idle_def)
qed

text \<open>
  C14: every accepted action is played. While the controller is running, from every reachable state
  the worker alone, without a further wake-up, plays every action that was accepted and then blocks
  on the empty queue, and no run of it without new actions is longer than 99 steps. So no action is
  left waiting behind a missed signal.
\<close>

theorem led_actions_played:
  assumes "led_controller_create env enable chip given = (Some c, warning, calls)"
    and "led_reachable c s" and "lc_running (ls_controller s)"
  shows "(\<exists>s'. worker_step\<^sup>*\<^sup>* s s' \<and> ls_worker s' = Waiting \<and> ls_played s' = ls_accepted s) \<and>
    (\<forall>n s'. (worker_step ^^ n) s s' \<longrightarrow> n \<le> 99)"
proof -
  have awake: "led_awake s" using led_reachable_inv [OF assms(2,1)] assms(3) by (simp add: led_awake_def)
  then have "unat (lq_count (lc_queue (ls_controller s))) \<le> 32"
    by (simp add: led_awake_def led_inv_def queue_ok_def)
  then have "queue_rank s \<le> 99" by (simp add: queue_rank_def split: worker_at.split)
  then have bound: "n \<le> 99" if "(worker_step ^^ n) s s'" for n s'
    using led_draining.run_bounded [OF that awake] by simp
  obtain s' where s': "worker_step\<^sup>*\<^sup>* s s'" "ls_worker s' = Waiting"
    using led_draining.reaches_end [OF awake] by blast
  have "led_awake s' \<and> ls_accepted s' = ls_accepted s" by (rule worker_run_keeps [OF s'(1) awake])
  with s'(2) have "ls_played s' = ls_accepted s" by (auto simp: led_awake_def led_inv_def in_flight_def)
  with s' bound show ?thesis by blast
qed

text \<open>The worker sleeps while an action is enqueued; the enqueue wakes it.\<close>

theorem led_actions_played_witness:
  "\<exists>c s s'. led_reachable c s \<and> ls_accepted s = [LED_ACTION_LONG] \<and> ls_played s = [] \<and>
     worker_step\<^sup>*\<^sup>* s s' \<and> ls_worker s' = Waiting \<and> ls_played s' = [LED_ACTION_LONG]"
proof -
  obtain c calls where c: "led_controller_create led_all_ok True (Some ''/dev/gpiochip0'') True = (Some c, [], calls)"
    "lc_available c" "lc_running c" "lq_count (lc_queue c) = 0" "led_reachable c (led_idle c Waiting)"
    by (rule led_example_asleep)
  let ?c = "c\<lparr>lc_queue := queue_push LED_ACTION_LONG (lc_queue c)\<rparr>"
  let ?stored = "(led_idle ?c InPop)\<lparr>ls_accepted := [LED_ACTION_LONG]\<rparr>"
  have "client_step (led_idle c Waiting) ?stored"
    using client_step.enqueue [of "led_idle c Waiting" LED_ACTION_LONG ?c] c(2,4)
    by (simp add: led_controller_enqueue_def stores_action_def cond_signal_def queue_capacity_def led_idle_def)
  with c(5) have reached: "led_reachable c ?stored" by (rule led_reachable.client)
  moreover have "lc_running (ls_controller ?stored)" using c(3) by (simp add: led_idle_def)
  ultimately obtain s' where "worker_step\<^sup>*\<^sup>* ?stored s'" "ls_worker s' = Waiting" "ls_played s' = ls_accepted ?stored"
    using led_actions_played [OF c(1)] by blast
  with reached show ?thesis
    by (intro exI [of _ c] exI [of _ ?stored] exI [of _ s']) (simp add: led_idle_def)
qed

end
