(* ===== verification/Display.thy ===== *)
theory Display
  imports Tm1637 Scan_Detector Events
begin

text \<open>
  The display controller of \<open>src/display.c\<close>: the counters and the snapshot slot the capture thread
  writes, the page to show, the worker thread, and creation and destruction. The output is a
  record of callbacks over a context, as in \<open>include/display.h\<close>. The worker is a function of the
  values it loads in each round (\<open>display_sample\<close>), which are the only way other threads affect it.
\<close>

section \<open>State\<close>

record display_config =
  dg_enabled :: bool
  dg_chip_path :: "string option"
  dg_clk_line :: u32
  dg_dio_line :: u32
  dg_brightness :: u32

record display_counts =
  dc_icmp :: u64
  dc_ssh :: u64

record display_controller =
  dp_available :: bool
  dp_running :: bool
  dp_snapshot_failed :: bool
  dp_icmp_count :: u64
  dp_ssh_count :: u64
  dp_pending :: "scan_snapshot option"
  dp_published_revision :: u64
  dp_started :: bool

text \<open>\<open>out_open\<close> gives its flag and the text it left in the warning buffer.\<close>

record 'o display_output =
  out_open :: "'o \<Rightarrow> bool \<times> string \<times> 'o"
  out_write :: "'o \<Rightarrow> u8 list \<Rightarrow> bool \<times> 'o"
  out_close :: "'o \<Rightarrow> 'o"

record timespec =
  tv_sec :: int
  tv_nsec :: int

section \<open>The hardware output\<close>

record 'c hardware =
  hw_device :: "'c tm1637 option"
  hw_gpio :: "tm1637_gpio option"
  hw_calls :: "gpio_call list"
  hw_bus :: 'c

text \<open>
  \<open>bus\<close> holds the callbacks that \<open>tm1637_open\<close> installs over the two lines, \<open>env\<close> what the
  library answers while it opens them. The device is the driver over that bus; \<open>hw_gpio\<close> is
  the part of it that \<open>tm1637_close\<close> reads.
\<close>

definition hardware_open ::
  "gpio_outcomes \<Rightarrow> 'c tm1637_bus \<Rightarrow> display_config \<Rightarrow> 'c hardware \<Rightarrow> bool \<times> string \<times> 'c hardware" where
  "hardware_open env bus config hw =
     (case tm1637_open env (dg_chip_path config) (dg_clk_line config) (dg_dio_line config)
             (dg_brightness config) of
        (gpio, warning, calls) \<Rightarrow>
          (gpio \<noteq> None, warning,
           hw\<lparr>hw_device := (case gpio of
                               None \<Rightarrow> None
                             | Some _ \<Rightarrow> Some \<lparr>tm_bus = bus, tm_brightness = dg_brightness config\<rparr>),
              hw_gpio := gpio, hw_calls := hw_calls hw @ calls\<rparr>))"

definition hardware_write :: "'c hardware \<Rightarrow> u8 list \<Rightarrow> bool \<times> 'c hardware" where
  "hardware_write hw segments =
     (case tm1637_write (hw_device hw) (Some segments) (hw_bus hw) of
        (ok, bus) \<Rightarrow> (ok, hw\<lparr>hw_bus := bus\<rparr>))"

definition hardware_close :: "'c hardware \<Rightarrow> 'c hardware" where
  "hardware_close hw =
     (case hw_device hw of
        None \<Rightarrow> hw
      | Some _ \<Rightarrow>
          (case tm1637_clear (hw_device hw) (hw_bus hw) of
             (_, bus) \<Rightarrow> hw\<lparr>hw_bus := bus, hw_calls := hw_calls hw @ tm1637_close (hw_gpio hw),
                            hw_device := None, hw_gpio := None\<rparr>))"

definition hardware_output :: "gpio_outcomes \<Rightarrow> 'c tm1637_bus \<Rightarrow> display_config \<Rightarrow> 'c hardware display_output" where
  "hardware_output env bus config =
     \<lparr>out_open = hardware_open env bus config, out_write = hardware_write,
      out_close = hardware_close\<rparr>"

section \<open>What to show\<close>

definition display_controller_counts :: "display_controller option \<Rightarrow> display_counts" where
  "display_controller_counts controller =
     (case controller of
        None \<Rightarrow> \<lparr>dc_icmp = 0, dc_ssh = 0\<rparr>
      | Some c \<Rightarrow> \<lparr>dc_icmp = dp_icmp_count c, dc_ssh = dp_ssh_count c\<rparr>)"

definition display_render ::
  "(int \<Rightarrow> u32) \<Rightarrow> display_counts \<Rightarrow> scan_snapshot option \<Rightarrow> u64 \<Rightarrow> time_t \<Rightarrow> u8 list" where
  "display_render cvt counts snapshot elapsed now =
     (let kind = ucast ((elapsed div 1000) mod 3) + 1;
          value = (if kind = 1 then dc_icmp counts
                   else if kind = 2 then dc_ssh counts
                   else scan_snapshot_max_ports cvt snapshot now)
      in tm1637_encode_number kind value)"

text \<open>
  The count of nanoseconds is an \<open>int64_t\<close>; its overflow, after 292 years, is undefined in C and wraps
  around here.
\<close>

definition elapsed_ms :: "timespec \<Rightarrow> timespec \<Rightarrow> u64" where
  "elapsed_ms start_time now =
     (let nanoseconds = word_of_int (tv_sec now - tv_sec start_time) * 1000000000 +
            word_of_int (tv_nsec now) - word_of_int (tv_nsec start_time) :: u64
      in if sint nanoseconds > 0 then word_of_int (sint nanoseconds div 1000000) else 0)"

definition next_deadline :: "timespec \<Rightarrow> timespec" where
  "next_deadline now =
     (let deadline = now\<lparr>tv_nsec := tv_nsec now + 100000000\<rparr>
      in if tv_nsec deadline \<ge> 1000000000
         then deadline\<lparr>tv_sec := tv_sec deadline + 1, tv_nsec := tv_nsec deadline - 1000000000\<rparr>
         else deadline)"

section \<open>The producer side\<close>

definition display_controller_is_available :: "display_controller option \<Rightarrow> bool" where
  "display_controller_is_available controller =
     (case controller of None \<Rightarrow> False | Some c \<Rightarrow> dp_available c \<and> \<not> dp_snapshot_failed c)"

definition display_controller_record_event ::
  "display_controller option \<Rightarrow> event option \<Rightarrow> display_controller option" where
  "display_controller_record_event controller event =
     (case (controller, event) of
        (Some c, Some e) \<Rightarrow>
          if \<not> display_controller_is_available controller then controller
          else if ev_kind e = EVENT_KIND_ICMP \<and> ev_led_action e = LED_ACTION_SHORT
            then Some (if dp_icmp_count c \<noteq> - 1 then c\<lparr>dp_icmp_count := dp_icmp_count c + 1\<rparr> else c)
          else if ev_kind e = EVENT_KIND_TCP \<and> ev_led_action e = LED_ACTION_LONG
            then Some (if dp_ssh_count c \<noteq> - 1 then c\<lparr>dp_ssh_count := dp_ssh_count c + 1\<rparr> else c)
          else controller
      | _ \<Rightarrow> controller)"

text \<open>The controller and the snapshot that was replaced, which is destroyed.\<close>

definition display_controller_publish_scan ::
  "bool \<Rightarrow> display_controller option \<Rightarrow> scan_detector option \<Rightarrow>
   display_controller option \<times> scan_snapshot option" where
  "display_controller_publish_scan alloc_ok controller detector =
     (case controller of
        None \<Rightarrow> (None, None)
      | Some c \<Rightarrow>
          if \<not> display_controller_is_available controller \<or> detector = None then (controller, None)
          else (let revision = scan_detector_revision detector
                in if revision = dp_published_revision c then (controller, None)
                   else (case scan_detector_snapshot alloc_ok detector of
                           None \<Rightarrow> (Some (c\<lparr>dp_snapshot_failed := True\<rparr>), None)
                         | Some snapshot \<Rightarrow>
                             (Some (c\<lparr>dp_published_revision := revision, dp_pending := Some snapshot\<rparr>),
                              dp_pending c))))"

section \<open>The worker\<close>

record display_sample =
  ro_running :: bool
  ro_snapshot_failed :: bool
  ro_pending :: "scan_snapshot option"
  ro_wall_time :: time_t
  ro_clock_ok :: bool
  ro_now :: timespec
  ro_counts :: display_counts
  ro_waits :: "(int \<times> bool) list"

record 'o worker =
  dw_output :: 'o
  dw_active :: "scan_snapshot option"
  dw_previous :: "u8 list"
  dw_freed :: "scan_snapshot list"
  dw_deadlines :: "timespec list"
  dw_available :: bool
  dw_warnings :: "string list"

text \<open>\<open>scan_snapshot_destroy\<close> of a pointer that may be \<open>NULL\<close>.\<close>

definition free_snapshot :: "scan_snapshot option \<Rightarrow> 'o worker \<Rightarrow> 'o worker" where
  "free_snapshot snapshot w =
     (case snapshot of None \<Rightarrow> w | Some s \<Rightarrow> w\<lparr>dw_freed := dw_freed w @ [s]\<rparr>)"

definition warn :: "string \<Rightarrow> 'o worker \<Rightarrow> 'o worker" where
  "warn message w = w\<lparr>dw_warnings := dw_warnings w @ [message]\<rparr>"

text \<open>
  The sleep, over the results of the calls and the running flag loaded after each; the list holds
  as many entries as calls were made, so an empty list counts as a sleep that ended.
\<close>

fun wait_result :: "(int \<times> bool) list \<Rightarrow> int" where
  "wait_result [] = 0"
| "wait_result ((r, running) # rest) = (if r = EINTR \<and> running then wait_result rest else r)"

text \<open>One round of the loop: whether it goes on, and the worker after it.\<close>

definition display_round ::
  "(int \<Rightarrow> u32) \<Rightarrow> 'o display_output \<Rightarrow> timespec \<Rightarrow> display_sample \<Rightarrow> 'o worker \<Rightarrow> bool \<times> 'o worker" where
  "display_round cvt out start_time r w =
     (if ro_snapshot_failed r
      then (False, warn ''[WARN ] failed to allocate scan snapshot; display disabled'' w)
      else (let w = (case ro_pending r of
                       None \<Rightarrow> w
                     | Some latest \<Rightarrow> (free_snapshot (dw_active w) w)\<lparr>dw_active := Some latest\<rparr>)
            in if \<not> ro_clock_ok r \<or> ro_wall_time r = time_error
               then (False, warn ''[WARN ] display clock failed; display disabled'' w)
               else (let segments = display_render cvt (ro_counts r) (dw_active w)
                                      (elapsed_ms start_time (ro_now r)) (ro_wall_time r);
                         (ok, w) = (if dw_previous w \<noteq> segments
                                    then (case out_write out (dw_output w) segments of
                                            (ok, o') \<Rightarrow>
                                              if \<not> ok
                                              then (False, warn ''[WARN ] TM1637 transfer/ACK failed; display disabled''
                                                             (w\<lparr>dw_output := o'\<rparr>))
                                              else (True, w\<lparr>dw_output := o', dw_previous := segments\<rparr>))
                                    else (True, w));
                         result = wait_result (ro_waits r);
                         slept = w\<lparr>dw_deadlines := dw_deadlines w @ [next_deadline (ro_now r)]\<rparr>
                     in if \<not> ok then (False, w)
                        else if result \<noteq> 0 \<and> result \<noteq> EINTR
                          then (False, warn ''[WARN ] display timer failed; display disabled'' slept)
                        else (True, slept))))"

fun display_loop ::
  "(int \<Rightarrow> u32) \<Rightarrow> 'o display_output \<Rightarrow> timespec \<Rightarrow> display_sample list \<Rightarrow> 'o worker \<Rightarrow> 'o worker" where
  "display_loop cvt out start_time [] w = w"
| "display_loop cvt out start_time (r # rounds) w =
     (if \<not> ro_running r then w
      else (case display_round cvt out start_time r w of
              (go_on, w) \<Rightarrow> if go_on then display_loop cvt out start_time rounds w else w))"

text \<open>
  The start of the worker: the flag stored in \<open>available\<close>, the text of \<open>init_warning\<close>, the first
  page and the output. \<open>clock_start\<close> is the outcome of the first \<open>clock_gettime\<close>.
\<close>

definition display_worker_init ::
  "'o display_output \<Rightarrow> bool \<Rightarrow> 'o \<Rightarrow> bool \<times> string \<times> u8 list \<times> 'o" where
  "display_worker_init out clock_start o0 =
     (case out_open out o0 of
        (ready, warning, o1) \<Rightarrow>
          let previous = tm1637_encode_number 1 0;
              (written, o2) = (if ready then out_write out o1 previous else (False, o1));
              failed = (ready \<and> (\<not> written \<or> \<not> clock_start));
              ready = (ready \<and> \<not> failed);
              warning = (if failed
                         then c_snprintf 256 ''TM1637 initial write/clock failed; display disabled'' else warning);
              warning = (if \<not> ready \<and> warning = []
                         then c_snprintf 256 ''display initialization failed; display disabled'' else warning)
          in (ready, c_snprintf 256 warning, previous, o2))"

definition display_worker ::
  "(int \<Rightarrow> u32) \<Rightarrow> 'o display_output \<Rightarrow> bool \<Rightarrow> timespec \<Rightarrow> display_sample list \<Rightarrow> 'o \<Rightarrow> bool \<times> string \<times> 'o worker" where
  "display_worker cvt out clock_start start_time rounds o0 =
     (case display_worker_init out clock_start o0 of
        (ready, warning, previous, o1) \<Rightarrow>
          let w = \<lparr>dw_output = o1, dw_active = None, dw_previous = previous, dw_freed = [],
                   dw_deadlines = [], dw_available = ready, dw_warnings = []\<rparr>;
              w = (if ready then display_loop cvt out start_time rounds w else w);
              w = free_snapshot (dw_active w) (w\<lparr>dw_available := False\<rparr>)
          in (ready, warning, w\<lparr>dw_active := None, dw_output := out_close out (dw_output w)\<rparr>))"

section \<open>Creation and destruction\<close>

datatype display_call =
    DispAlloc
  | DispMutexInit
  | DispMutexDestroy
  | DispCondInit
  | DispCondDestroy
  | DispThreadCreate
  | DispThreadJoin
  | DispFreeSnapshot
  | DispFree

record display_outcomes =
  do_alloc :: bool
  do_lock_free :: bool
  do_mutex_init :: bool
  do_cond_init :: bool
  do_thread_create :: bool

definition display_copy_warning :: "string option \<Rightarrow> nat \<Rightarrow> string \<Rightarrow> string option" where
  "display_copy_warning buffer buffer_size message =
     (case buffer of
        None \<Rightarrow> None
      | Some old \<Rightarrow> if buffer_size > 0 then Some (c_snprintf buffer_size message) else Some old)"

definition allocate_controller :: "display_outcomes \<Rightarrow> display_controller option \<times> string \<times> display_call list" where
  "allocate_controller env =
     (if \<not> do_alloc env
      then (None, ''failed to allocate display controller; display disabled'', [DispAlloc])
      else (Some \<lparr>dp_available = False, dp_running = False, dp_snapshot_failed = False,
                  dp_icmp_count = 0, dp_ssh_count = 0, dp_pending = None,
                  dp_published_revision = 0, dp_started = False\<rparr>, [], [DispAlloc]))"

text \<open>\<open>init\<close> is what the worker reports when its initialisation is over: the flag and the warning.\<close>

definition start_controller ::
  "display_outcomes \<Rightarrow> bool \<times> string \<Rightarrow> display_controller \<Rightarrow> display_controller \<times> string \<times> display_call list" where
  "start_controller env init c =
     (if \<not> do_lock_free env then (c, ''display requires lock-free atomics; display disabled'', [])
      else if \<not> do_mutex_init env
        then (c, ''failed to initialize display worker mutex; display disabled'', [DispMutexInit])
      else if \<not> do_cond_init env
        then (c, ''failed to initialize display worker condition; display disabled'',
              [DispMutexInit, DispCondInit, DispMutexDestroy])
      else if \<not> do_thread_create env
        then (c\<lparr>dp_running := False\<rparr>, ''failed to start display worker; display disabled'',
              [DispMutexInit, DispCondInit, DispThreadCreate, DispCondDestroy, DispMutexDestroy])
      else (c\<lparr>dp_running := True, dp_started := True, dp_available := fst init\<rparr>, snd init,
            [DispMutexInit, DispCondInit, DispThreadCreate]))"

definition display_controller_create ::
  "display_outcomes \<Rightarrow> bool \<times> string \<Rightarrow> display_config option \<Rightarrow>
   display_controller option \<times> string \<times> display_call list" where
  "display_controller_create env init config =
     (case allocate_controller env of
        (None, warning, calls) \<Rightarrow> (None, warning, calls)
      | (Some c, warning, calls) \<Rightarrow>
          (case config of
             None \<Rightarrow> (Some c, warning, calls)
           | Some g \<Rightarrow>
               if \<not> dg_enabled g then (Some c, warning, calls)
               else (case start_controller env init c of
                       (c, warning, calls') \<Rightarrow> (Some c, warning, calls @ calls'))))"

text \<open>\<open>output = None\<close> is a \<open>NULL\<close> output or one with a \<open>NULL\<close> callback.\<close>

definition display_controller_create_with_output ::
  "display_outcomes \<Rightarrow> bool \<times> string \<Rightarrow> 'o display_output option \<Rightarrow>
   display_controller option \<times> string \<times> display_call list" where
  "display_controller_create_with_output env init output =
     (case allocate_controller env of
        (None, warning, calls) \<Rightarrow> (None, warning, calls)
      | (Some c, warning, calls) \<Rightarrow>
          (case output of
             None \<Rightarrow> (Some c, ''invalid display output; display disabled'', calls)
           | Some _ \<Rightarrow>
               (case start_controller env init c of
                  (c, warning, calls') \<Rightarrow> (Some c, warning, calls @ calls'))))"

definition display_controller_destroy :: "display_controller option \<Rightarrow> display_call list" where
  "display_controller_destroy controller =
     (case controller of
        None \<Rightarrow> []
      | Some c \<Rightarrow>
          (if dp_started c then [DispThreadJoin, DispCondDestroy, DispMutexDestroy] else []) @
          (if dp_pending c \<noteq> None then [DispFreeSnapshot] else []) @ [DispFree])"

end
