(* ===== verification/Display_Properties.thy ===== *)
theory Display_Properties
  imports Display Tm1637_Properties Scan_Properties
begin

text \<open>
  What the display controller promises: the counters, the page that is shown, the writes of the
  worker and their order, the snapshots it frees, and the resources of creation and destruction.
\<close>

section \<open>The worker\<close>

text \<open>An output that logs the calls made to it and answers as \<open>answer\<close> says.\<close>

datatype output_op = OutOpen | OutWrite "u8 list" | OutClose

definition logging_output ::
  "(output_op list \<Rightarrow> bool) \<Rightarrow> string \<Rightarrow> output_op list display_output" where
  "logging_output answer message =
     \<lparr>out_open = (\<lambda>ops. (answer (ops @ [OutOpen]), message, ops @ [OutOpen])),
      out_write = (\<lambda>ops segments. (answer (ops @ [OutWrite segments]), ops @ [OutWrite segments])),
      out_close = (\<lambda>ops. ops @ [OutClose])\<rparr>"

lemma logging_output_simps [simp]:
  "out_open (logging_output answer message) ops =
     (answer (ops @ [OutOpen]), message, ops @ [OutOpen])"
  "out_write (logging_output answer message) ops segments =
     (answer (ops @ [OutWrite segments]), ops @ [OutWrite segments])"
  "out_close (logging_output answer message) ops = ops @ [OutClose]"
  by (simp_all add: logging_output_def)

definition adopted_snapshot :: "scan_snapshot option \<Rightarrow> display_sample \<Rightarrow> scan_snapshot option" where
  "adopted_snapshot active r = (case ro_pending r of None \<Rightarrow> active | Some s \<Rightarrow> Some s)"

definition sample_page ::
  "(int \<Rightarrow> u32) \<Rightarrow> timespec \<Rightarrow> scan_snapshot option \<Rightarrow> display_sample \<Rightarrow> u8 list" where
  "sample_page cvt start_time active r =
     display_render cvt (ro_counts r) (adopted_snapshot active r) (elapsed_ms start_time (ro_now r)) (ro_wall_time r)"

fun pages ::
  "(int \<Rightarrow> u32) \<Rightarrow> timespec \<Rightarrow> scan_snapshot option \<Rightarrow> display_sample list \<Rightarrow> u8 list list" where
  "pages cvt start_time active [] = []"
| "pages cvt start_time active (r # rs) =
     sample_page cvt start_time active r # pages cvt start_time (adopted_snapshot active r) rs"

text \<open>A round that reaches the rendering, a sleep that did not fail, and the rounds of a run.\<close>

definition sample_live :: "display_sample \<Rightarrow> bool" where
  "sample_live r \<longleftrightarrow>
     ro_running r \<and> \<not> ro_snapshot_failed r \<and> ro_clock_ok r \<and> ro_wall_time r \<noteq> time_error"

definition slept_well :: "display_sample \<Rightarrow> bool" where
  "slept_well r \<longleftrightarrow> wait_result (ro_waits r) = 0 \<or> wait_result (ro_waits r) = EINTR"

fun live_rounds :: "display_sample list \<Rightarrow> display_sample list" where
  "live_rounds [] = []"
| "live_rounds (r # rs) =
     (if sample_live r then r # (if slept_well r then live_rounds rs else []) else [])"

text \<open>\<open>remdups_adj\<close> seen from its first element: the writes that follow the page \<open>x\<close>.\<close>

fun changes :: "'a \<Rightarrow> 'a list \<Rightarrow> 'a list" where
  "changes x [] = []"
| "changes x (y # ys) = (if x = y then changes x ys else y # changes y ys)"

lemma remdups_adj_changes: "remdups_adj (x # xs) = x # changes x xs"
  by (induction xs arbitrary: x) simp_all

lemma free_snapshot_simps [simp]:
  "dw_output (free_snapshot s w) = dw_output w" "dw_active (free_snapshot s w) = dw_active w"
  "dw_previous (free_snapshot s w) = dw_previous w" "dw_available (free_snapshot s w) = dw_available w"
  "dw_deadlines (free_snapshot s w) = dw_deadlines w"
  "dw_freed (free_snapshot s w) = dw_freed w @ (case s of None \<Rightarrow> [] | Some x \<Rightarrow> [x])"
  by (simp_all add: free_snapshot_def split: option.split)

lemma warn_simps [simp]:
  "dw_output (warn m w) = dw_output w" "dw_active (warn m w) = dw_active w"
  "dw_previous (warn m w) = dw_previous w" "dw_available (warn m w) = dw_available w"
  "dw_deadlines (warn m w) = dw_deadlines w" "dw_freed (warn m w) = dw_freed w"
  by (simp_all add: warn_def)

lemma loop_shows:
  "dw_output (display_loop cvt (logging_output (\<lambda>_. True) message) start_time rounds w) =
     dw_output w @ map OutWrite (changes (dw_previous w) (pages cvt start_time (dw_active w) (live_rounds rounds)))"
  "dw_deadlines (display_loop cvt (logging_output (\<lambda>_. True) message) start_time rounds w) =
     dw_deadlines w @ map (next_deadline \<circ> ro_now) (live_rounds rounds)"
proof (induction rounds arbitrary: w)
  case (Cons r rounds)
  { case 1 show ?case
      by (cases "ro_pending r")
        (simp_all add: display_round_def Let_def sample_live_def slept_well_def sample_page_def adopted_snapshot_def Cons.IH)
  next
    case 2 show ?case
      by (cases "ro_pending r")
        (simp_all add: display_round_def Let_def sample_live_def slept_well_def sample_page_def adopted_snapshot_def Cons.IH) }
qed simp_all

text \<open>The writes follow each other only while they are answered by true.\<close>

fun ends_at_failure :: "(output_op list \<Rightarrow> bool) \<Rightarrow> output_op list \<Rightarrow> u8 list list \<Rightarrow> bool" where
  "ends_at_failure answer ops [] = True"
| "ends_at_failure answer ops (x # xs) =
     (if answer (ops @ [OutWrite x]) then ends_at_failure answer (ops @ [OutWrite x]) xs else xs = [])"

abbreviation option_list :: "'a option \<Rightarrow> 'a list" where
  "option_list x \<equiv> (case x of None \<Rightarrow> [] | Some s \<Rightarrow> [s])"

definition owned :: "'o worker \<Rightarrow> scan_snapshot list" where
  "owned w = dw_freed w @ option_list (dw_active w)"

lemma owned_simps [simp]:
  "owned (w\<lparr>dw_output := out\<rparr>) = owned w" "owned (w\<lparr>dw_previous := page\<rparr>) = owned w"
  "owned (w\<lparr>dw_deadlines := ds\<rparr>) = owned w" "owned (w\<lparr>dw_available := b\<rparr>) = owned w"
  "owned (warn m w) = owned w"
  by (simp_all add: owned_def)

text \<open>One round that is entered without a failed snapshot, in terms of its page.\<close>

definition clock_works :: "display_sample \<Rightarrow> bool" where
  "clock_works r \<longleftrightarrow> ro_clock_ok r \<and> ro_wall_time r \<noteq> time_error"

definition page_written ::
  "(int \<Rightarrow> u32) \<Rightarrow> timespec \<Rightarrow> scan_snapshot option \<Rightarrow> u8 list \<Rightarrow> display_sample \<Rightarrow> u8 list option" where
  "page_written cvt start_time active shown r =
     (if clock_works r \<and> shown \<noteq> sample_page cvt start_time active r
      then Some (sample_page cvt start_time active r) else None)"

lemma round_exact:
  assumes "display_round cvt (logging_output answer message) start_time r w = (go_on, w')"
    and "\<not> ro_snapshot_failed r"
    and "written = page_written cvt start_time (dw_active w) (dw_previous w) r"
    and "accepted \<longleftrightarrow> answer (dw_output w @ map OutWrite (option_list written))"
  shows "dw_output w' = dw_output w @ map OutWrite (option_list written) \<and>
    dw_previous w' = (case written of None \<Rightarrow> dw_previous w | Some x \<Rightarrow> if accepted then x else dw_previous w) \<and>
    dw_active w' = adopted_snapshot (dw_active w) r \<and>
    owned w' = owned w @ option_list (ro_pending r) \<and>
    go_on = (clock_works r \<and> (written = None \<or> accepted) \<and> slept_well r)"
proof -
  define adopted where "adopted = (case ro_pending r of None \<Rightarrow> w
    | Some latest \<Rightarrow> (free_snapshot (dw_active w) w)\<lparr>dw_active := Some latest\<rparr>)"
  have adopted: "owned adopted = owned w @ option_list (ro_pending r)" "dw_output adopted = dw_output w"
    "dw_previous adopted = dw_previous w" "dw_active adopted = adopted_snapshot (dw_active w) r"
    by (simp_all add: adopted_def owned_def adopted_snapshot_def split: option.split)
  have active: "owned (w\<lparr>dw_output := x, dw_previous := y\<rparr>) = owned (w\<lparr>dw_output := x\<rparr>)" for w :: "output_op list worker" and x y
    by simp
  define page where "page = sample_page cvt start_time (dw_active w) r"
  have page: "display_render cvt (ro_counts r) (dw_active adopted) (elapsed_ms start_time (ro_now r)) (ro_wall_time r) = page"
    by (simp add: page_def sample_page_def adopted)
  note eqn = assms(1) [unfolded display_round_def Let_def, folded adopted_def, unfolded page]
  show ?thesis
  proof (cases "clock_works r")
    case False
    with eqn assms(2) have "w' = warn ''[WARN ] display clock failed; display disabled'' adopted" "\<not> go_on"
      by (auto simp: clock_works_def)
    with adopted False show ?thesis by (simp add: assms(3) page_written_def)
  next
    case True
    then have clock: "ro_clock_ok r" "ro_wall_time r \<noteq> time_error" by (simp_all add: clock_works_def)
    consider (same) "dw_previous w = page" | (written) "dw_previous w \<noteq> page" "answer (dw_output w @ [OutWrite page])"
      | (refused) "dw_previous w \<noteq> page" "\<not> answer (dw_output w @ [OutWrite page])" by blast
    then show ?thesis
      by cases
        (use eqn assms clock True adopted in \<open>auto simp: page_written_def slept_well_def page_def [symmetric]
          split: if_split_asm\<close>)
  qed
qed

text \<open>
  How many rounds of a run exchange the pending pointer: a round is entered while the controller is
  running and no snapshot failed, and the next one follows unless the clock failed, the page was
  refused or the sleep failed.
\<close>

fun rounds_entered ::
  "(int \<Rightarrow> u32) \<Rightarrow> (output_op list \<Rightarrow> bool) \<Rightarrow> timespec \<Rightarrow> output_op list \<Rightarrow> u8 list \<Rightarrow> scan_snapshot option \<Rightarrow>
   display_sample list \<Rightarrow> nat" where
  "rounds_entered cvt answer start_time ops shown active [] = 0"
| "rounds_entered cvt answer start_time ops shown active (r # rs) =
     (if \<not> ro_running r \<or> ro_snapshot_failed r then 0
      else if \<not> clock_works r \<or> \<not> slept_well r then 1
      else (case page_written cvt start_time active shown r of
              None \<Rightarrow> Suc (rounds_entered cvt answer start_time ops shown (adopted_snapshot active r) rs)
            | Some page \<Rightarrow>
                if answer (ops @ [OutWrite page])
                then Suc (rounds_entered cvt answer start_time (ops @ [OutWrite page]) page (adopted_snapshot active r) rs)
                else 1))"

lemma map_filter_Nil: "List.map_filter f [] = []"
  by (simp add: List.map_filter_def)

lemma pending_Suc:
  "List.map_filter ro_pending (take (Suc n) (r # rounds)) =
     option_list (ro_pending r) @ List.map_filter ro_pending (take n rounds)"
  by (simp add: List.map_filter_simps map_filter_Nil split: option.split)

lemma loop_calls:
  "\<exists>ws. dw_output (display_loop cvt (logging_output answer message) start_time rounds w) =
       dw_output w @ map OutWrite ws \<and>
     distinct_adj (dw_previous w # ws) \<and> ends_at_failure answer (dw_output w) ws \<and>
     owned (display_loop cvt (logging_output answer message) start_time rounds w) =
       owned w @ List.map_filter ro_pending
         (take (rounds_entered cvt answer start_time (dw_output w) (dw_previous w) (dw_active w) rounds) rounds)"
proof (induction rounds arbitrary: w)
  case Nil
  show ?case by (rule exI [of _ "[]"]) (simp add: map_filter_Nil)
next
  case (Cons r rounds)
  let ?loop = "display_loop cvt (logging_output answer message) start_time"
  let ?n = "rounds_entered cvt answer start_time"
  obtain go_on w' where rd: "display_round cvt (logging_output answer message) start_time r w = (go_on, w')"
    by fastforce
  show ?case
  proof (cases "ro_running r \<and> \<not> ro_snapshot_failed r")
    case False
    then have "?loop (r # rounds) w = w \<or>
        (?loop (r # rounds) w = warn ''[WARN ] failed to allocate scan snapshot; display disabled'' w)"
      by (auto simp: display_round_def)
    then show ?thesis using False
      by (intro exI [of _ "[]"]) (auto simp: map_filter_Nil owned_def)
  next
    case True
    define written where "written = page_written cvt start_time (dw_active w) (dw_previous w) r"
    define accepted where "accepted = answer (dw_output w @ map OutWrite (option_list written))"
    have new: "x \<noteq> dw_previous w" if "written = Some x" for x
      using that by (auto simp: written_def page_written_def split: if_split_asm)
    from True have "\<not> ro_snapshot_failed r" by simp
    note exact = round_exact [OF rd this written_def, of accepted, OF accepted_def]
    show ?thesis
    proof (cases go_on)
      case False
      then have loop: "?loop (r # rounds) w = w'" using True rd by simp
      have n: "?n (dw_output w) (dw_previous w) (dw_active w) (r # rounds) = Suc 0"
        using True False exact
        by (auto simp: written_def [symmetric] accepted_def split: option.split)
      show ?thesis
        unfolding loop n pending_Suc using exact new
        by (intro exI [of _ "option_list written"]) (auto simp: map_filter_Nil split: option.split)
    next
      case go: True
      then have loop: "?loop (r # rounds) w = ?loop rounds w'" using True rd by simp
      have n: "?n (dw_output w) (dw_previous w) (dw_active w) (r # rounds) =
          Suc (?n (dw_output w') (dw_previous w') (dw_active w') rounds)"
        using True go exact
        by (auto simp: written_def [symmetric] accepted_def split: option.split)
      obtain ws where IH: "dw_output (?loop rounds w') = dw_output w' @ map OutWrite ws"
        "distinct_adj (dw_previous w' # ws)" "ends_at_failure answer (dw_output w') ws"
        "owned (?loop rounds w') = owned w' @ List.map_filter ro_pending
           (take (?n (dw_output w') (dw_previous w') (dw_active w') rounds) rounds)"
        using Cons.IH [of w'] by blast
      show ?thesis
        unfolding loop n pending_Suc using IH exact go new
        by (intro exI [of _ "option_list written @ ws"]) (auto simp: accepted_def split: option.split_asm)
    qed
  qed
qed

section \<open>What is shown\<close>

definition valid_timespec :: "timespec \<Rightarrow> bool" where
  "valid_timespec t \<longleftrightarrow> 0 \<le> tv_nsec t \<and> tv_nsec t < 1000000000"

definition nanoseconds_of :: "timespec \<Rightarrow> int" where
  "nanoseconds_of t = tv_sec t * 1000000000 + tv_nsec t"

text \<open>The deadline is a valid time 100 ms after the sample.\<close>

lemma next_deadline_valid:
  assumes "valid_timespec t"
  shows "valid_timespec (next_deadline t)"
    and "nanoseconds_of (next_deadline t) = nanoseconds_of t + 100000000"
  using assms by (auto simp: next_deadline_def valid_timespec_def nanoseconds_of_def Let_def)

lemma elapsed_ms_exact:
  assumes "nanoseconds_of start_time \<le> nanoseconds_of now"
    and "nanoseconds_of now - nanoseconds_of start_time < 2 ^ 63"
  shows "uint (elapsed_ms start_time now) = (nanoseconds_of now - nanoseconds_of start_time) div 1000000"
proof -
  let ?n = "nanoseconds_of now - nanoseconds_of start_time"
  have "sint (word_of_int ?n :: u64) = ?n"
    using assms unfolding signed_of_int of_int_eq_id id_apply
    by (intro signed_take_bit_int_eq_self) (simp_all add: len_bit0)
  moreover have "word_of_int (tv_sec now - tv_sec start_time) * 1000000000 + word_of_int (tv_nsec now) -
      word_of_int (tv_nsec start_time) = (word_of_int ?n :: u64)"
    by (simp add: nanoseconds_of_def algebra_simps)
  ultimately have "elapsed_ms start_time now = word_of_int (?n div 1000000)"
    using assms by (auto simp: elapsed_ms_def Let_def)
  moreover have "0 \<le> ?n div 1000000" "?n div 1000000 < 2 ^ 64" using assms by auto
  ultimately show ?thesis by (simp add: unsigned_of_int take_bit_int_eq_self)
qed

lemma page_kind:
  fixes elapsed :: u64
  shows "unat (ucast ((elapsed div 1000) mod 3) + 1 :: u32) = nat (uint elapsed div 1000 mod 3) + 1"
    and "unat (ucast ((elapsed div 1000) mod 3) + 1 :: u32) \<in> {1, 2, 3}"
proof -
  define k where "k = (elapsed div 1000) mod 3"
  have k: "unat k = unat elapsed div 1000 mod 3" by (simp add: k_def unat_mod unat_div)
  have small: "unat k < 3" by (simp add: k)
  have "unat (ucast k :: u32) = unat k"
    using small by (simp add: unsigned_ucast_eq take_bit_nat_eq_self)
  then have "unat (ucast k + 1 :: u32) = unat k + 1"
    using small by (simp add: unat_word_ariths)
  moreover have "uint elapsed div 1000 mod 3 = int (unat elapsed div 1000 mod 3)"
    by (simp add: zdiv_int zmod_int)
  then have "nat (uint elapsed div 1000 mod 3) = unat k" by (simp only: k nat_int)
  ultimately show "unat (ucast ((elapsed div 1000) mod 3) + 1 :: u32) = nat (uint elapsed div 1000 mod 3) + 1"
    and "unat (ucast ((elapsed div 1000) mod 3) + 1 :: u32) \<in> {1, 2, 3}"
    using small by (auto simp: k_def [symmetric])
qed

section \<open>The producer\<close>

definition counted :: "u64 \<Rightarrow> nat \<Rightarrow> u64" where
  "counted c n = of_nat (min (2 ^ 64 - 1) (unat c + n))"

lemma unat_max_u64: "unat (- 1 :: u64) = 2 ^ 64 - 1"
  by (simp add: unsigned_minus_1_eq_mask mask_eq_exp_minus_1)

lemma counted_simps:
  "counted c 0 = c"
  "counted (if c \<noteq> - 1 then c + 1 else c) n = counted c (Suc n)"
proof -
  have bound: "unat c \<le> 2 ^ 64 - 1" using unsigned_less [where 'a = nat, of c] by simp
  show "counted c 0 = c" using bound by (simp add: counted_def)
  show "counted (if c \<noteq> - 1 then c + 1 else c) n = counted c (Suc n)"
  proof (cases "c = - 1")
    case True
    then show ?thesis using unat_max_u64 by (simp add: counted_def)
  next
    case False
    then have "unat c \<noteq> 2 ^ 64 - 1" using unat_max_u64 by (metis word_unat_eq_iff)
    with bound have "unat c < 2 ^ 64 - 1" by simp
    then have "unat (c + 1) = unat c + 1" by (intro unat_increment_u64) simp
    with False show ?thesis by (simp add: counted_def)
  qed
qed

text \<open>The events that reach the two counters.\<close>

definition counts_icmp :: "event \<Rightarrow> bool" where
  "counts_icmp e \<longleftrightarrow> ev_kind e = EVENT_KIND_ICMP \<and> ev_led_action e = LED_ACTION_SHORT"

definition counts_ssh :: "event \<Rightarrow> bool" where
  "counts_ssh e \<longleftrightarrow> ev_kind e = EVENT_KIND_TCP \<and> ev_led_action e = LED_ACTION_LONG"

definition bump :: "u64 \<Rightarrow> u64" where
  "bump c = (if c \<noteq> - 1 then c + 1 else c)"

lemma record_event_effect:
  "display_controller_record_event (Some c) (Some e) = Some
     (if display_controller_is_available (Some c)
      then c\<lparr>dp_icmp_count := (if counts_icmp e then bump (dp_icmp_count c) else dp_icmp_count c),
             dp_ssh_count := (if counts_ssh e then bump (dp_ssh_count c) else dp_ssh_count c)\<rparr>
      else c)"
  by (cases "display_controller_is_available (Some c)"; cases "counts_icmp e"; cases "counts_ssh e")
    (auto simp: display_controller_record_event_def counts_icmp_def counts_ssh_def bump_def)

text \<open>
  The capture thread observes a packet and publishes; then the worker may take what is pending.
  A step gives the time, the packet, the outcomes of the three allocations and whether the worker
  takes. The third component of the state is the active snapshot of the worker.
\<close>

type_synonym capture_step = "time_t \<times> packet_info \<times> bool \<times> bool \<times> bool \<times> bool"

definition observe_and_publish ::
  "(int \<Rightarrow> u32) \<Rightarrow> capture_step \<Rightarrow> scan_detector option \<times> display_controller option \<times> scan_snapshot option \<Rightarrow>
   scan_detector option \<times> display_controller option \<times> scan_snapshot option" where
  "observe_and_publish cvt step state =
     (case (step, state) of
        ((now, packet, alloc_source, alloc_port, alloc_snapshot, taken), (detector, controller, active)) \<Rightarrow>
          let (_, detector, _) =
                scan_detector_observe cvt alloc_source alloc_port now detector (Some packet) (Some alert_zero);
              (controller, _) = display_controller_publish_scan alloc_snapshot controller detector
          in case controller of
               None \<Rightarrow> (detector, None, active)
             | Some c \<Rightarrow>
                 if taken \<and> dp_pending c \<noteq> None
                 then (detector, Some (c\<lparr>dp_pending := None\<rparr>), dp_pending c)
                 else (detector, Some c, active))"

fun capture_run ::
  "(int \<Rightarrow> u32) \<Rightarrow> capture_step list \<Rightarrow> scan_detector option \<times> display_controller option \<times> scan_snapshot option \<Rightarrow>
   scan_detector option \<times> display_controller option \<times> scan_snapshot option" where
  "capture_run cvt [] state = state"
| "capture_run cvt (step # steps) state = capture_run cvt steps (observe_and_publish cvt step state)"

text \<open>What the worker shows once it has taken what is pending.\<close>

definition view :: "display_controller \<Rightarrow> scan_snapshot option \<Rightarrow> scan_snapshot option" where
  "view c active = (if dp_pending c \<noteq> None then dp_pending c else active)"

text \<open>The published snapshot is up to date, or nothing was observed and nothing published.\<close>

definition published :: "scan_detector \<Rightarrow> display_controller \<Rightarrow> scan_snapshot option \<Rightarrow> bool" where
  "published d c active \<longleftrightarrow>
     dp_published_revision c = sd_revision d \<and>
     (if view c active = None then sd_sources d = []
      else view c active = scan_detector_snapshot True (Some d))"

lemma observe_revision:
  "\<exists>d'. fst (snd (scan_detector_observe cvt alloc_source alloc_port now (Some d) (Some p) (Some a))) = Some d' \<and>
     (d' = d \<or> sd_revision d' = sd_revision d + 1)"
proof -
  have "\<exists>d'. fst (snd (scan_detector_observe_at cvt alloc_source alloc_port (Some d) (Some p) (Some a) now)) = Some d' \<and>
     (d' = d \<or> sd_revision d' = sd_revision d + 1)"
    by (auto simp: scan_detector_observe_at_def Let_def prune_sources_def find_or_create_source_def
        split: option.split prod.split)
  then show ?thesis by (auto simp: scan_detector_observe_def)
qed

definition in_sync :: "scan_detector \<Rightarrow> display_controller \<Rightarrow> scan_snapshot option \<Rightarrow> bool" where
  "in_sync d c active \<longleftrightarrow>
     (if display_controller_is_available (Some c) then published d c active else True)"

lemma snapshot_alloc: "scan_detector_snapshot alloc_ok d = Some s \<Longrightarrow> scan_detector_snapshot True d = Some s"
  by (auto simp: scan_detector_snapshot_def Let_def split: option.split_asm if_split_asm)

lemma publish_in_sync:
  assumes "in_sync d c active" "d' = d \<or> sd_revision d' = sd_revision d + 1"
  shows "\<exists>c'. fst (display_controller_publish_scan alloc_ok (Some c) (Some d')) = Some c' \<and> in_sync d' c' active"
proof (cases "display_controller_is_available (Some c)")
  case False
  then show ?thesis by (simp add: display_controller_publish_scan_def in_sync_def)
next
  case True
  then have pub: "published d c active" using assms(1) by (simp add: in_sync_def)
  show ?thesis
  proof (cases "d' = d")
    case True
    with pub show ?thesis
      by (simp add: display_controller_publish_scan_def in_sync_def published_def scan_detector_revision_def)
  next
    case False
    then have new: "sd_revision d' \<noteq> dp_published_revision c"
      using assms(2) pub by (auto simp: published_def)
    show ?thesis
    proof (cases "scan_detector_snapshot alloc_ok (Some d')")
      case None
      with True new show ?thesis
        by (simp add: display_controller_publish_scan_def scan_detector_revision_def Let_def in_sync_def
            display_controller_is_available_def)
    next
      case (Some snapshot)
      with True new snapshot_alloc [OF Some] show ?thesis
        by (simp add: display_controller_publish_scan_def scan_detector_revision_def Let_def in_sync_def
            published_def view_def)
    qed
  qed
qed

lemma observe_and_publish_in_sync:
  assumes "in_sync d c active"
  shows "\<exists>d' c' active'. observe_and_publish cvt step (Some d, Some c, active) = (Some d', Some c', active') \<and>
    in_sync d' c' active'"
proof -
  obtain now p as ap al taken where step: "step = (now, p, as, ap, al, taken)" by (cases step) auto
  obtain d' where d': "fst (snd (scan_detector_observe cvt as ap now (Some d) (Some p) (Some alert_zero))) = Some d'"
    "d' = d \<or> sd_revision d' = sd_revision d + 1"
    using observe_revision by blast
  obtain c' where c': "fst (display_controller_publish_scan al (Some c) (Some d')) = Some c'"
    "in_sync d' c' active"
    using publish_in_sync [OF assms d'(2)] by blast
  have taken: "in_sync d' (c'\<lparr>dp_pending := None\<rparr>) (dp_pending c')" if "dp_pending c' \<noteq> None"
    using c'(2) that
    by (auto simp: in_sync_def published_def view_def display_controller_is_available_def
        split: if_split_asm)
  show ?thesis
    using d'(1) c' taken
    by (auto simp: observe_and_publish_def step Let_def split: prod.split)
qed

lemma capture_run_in_sync:
  "in_sync d c active \<Longrightarrow>
   \<exists>d' c' active'. capture_run cvt steps (Some d, Some c, active) = (Some d', Some c', active') \<and>
     in_sync d' c' active'"
proof (induction steps arbitrary: d c active)
  case (Cons step steps)
  then show ?case using observe_and_publish_in_sync [OF Cons.prems, of cvt step] by fastforce
qed simp

lemma max_ports_in_sync:
  assumes "published d c active"
  shows "scan_snapshot_max_ports cvt (view c active) now =
    scan_snapshot_max_ports cvt (scan_detector_snapshot True (Some d)) now"
  using assms
  by (auto simp: published_def scan_detector_snapshot_def scan_snapshot_max_ports_def Let_def
      split: if_split_asm)

section \<open>Resources\<close>

datatype display_resource = DispMemory | DispMutex | DispCond | DispThread | DispSnapshot

definition disp_give_back :: "display_resource \<Rightarrow> display_resource list \<Rightarrow> display_resource list option" where
  "disp_give_back x held = (if x \<in> set held then Some (remove1 x held) else None)"

definition display_call_effect ::
  "display_outcomes \<Rightarrow> display_call \<Rightarrow> display_resource list \<Rightarrow> display_resource list option" where
  "display_call_effect env call held =
     (case call of
        DispAlloc \<Rightarrow> Some (if do_alloc env then DispMemory # held else held)
      | DispMutexInit \<Rightarrow> Some (if do_mutex_init env then DispMutex # held else held)
      | DispCondInit \<Rightarrow> Some (if do_cond_init env then DispCond # held else held)
      | DispThreadCreate \<Rightarrow> Some (if do_thread_create env then DispThread # held else held)
      | DispMutexDestroy \<Rightarrow> disp_give_back DispMutex held
      | DispCondDestroy \<Rightarrow> disp_give_back DispCond held
      | DispThreadJoin \<Rightarrow> disp_give_back DispThread held
      | DispFreeSnapshot \<Rightarrow> disp_give_back DispSnapshot held
      | DispFree \<Rightarrow> disp_give_back DispMemory held)"

fun display_holds ::
  "display_outcomes \<Rightarrow> display_resource list \<Rightarrow> display_call list \<Rightarrow> display_resource list option" where
  "display_holds env held [] = Some held"
| "display_holds env held (call # calls) =
     Option.bind (display_call_effect env call held) (\<lambda>held. display_holds env held calls)"

definition display_starts :: "display_outcomes \<Rightarrow> display_config option \<Rightarrow> bool" where
  "display_starts env config \<longleftrightarrow>
     do_alloc env \<and> (\<exists>g. config = Some g \<and> dg_enabled g) \<and> do_lock_free env \<and> do_mutex_init env \<and>
     do_cond_init env \<and> do_thread_create env"

text \<open>
  Creation and destruction of the display controller are balanced. Whatever the allocator and
  the threads report, a controller is returned unless the allocation itself failed; one whose
  start failed holds only its memory, one that started holds its thread, condition and mutex too,
  and destroying it gives back what is held and a pending snapshot, once.
\<close>

lemma display_create_destroy_balanced:
  "case display_controller_create env init config of
     (None, warning, calls) \<Rightarrow> \<not> do_alloc env \<and> display_holds env [] calls = Some []
   | (Some c, warning, calls) \<Rightarrow>
       do_alloc env \<and> dp_started c = display_starts env config \<and>
       dp_available c = (dp_started c \<and> fst init) \<and>
       display_holds env [] calls =
         Some (if dp_started c then [DispThread, DispCond, DispMutex, DispMemory] else [DispMemory]) \<and>
       display_holds env (if dp_pending c' \<noteq> None then [DispSnapshot] else [])
         (calls @ display_controller_destroy (Some (c\<lparr>dp_pending := dp_pending c'\<rparr>))) = Some []"
proof (cases "do_alloc env \<and> (\<exists>g. config = Some g \<and> dg_enabled g)")
  case False
  then show ?thesis
    by (cases "do_alloc env"; cases config)
      (simp_all add: display_controller_create_def allocate_controller_def display_controller_destroy_def
        display_call_effect_def disp_give_back_def display_starts_def)
next
  case True
  then obtain g where "config = Some g" "dg_enabled g" "do_alloc env" by blast
  then show ?thesis
    by (cases "do_lock_free env"; cases "do_mutex_init env"; cases "do_cond_init env";
        cases "do_thread_create env"; simp add: display_controller_create_def allocate_controller_def
          start_controller_def display_controller_destroy_def display_call_effect_def disp_give_back_def
          display_starts_def)
qed

section \<open>Properties\<close>

text \<open>
  C17: the display shows the pages and nothing else. When the output never fails, the worker opens
  it, writes the page \<open>1 000\<close> and then the page of each round that runs, leaving out those that
  equal the page before, and closes it. Each of these rounds sleeps until a deadline that is a valid
  time exactly 100 ms after the clock was sampled, whatever the transfer took. The clock gives
  nanoseconds below one second.
\<close>

theorem display_worker_shows:
  assumes "list_all (\<lambda>r. valid_timespec (ro_now r)) rounds"
  shows "case display_worker cvt (logging_output (\<lambda>_. True) message) True start_time rounds [] of
     (ready, warning, w) \<Rightarrow>
       ready \<and>
       dw_output w = OutOpen # map OutWrite (remdups_adj
         (tm1637_encode_number 1 0 # pages cvt start_time None (live_rounds rounds))) @ [OutClose] \<and>
       map nanoseconds_of (dw_deadlines w) =
         map (\<lambda>r. nanoseconds_of (ro_now r) + 100 * 1000000) (live_rounds rounds) \<and>
       list_all valid_timespec (dw_deadlines w)"
proof -
  have "list_all (\<lambda>r. valid_timespec (ro_now r)) (live_rounds rounds)"
    using assms by (induction rounds rule: live_rounds.induct) auto
  then have deadlines: "map nanoseconds_of (map (next_deadline \<circ> ro_now) (live_rounds rounds)) =
        map (\<lambda>r. nanoseconds_of (ro_now r) + 100 * 1000000) (live_rounds rounds)"
    "list_all valid_timespec (map (next_deadline \<circ> ro_now) (live_rounds rounds))"
    by (auto simp: list_all_iff next_deadline_valid)
  then show ?thesis
    by (simp add: display_worker_def display_worker_init_def Let_def loop_shows remdups_adj_changes)
qed

definition sample_at :: "int \<Rightarrow> int \<Rightarrow> display_sample" where
  "sample_at seconds nanoseconds =
     \<lparr>ro_running = True, ro_snapshot_failed = False, ro_pending = None, ro_wall_time = 0, ro_clock_ok = True,
      ro_now = \<lparr>tv_sec = seconds, tv_nsec = nanoseconds\<rparr>, ro_counts = \<lparr>dc_icmp = 0, dc_ssh = 0\<rparr>, ro_waits = []\<rparr>"

theorem display_worker_shows_witness:
  "case display_worker cvt_saturating (logging_output (\<lambda>_. True) []) True \<lparr>tv_sec = 5, tv_nsec = 0\<rparr>
     [sample_at 5 0, sample_at 5 950000000] [] of
     (ready, warning, w) \<Rightarrow> ready \<and> map nanoseconds_of (dw_deadlines w) = [5100000000, 6050000000]"
  using display_worker_shows [where rounds = "[sample_at 5 0, sample_at 5 950000000]" and cvt = cvt_saturating
      and message = "[]" and start_time = "\<lparr>tv_sec = 5, tv_nsec = 0\<rparr>"]
  by (simp add: sample_at_def valid_timespec_def sample_live_def slept_well_def nanoseconds_of_def split: prod.splits)

text \<open>
  C15: the discipline of the worker on every path. Whatever the output answers and whatever the
  rounds load, the output is opened once and first and closed once and last; it is written only
  when it opened, never after a failed write and never with the page it shows. The snapshots that
  are freed are exactly those taken from the pending slot, in the order taken and each once: those of
  the rounds that were entered, up to and including the one that ended the loop, if any. The
  controller ends unavailable, and a start that failed has a warning.
\<close>

theorem display_worker_discipline:
  "case display_worker cvt (logging_output answer message) clock_start start_time rounds [] of
     (ready, warning, w) \<Rightarrow>
       (\<exists>ws. dw_output w = OutOpen # map OutWrite ws @ [OutClose] \<and>
         (if answer [OutOpen] then ws \<noteq> [] \<and> hd ws = tm1637_encode_number 1 0 else ws = []) \<and>
         distinct_adj ws \<and> ends_at_failure answer [OutOpen] ws) \<and>
       dw_freed w = (if ready
         then List.map_filter ro_pending
           (take (rounds_entered cvt answer start_time [OutOpen, OutWrite (tm1637_encode_number 1 0)]
              (tm1637_encode_number 1 0) None rounds) rounds)
         else []) \<and>
       dw_active w = None \<and> \<not> dw_available w \<and>
       ready = (answer [OutOpen] \<and> answer [OutOpen, OutWrite (tm1637_encode_number 1 0)] \<and> clock_start) \<and>
       (if ready then True else warning \<noteq> [])"
proof -
  let ?out = "logging_output answer message"
  let ?first = "tm1637_encode_number 1 0"
  show ?thesis
  proof (cases "answer [OutOpen] \<and> answer [OutOpen, OutWrite ?first] \<and> clock_start")
    case True
    let ?w = "\<lparr>dw_output = [OutOpen, OutWrite ?first], dw_active = None, dw_previous = ?first,
      dw_freed = [], dw_deadlines = [], dw_available = True, dw_warnings = []\<rparr>"
    obtain ws where run: "dw_output (display_loop cvt ?out start_time rounds ?w) = dw_output ?w @ map OutWrite ws"
      "distinct_adj (?first # ws)" "ends_at_failure answer [OutOpen, OutWrite ?first] ws"
      "owned (display_loop cvt ?out start_time rounds ?w) = List.map_filter ro_pending
        (take (rounds_entered cvt answer start_time [OutOpen, OutWrite ?first] ?first None rounds) rounds)"
      using loop_calls [of cvt answer message start_time rounds ?w] by (auto simp: owned_def)
    then show ?thesis using True
      by (intro case_prodI2 conjI exI [of _ "?first # ws"])
        (auto simp: display_worker_def display_worker_init_def Let_def owned_def)
  next
    case False
    then show ?thesis
      by (intro case_prodI2 conjI exI [of _ "if answer [OutOpen] then [?first] else []"])
        (auto simp: display_worker_def display_worker_init_def Let_def c_snprintf_def
          split: if_split_asm)
  qed
qed

text \<open>
  C28: the page and its digits. With valid times of the monotonic clock, the first digit is the
  number of the page, which changes every second through 1, 2, 3, and the other three show the
  ICMP count, the SSH count or the largest number of ports, saturated at 999.
\<close>

theorem display_page_schedule:
  assumes "nanoseconds_of start_time \<le> nanoseconds_of now"
    and "nanoseconds_of now - nanoseconds_of start_time < 2 ^ 63"
  shows "\<exists>k h t u. display_render cvt counts snapshot (elapsed_ms start_time now) wall = [k, digits ! h, digits ! t, digits ! u] \<and>
    shown_digit k = Some (nat ((nanoseconds_of now - nanoseconds_of start_time) div 1000000000 mod 3) + 1) \<and>
    h < 10 \<and> t < 10 \<and> u < 10 \<and>
    100 * h + 10 * t + u =
      min 999 (unat (if shown_digit k = Some 1 then dc_icmp counts
                     else if shown_digit k = Some 2 then dc_ssh counts
                     else scan_snapshot_max_ports cvt snapshot wall))"
proof -
  let ?ms = "elapsed_ms start_time now"
  define kind :: u32 where "kind = ucast ((?ms div 1000) mod 3) + 1"
  have seconds: "uint ?ms div 1000 = (nanoseconds_of now - nanoseconds_of start_time) div 1000000000"
    by (simp add: elapsed_ms_exact [OF assms] zdiv_zmult2_eq [symmetric])
  have kind: "unat kind = nat ((nanoseconds_of now - nanoseconds_of start_time) div 1000000000 mod 3) + 1"
    "unat kind \<in> {1, 2, 3}"
    using page_kind [of ?ms] by (simp_all only: kind_def seconds)
  have range: "1 \<le> kind" "kind \<le> 3" "(kind = 1) = (unat kind = 1)" "(kind = 2) = (unat kind = 2)"
    using kind(2) by (auto simp: word_le_nat_alt word_unat_eq_iff)
  define shown where "shown = (if kind = 1 then dc_icmp counts else if kind = 2 then dc_ssh counts
    else scan_snapshot_max_ports cvt snapshot wall)"
  have render: "display_render cvt counts snapshot ?ms wall = tm1637_encode_number kind shown"
    by (simp add: display_render_def kind_def shown_def Let_def)
  obtain k h t u where enc: "tm1637_encode_number kind shown = [k, digits ! h, digits ! t, digits ! u]"
    "h < 10" "t < 10" "u < 10" "100 * h + 10 * t + u = min (unat shown) 999"
    "shown_digit k = (if 1 \<le> kind \<and> kind \<le> 3 then Some (unat kind) else None)"
    using encode_digits [of kind shown] by blast
  from enc(6) range(1,2) have sk: "shown_digit k = Some (unat kind)" by simp
  have "shown = (if shown_digit k = Some 1 then dc_icmp counts else if shown_digit k = Some 2 then dc_ssh counts
      else scan_snapshot_max_ports cvt snapshot wall)"
    unfolding shown_def sk option.inject range(3,4) ..
  with enc(5) have sum: "100 * h + 10 * t + u = min 999 (unat (if shown_digit k = Some 1 then dc_icmp counts
      else if shown_digit k = Some 2 then dc_ssh counts else scan_snapshot_max_ports cvt snapshot wall))"
    by (simp only: min.commute)
  show ?thesis
    unfolding render
    by (rule exI [of _ k], rule exI [of _ h], rule exI [of _ t], rule exI [of _ u])
      (intro conjI enc(1-4) sum sk [unfolded kind(1)])
qed

theorem display_page_schedule_witness:
  "\<exists>k h t u. display_render cvt_saturating \<lparr>dc_icmp = 7, dc_ssh = 1234\<rparr> None
       (elapsed_ms \<lparr>tv_sec = 10, tv_nsec = 900000000\<rparr> \<lparr>tv_sec = 12, tv_nsec = 0\<rparr>) 0 = [k, digits ! h, digits ! t, digits ! u] \<and>
     shown_digit k = Some 2 \<and> 100 * h + 10 * t + u = 999"
proof -
  let ?start = "\<lparr>tv_sec = 10, tv_nsec = 900000000\<rparr>" and ?now = "\<lparr>tv_sec = 12, tv_nsec = 0\<rparr>"
  let ?counts = "\<lparr>dc_icmp = 7, dc_ssh = 1234\<rparr>"
  have times: "nanoseconds_of ?start \<le> nanoseconds_of ?now" "nanoseconds_of ?now - nanoseconds_of ?start < 2 ^ 63"
    "nat ((nanoseconds_of ?now - nanoseconds_of ?start) div 1000000000 mod 3) + 1 = 2"
    by (simp_all add: nanoseconds_of_def)
  obtain k h t u where
    page: "display_render cvt_saturating ?counts None (elapsed_ms ?start ?now) 0 = [k, digits ! h, digits ! t, digits ! u]"
      "shown_digit k = Some 2"
    and sum: "100 * h + 10 * t + u = min 999 (unat (if shown_digit k = Some 1 then dc_icmp ?counts
      else if shown_digit k = Some 2 then dc_ssh ?counts else scan_snapshot_max_ports cvt_saturating None 0))"
    using display_page_schedule [OF times(1,2), of cvt_saturating ?counts None 0] unfolding times(3) by blast
  from page(2) sum have "100 * h + 10 * t + u = 999" by simp
  with page show ?thesis by blast
qed

text \<open>
  C16: what the worker shows is current. The capture thread publishes only when the revision
  changed, and the worker takes at any time; still, as long as the controller is available, the
  snapshot the worker holds or may take gives, at any time, the same maximum as a snapshot of the
  detector made now. A snapshot that cannot be allocated makes the controller unavailable.
\<close>

theorem display_snapshot_current:
  assumes "scan_detector_create True w threshold = Some d"
    and "dp_published_revision c = 0" and "dp_pending c = None"
    and "capture_run cvt steps (Some d, Some c, None) = (Some d', Some c', active)"
    and "display_controller_is_available (Some c')"
  shows "scan_snapshot_max_ports cvt (if dp_pending c' \<noteq> None then dp_pending c' else active) now =
    scan_snapshot_max_ports cvt (scan_detector_snapshot True (Some d')) now"
proof -
  have "in_sync d c None"
    using assms(1-3) by (auto simp: in_sync_def published_def view_def scan_detector_create_def)
  with capture_run_in_sync [of d c None cvt steps] assms(4,5) have "published d' c' active"
    by (auto simp: in_sync_def)
  then show ?thesis using max_ports_in_sync by (simp add: view_def)
qed

theorem display_snapshot_current_witness:
  "\<exists>d' c' active.
     capture_run cvt_saturating [(1000, probe_example 80, True, True, True, False)]
       (scan_detector_create True 5 2,
        Some \<lparr>dp_available = True, dp_running = True, dp_snapshot_failed = False, dp_icmp_count = 0,
          dp_ssh_count = 0, dp_pending = None, dp_published_revision = 0, dp_started = True\<rparr>, None) =
       (Some d', Some c', active) \<and> dp_pending c' \<noteq> None \<and>
     scan_snapshot_max_ports cvt_saturating (dp_pending c') 1001 =
     scan_snapshot_max_ports cvt_saturating (scan_detector_snapshot True (Some d')) 1001"
proof -
  let ?c = "\<lparr>dp_available = True, dp_running = True, dp_snapshot_failed = False, dp_icmp_count = 0,
    dp_ssh_count = 0, dp_pending = None, dp_published_revision = 0, dp_started = True\<rparr>"
  have observed: "scan_detector_observe cvt_saturating True True 1000
      (Some \<lparr>sd_window_seconds = 5, sd_threshold = 2, sd_sources = [], sd_revision = 0\<rparr>)
      (Some (probe_example 80)) (Some alert_zero) =
    (False, Some \<lparr>sd_window_seconds = 5, sd_threshold = 2,
       sd_sources = [\<lparr>se_src_ipv4 = 0x0a000009, se_last_seen_at = 1000, se_last_alert_at = 0,
                       se_ports = [\<lparr>pe_port = 80, pe_seen_at = 1000\<rparr>]\<rparr>], sd_revision = 1\<rparr>, Some alert_zero)"
    by code_simp
  have example_run: "case capture_run cvt_saturating [(1000, probe_example 80, True, True, True, False)]
        (Some \<lparr>sd_window_seconds = 5, sd_threshold = 2, sd_sources = [], sd_revision = 0\<rparr>, Some ?c, None) of
      (Some d', Some c', active) \<Rightarrow> display_controller_is_available (Some c') \<and> dp_pending c' \<noteq> None
    | _ \<Rightarrow> False"
    by (simp add: observe_and_publish_def observed display_controller_publish_scan_def
        scan_detector_revision_def scan_detector_snapshot_def snapshot_ports_of_def snapshot_capacity_def
        display_controller_is_available_def)
  let ?d = "\<lparr>sd_window_seconds = 5, sd_threshold = 2, sd_sources = [], sd_revision = 0\<rparr>"
  have d: "scan_detector_create True 5 2 = Some ?d" by (simp add: scan_detector_create_def)
  obtain d' c' active where run: "capture_run cvt_saturating [(1000, probe_example 80, True, True, True, False)]
      (Some ?d, Some ?c, None) = (Some d', Some c', active)"
      "display_controller_is_available (Some c')" "dp_pending c' \<noteq> None"
    using example_run by (auto split: prod.splits option.splits)
  with display_snapshot_current [OF d _ _ run(1,2), of 1001] d show ?thesis by auto
qed

end
