(* ===== verification/Display_Threads.thy ===== *)
theory Display_Threads
  imports Shutdown
begin

text \<open>
  The two threads of \<open>src/display.c\<close> at the grain of their atomic operations and critical sections:
  the capture thread in \<open>start_controller\<close>, \<open>display_controller_publish_scan\<close> and later
  \<open>display_controller_destroy\<close>, and the worker in \<open>display_worker\<close>. A snapshot is an address; the contents, the counters and the output are
  those of theory \<open>Display\<close>. A free of an address that is not allocated and a read through one set
  \<open>sh_fault\<close>; an access of the worker to the controller after \<open>free(controller)\<close> is excluded by
  \<open>WDone\<close>.
\<close>

section \<open>State\<close>

text \<open>
  The capture thread: at the condition of the waiting loop of \<open>start_controller\<close>, blocked in
  \<open>pthread_cond_wait\<close>, outside the display code, after \<open>display_controller_is_available\<close> said yes,
  with a new snapshot that is not yet published, with the replaced one, waiting in \<open>pthread_join\<close>,
  before the last exchange, with what it gave, and after \<open>free(controller)\<close>.
\<close>

datatype capture_at =
    Starting
  | AwaitingInit
  | Capturing
  | Checked
  | Publishing nat
  | Replaced "nat option"
  | Joining
  | Draining
  | LastSnapshot "nat option"
  | Destroyed

text \<open>
  The worker: opening the output, at the loop condition, after it loaded \<open>running\<close>, before the
  exchange, with what it took, before the use of the active snapshot, after the loop, after the
  store to \<open>available\<close>, and returned.
\<close>

datatype render_at =
    WInit
  | WHead
  | WLoaded
  | WExchange
  | WTook "nat option"
  | WRender
  | WExit
  | WUnavailable
  | WDone

record sharing =
  sh_live :: "nat set"
  sh_pending :: "nat option"
  sh_active :: "nat option"
  sh_capture :: capture_at
  sh_worker :: render_at
  sh_initialized :: bool
  sh_available :: bool
  sh_running :: bool
  sh_failed :: bool
  sh_fault :: bool

text \<open>\<open>scan_snapshot_destroy\<close>, and a read through the active pointer, which may be \<open>NULL\<close>.\<close>

definition free_at :: "nat option \<Rightarrow> sharing \<Rightarrow> sharing" where
  "free_at p s =
     (case p of
        None \<Rightarrow> s
      | Some a \<Rightarrow> s\<lparr>sh_live := sh_live s - {a}, sh_fault := sh_fault s \<or> a \<notin> sh_live s\<rparr>)"

definition read_at :: "nat option \<Rightarrow> sharing \<Rightarrow> sharing" where
  "read_at p s = (case p of None \<Rightarrow> s | Some a \<Rightarrow> s\<lparr>sh_fault := sh_fault s \<or> a \<notin> sh_live s\<rparr>)"

section \<open>Steps\<close>

text \<open>
  \<open>start_controller\<close> waits until the worker has initialised: it blocks while the flag is not set, and
  the signal of the worker, or a spurious wake-up, brings it back to the condition.
\<close>

inductive start_step :: "sharing \<Rightarrow> sharing \<Rightarrow> bool" where
  wait_init: "sh_capture s = Starting \<Longrightarrow> \<not> sh_initialized s \<Longrightarrow>
    start_step s (s\<lparr>sh_capture := AwaitingInit\<rparr>)"
| started: "sh_capture s = Starting \<Longrightarrow> sh_initialized s \<Longrightarrow>
    start_step s (s\<lparr>sh_capture := Capturing\<rparr>)"
| spurious: "sh_capture s = AwaitingInit \<Longrightarrow> start_step s (s\<lparr>sh_capture := Starting\<rparr>)"

definition signal_init :: "sharing \<Rightarrow> sharing" where
  "signal_init s = (if sh_capture s = AwaitingInit then s\<lparr>sh_capture := Starting\<rparr> else s)"

text \<open>
  \<open>malloc\<close> gives any address that is not allocated, so one that was freed may come back. Publishing
  stops after the check when the revision did not change. \<open>snapshot_failed\<close> is only stored by the
  capture thread, so its load belongs to the check. The critical section in which the worker reports
  its initialisation is one step. A round that fails in the clock, the transfer or the timer leaves
  the loop from \<open>WRender\<close>, with or without having read the snapshot.
\<close>

inductive publish_step :: "sharing \<Rightarrow> sharing \<Rightarrow> bool" where
  check: "sh_capture s = Capturing \<Longrightarrow> sh_available s \<Longrightarrow> \<not> sh_failed s \<Longrightarrow>
    publish_step s (s\<lparr>sh_capture := Checked\<rparr>)"
| unchanged: "sh_capture s = Checked \<Longrightarrow> publish_step s (s\<lparr>sh_capture := Capturing\<rparr>)"
| allocate: "sh_capture s = Checked \<Longrightarrow> a \<notin> sh_live s \<Longrightarrow>
    publish_step s (s\<lparr>sh_live := insert a (sh_live s), sh_capture := Publishing a\<rparr>)"
| no_memory: "sh_capture s = Checked \<Longrightarrow>
    publish_step s (s\<lparr>sh_failed := True, sh_capture := Capturing\<rparr>)"
| exchange: "sh_capture s = Publishing a \<Longrightarrow>
    publish_step s (s\<lparr>sh_pending := Some a, sh_capture := Replaced (sh_pending s)\<rparr>)"
| discard: "sh_capture s = Replaced p \<Longrightarrow>
    publish_step s ((free_at p s)\<lparr>sh_capture := Capturing\<rparr>)"

inductive destroy_step :: "sharing \<Rightarrow> sharing \<Rightarrow> bool" where
  stop_running: "sh_capture s = Capturing \<Longrightarrow>
    destroy_step s (s\<lparr>sh_running := False, sh_capture := Joining\<rparr>)"
| join: "sh_capture s = Joining \<Longrightarrow> sh_worker s = WDone \<Longrightarrow>
    destroy_step s (s\<lparr>sh_capture := Draining\<rparr>)"
| take_pending: "sh_capture s = Draining \<Longrightarrow>
    destroy_step s (s\<lparr>sh_pending := None, sh_capture := LastSnapshot (sh_pending s)\<rparr>)"
| free_last: "sh_capture s = LastSnapshot p \<Longrightarrow>
    destroy_step s ((free_at p s)\<lparr>sh_capture := Destroyed\<rparr>)"

inductive render_step :: "sharing \<Rightarrow> sharing \<Rightarrow> bool" where
  ready: "sh_worker s = WInit \<Longrightarrow>
    render_step s (signal_init (s\<lparr>sh_available := True, sh_initialized := True, sh_worker := WHead\<rparr>))"
| not_ready: "sh_worker s = WInit \<Longrightarrow>
    render_step s (signal_init (s\<lparr>sh_available := False, sh_initialized := True, sh_worker := WExit\<rparr>))"
| goes_on: "sh_worker s = WHead \<Longrightarrow> sh_running s \<Longrightarrow> render_step s (s\<lparr>sh_worker := WLoaded\<rparr>)"
| stopped: "sh_worker s = WHead \<Longrightarrow> \<not> sh_running s \<Longrightarrow> render_step s (s\<lparr>sh_worker := WExit\<rparr>)"
| enter: "sh_worker s = WLoaded \<Longrightarrow> \<not> sh_failed s \<Longrightarrow> render_step s (s\<lparr>sh_worker := WExchange\<rparr>)"
| no_snapshot: "sh_worker s = WLoaded \<Longrightarrow> sh_failed s \<Longrightarrow> render_step s (s\<lparr>sh_worker := WExit\<rparr>)"
| take_latest: "sh_worker s = WExchange \<Longrightarrow>
    render_step s (s\<lparr>sh_pending := None, sh_worker := WTook (sh_pending s)\<rparr>)"
| nothing_new: "sh_worker s = WTook None \<Longrightarrow> render_step s (s\<lparr>sh_worker := WRender\<rparr>)"
| adopt: "sh_worker s = WTook (Some a) \<Longrightarrow>
    render_step s ((free_at (sh_active s) s)\<lparr>sh_active := Some a, sh_worker := WRender\<rparr>)"
| render: "sh_worker s = WRender \<Longrightarrow>
    render_step s ((read_at (sh_active s) s)\<lparr>sh_worker := WHead\<rparr>)"
| give_up: "sh_worker s = WRender \<Longrightarrow>
    render_step s ((read_at (sh_active s) s)\<lparr>sh_worker := WExit\<rparr>)"
| clock_failed: "sh_worker s = WRender \<Longrightarrow> render_step s (s\<lparr>sh_worker := WExit\<rparr>)"
| unavailable: "sh_worker s = WExit \<Longrightarrow>
    render_step s (s\<lparr>sh_available := False, sh_worker := WUnavailable\<rparr>)"
| leave: "sh_worker s = WUnavailable \<Longrightarrow>
    render_step s ((free_at (sh_active s) s)\<lparr>sh_active := None, sh_worker := WDone\<rparr>)"

definition display_step :: "sharing \<Rightarrow> sharing \<Rightarrow> bool" where
  "display_step s s' \<longleftrightarrow> start_step s s' \<or> publish_step s s' \<or> destroy_step s s' \<or> render_step s s'"

text \<open>The start: nothing is allocated; without a started worker the thread counts as returned.\<close>

definition display_threads_start :: "bool \<Rightarrow> sharing" where
  "display_threads_start started =
     \<lparr>sh_live = {}, sh_pending = None, sh_active = None,
      sh_capture = (if started then Starting else Capturing),
      sh_worker = (if started then WInit else WDone), sh_initialized = False, sh_available = False,
      sh_running = started, sh_failed = False, sh_fault = False\<rparr>"

inductive_cases start_stepE: "start_step s s'"
inductive_cases publish_stepE: "publish_step s s'"
inductive_cases destroy_stepE: "destroy_step s s'"
inductive_cases render_stepE: "render_step s s'"

section \<open>Ownership\<close>

text \<open>The addresses each place owns, in a list that shows an address owned twice.\<close>

fun captured :: "capture_at \<Rightarrow> nat list" where
  "captured (Publishing a) = [a]"
| "captured (Replaced (Some a)) = [a]"
| "captured (LastSnapshot (Some a)) = [a]"
| "captured _ = []"

fun taken :: "render_at \<Rightarrow> nat list" where
  "taken (WTook (Some a)) = [a]"
| "taken _ = []"

definition place :: "nat option \<Rightarrow> nat list" where
  "place p = (case p of None \<Rightarrow> [] | Some a \<Rightarrow> [a])"

lemma place_simps [simp]: "place None = []" "place (Some a) = [a]"
  by (simp_all add: place_def)

definition owners :: "sharing \<Rightarrow> nat list" where
  "owners s = captured (sh_capture s) @ place (sh_pending s) @ taken (sh_worker s) @ place (sh_active s)"

fun past_join :: "capture_at \<Rightarrow> bool" where
  "past_join Draining = True"
| "past_join (LastSnapshot _) = True"
| "past_join Destroyed = True"
| "past_join _ = False"

definition sharing_ok :: "sharing \<Rightarrow> bool" where
  "sharing_ok s \<longleftrightarrow>
     distinct (owners s) \<and> set (owners s) = sh_live s \<and> \<not> sh_fault s \<and>
     (sh_worker s = WDone \<longrightarrow> sh_active s = None) \<and>
     (past_join (sh_capture s) \<longrightarrow> sh_worker s = WDone) \<and>
     (sh_capture s = Joining \<longrightarrow> \<not> sh_running s) \<and>
     ((\<exists>p. sh_capture s = LastSnapshot p) \<or> sh_capture s = Destroyed \<longrightarrow> sh_pending s = None)"

lemma captured_Replaced [simp]: "captured (Replaced p) = place p" "captured (LastSnapshot p) = place p"
  by (cases p; simp)+

lemma start_step_ok: "start_step s s' \<Longrightarrow> sharing_ok s \<Longrightarrow> sharing_ok s'"
  by (elim start_stepE) (auto simp: sharing_ok_def owners_def)

lemma publish_step_ok: "publish_step s s' \<Longrightarrow> sharing_ok s \<Longrightarrow> sharing_ok s'"
  by (elim publish_stepE)
    (auto simp: sharing_ok_def owners_def free_at_def place_def split: option.splits)

lemma destroy_step_ok: "destroy_step s s' \<Longrightarrow> sharing_ok s \<Longrightarrow> sharing_ok s'"
  by (elim destroy_stepE)
    (auto simp: sharing_ok_def owners_def free_at_def place_def split: option.splits)

lemma render_step_ok: "render_step s s' \<Longrightarrow> sharing_ok s \<Longrightarrow> sharing_ok s'"
  by (elim render_stepE)
    (auto simp: sharing_ok_def owners_def free_at_def read_at_def signal_init_def place_def split: option.splits)

lemma sharing_reachable_ok:
  "display_step\<^sup>*\<^sup>* (display_threads_start started) s \<Longrightarrow> sharing_ok s"
proof (induction rule: rtranclp_induct)
  case base
  show ?case by (simp add: display_threads_start_def sharing_ok_def owners_def)
next
  case (step s s')
  then show ?case
    using start_step_ok publish_step_ok destroy_step_ok render_step_ok unfolding display_step_def by blast
qed

section \<open>Shutdown\<close>

fun capture_rank :: "capture_at \<Rightarrow> nat" where
  "capture_rank Joining = 3"
| "capture_rank Draining = 2"
| "capture_rank (LastSnapshot _) = 1"
| "capture_rank _ = 0"

fun render_rank :: "render_at \<Rightarrow> nat" where
  "render_rank WDone = 0"
| "render_rank WUnavailable = 1"
| "render_rank WExit = 2"
| "render_rank WHead = 3"
| "render_rank WInit = 4"
| "render_rank WRender = 4"
| "render_rank (WTook _) = 5"
| "render_rank WExchange = 6"
| "render_rank WLoaded = 7"

definition being_destroyed :: "sharing \<Rightarrow> bool" where
  "being_destroyed s \<longleftrightarrow> sharing_ok s \<and> (sh_capture s = Joining \<or> past_join (sh_capture s))"

definition sharing_rank :: "sharing \<Rightarrow> nat" where
  "sharing_rank s = capture_rank (sh_capture s) + render_rank (sh_worker s)"

lemma free_at_simps [simp]:
  "sh_capture (free_at p s) = sh_capture s" "sh_worker (free_at p s) = sh_worker s"
  "sh_capture (read_at p s) = sh_capture s" "sh_worker (read_at p s) = sh_worker s"
  by (simp_all add: free_at_def read_at_def split: option.split)

lemma being_destroyed_step:
  assumes "being_destroyed s" "display_step s s'"
  shows "being_destroyed s'" and "sharing_rank s' < sharing_rank s"
proof -
  have ok: "sharing_ok s'"
    using assms start_step_ok publish_step_ok destroy_step_ok render_step_ok
    unfolding display_step_def being_destroyed_def by blast
  have join_facts: "past_join (sh_capture s) \<Longrightarrow> sh_worker s = WDone" "sh_capture s = Joining \<Longrightarrow> \<not> sh_running s"
    using assms(1) by (auto simp: being_destroyed_def sharing_ok_def)
  have "(sh_capture s' = Joining \<or> past_join (sh_capture s')) \<and> sharing_rank s' < sharing_rank s"
    using assms(2) unfolding display_step_def
  proof (elim disjE)
    assume "start_step s s'"
    with assms(1) show ?thesis by (elim start_stepE) (auto simp: being_destroyed_def)
  next
    assume "publish_step s s'"
    with assms(1) show ?thesis by (elim publish_stepE) (auto simp: being_destroyed_def)
  next
    assume "destroy_step s s'"
    with assms(1) show ?thesis
      by (elim destroy_stepE) (auto simp: being_destroyed_def sharing_rank_def)
  next
    assume "render_step s s'"
    with assms(1) join_facts show ?thesis
      by (elim render_stepE) (auto simp: being_destroyed_def sharing_rank_def signal_init_def)
  qed
  with ok show "being_destroyed s'" and "sharing_rank s' < sharing_rank s"
    by (simp_all add: being_destroyed_def)
qed

lemma render_can_step:
  assumes "\<not> sh_running s" "sh_worker s \<noteq> WDone"
  shows "\<exists>s'. render_step s s'"
proof (cases "sh_worker s")
  case (WTook p)
  then show ?thesis by (cases p) (use render_step.nothing_new render_step.adopt in blast)+
next
  case WLoaded
  then show ?thesis by (cases "sh_failed s") (use render_step.enter render_step.no_snapshot in blast)+
qed (use assms render_step.ready render_step.stopped render_step.take_latest render_step.clock_failed
  render_step.unavailable render_step.leave in blast)+

lemma being_destroyed_can_step:
  assumes "being_destroyed s" "sh_capture s \<noteq> Destroyed"
  shows "\<exists>s'. display_step s s'"
proof (cases "sh_capture s")
  case Joining
  with assms(1) have "\<not> sh_running s" by (simp add: being_destroyed_def sharing_ok_def)
  with Joining show ?thesis
    using render_can_step destroy_step.join by (cases "sh_worker s = WDone") (auto simp: display_step_def)
next
  case Draining
  then show ?thesis using destroy_step.take_pending by (auto simp: display_step_def)
next
  case (LastSnapshot p)
  then show ?thesis using destroy_step.free_last by (auto simp: display_step_def)
qed (use assms in \<open>auto simp: being_destroyed_def\<close>)

interpretation display_shutdown: shutdown display_step being_destroyed "\<lambda>s. sh_capture s = Destroyed" sharing_rank
  using being_destroyed_step being_destroyed_can_step by unfold_locales blast+

lemma owned_at_end:
  assumes "sharing_ok s" "sh_capture s = Destroyed"
  shows "sh_live s = {} \<and> sh_worker s = WDone"
proof -
  have "sh_worker s = WDone" "sh_pending s = None" "sh_active s = None" "set (owners s) = sh_live s"
    using assms by (auto simp: sharing_ok_def)
  with assms(2) show ?thesis by (auto simp: owners_def)
qed

section \<open>Properties\<close>

text \<open>
  C4: snapshots change hands safely. In every interleaving of the capture thread and the worker,
  no snapshot is read or freed after it was freed, every allocated snapshot has exactly one owner
  (the capture thread, the pending slot or the worker), and once the controller is freed the
  worker has returned and no snapshot is left.
\<close>

theorem display_snapshots_owned:
  assumes "display_step\<^sup>*\<^sup>* (display_threads_start started) s"
  shows "\<not> sh_fault s \<and> distinct (owners s) \<and> set (owners s) = sh_live s \<and>
    (if sh_capture s = Destroyed then sh_live s = {} \<and> sh_worker s = WDone else True)"
proof -
  have ok: "sharing_ok s" by (rule sharing_reachable_ok [OF assms])
  then have "\<not> sh_fault s \<and> distinct (owners s) \<and> set (owners s) = sh_live s"
    by (simp add: sharing_ok_def)
  moreover have "if sh_capture s = Destroyed then sh_live s = {} \<and> sh_worker s = WDone else True"
    using owned_at_end [OF ok] by (simp only: split: if_split) blast
  ultimately show ?thesis by blast
qed

text \<open>The worker has initialised and the controller is created.\<close>

definition display_created :: sharing where
  "display_created =
     \<lparr>sh_live = {}, sh_pending = None, sh_active = None, sh_capture = Capturing, sh_worker = WHead,
      sh_initialized = True, sh_available = True, sh_running = True, sh_failed = False, sh_fault = False\<rparr>"

lemma display_created_reachable: "display_step\<^sup>*\<^sup>* (display_threads_start True) display_created"
proof -
  let ?ready = "display_created\<lparr>sh_capture := Starting\<rparr>"
  have "render_step (display_threads_start True) ?ready"
    using render_step.ready [of "display_threads_start True"]
    by (simp add: display_threads_start_def signal_init_def display_created_def)
  moreover have "start_step ?ready display_created"
    using start_step.started [of ?ready] by (simp add: display_created_def)
  ultimately show ?thesis
    by (meson display_step_def converse_rtranclp_into_rtranclp r_into_rtranclp)
qed

theorem display_snapshots_owned_witness:
  "\<exists>s. display_step\<^sup>*\<^sup>* (display_threads_start True) s \<and> sh_live s = {7} \<and> owners s = [7] \<and> \<not> sh_fault s"
proof -
  let ?s = "display_created\<lparr>sh_live := {7}, sh_capture := Publishing 7\<rparr>"
  have "publish_step display_created (display_created\<lparr>sh_capture := Checked\<rparr>)"
    by (rule publish_step.check) (simp_all add: display_created_def)
  moreover have "publish_step (display_created\<lparr>sh_capture := Checked\<rparr>) ?s"
    using publish_step.allocate [of "display_created\<lparr>sh_capture := Checked\<rparr>" 7] by (simp add: display_created_def)
  ultimately have "display_step\<^sup>*\<^sup>* display_created ?s"
    by (meson display_step_def converse_rtranclp_into_rtranclp r_into_rtranclp)
  with display_created_reachable have "display_step\<^sup>*\<^sup>* (display_threads_start True) ?s" by (rule rtranclp_trans)
  with display_snapshots_owned [OF this] show ?thesis
    by (intro exI [of _ ?s]) (simp add: owners_def display_created_def)
qed

text \<open>
  C18: \<open>display_controller_destroy\<close> returns. From any reachable state in which the capture thread
  waits to join, every run of both threads has at most ten more steps, and the end, where the
  controller and every snapshot are freed, is reached.
\<close>

theorem display_destroy_returns:
  assumes "display_step\<^sup>*\<^sup>* (display_threads_start started) s" and "sh_capture s = Joining"
  shows "(\<exists>s'. display_step\<^sup>*\<^sup>* s s' \<and> sh_capture s' = Destroyed \<and> sh_live s' = {}) \<and>
    (\<forall>n s'. (display_step ^^ n) s s' \<longrightarrow> n \<le> 10)"
proof -
  have going: "being_destroyed s"
    using sharing_reachable_ok [OF assms(1)] assms(2) by (simp add: being_destroyed_def)
  have "render_rank w \<le> 7" for w by (cases w) simp_all
  then have "sharing_rank s \<le> 10" using assms(2) by (simp add: sharing_rank_def)
  then have bound: "n \<le> 10" if "(display_step ^^ n) s s'" for n s'
    using display_shutdown.run_bounded [OF that going] by simp
  obtain s' where s': "display_step\<^sup>*\<^sup>* s s'" "sh_capture s' = Destroyed"
    using display_shutdown.reaches_end [OF going] by blast
  with assms(1) have "sharing_ok s'" by (meson rtranclp_trans sharing_reachable_ok)
  with s'(2) have "sh_live s' = {}" by (simp add: owned_at_end)
  with s' bound show ?thesis by (intro conjI exI [of _ s'] allI impI) simp_all
qed

theorem display_destroy_returns_witness:
  "\<exists>s s'. sh_capture s = Joining \<and> sh_worker s = WHead \<and> display_step\<^sup>*\<^sup>* s s' \<and> sh_capture s' = Destroyed"
proof -
  let ?s = "display_created\<lparr>sh_running := False, sh_capture := Joining\<rparr>"
  have "destroy_step display_created ?s"
    by (rule destroy_step.stop_running) (simp add: display_created_def)
  then have "display_step\<^sup>*\<^sup>* display_created ?s" by (auto simp: display_step_def)
  with display_created_reachable have "display_step\<^sup>*\<^sup>* (display_threads_start True) ?s" by (rule rtranclp_trans)
  from display_destroy_returns [OF this] obtain s' where "display_step\<^sup>*\<^sup>* ?s s'" "sh_capture s' = Destroyed"
    by auto
  then show ?thesis
    by (intro exI [of _ ?s] exI [of _ s']) (simp add: display_created_def)
qed

end
