(* ===== verification/C_Text.thy ===== *)
theory C_Text
  imports C_Runtime
begin

text \<open>
  Text as the C library writes and reads it: the conversions \<open>%u\<close>, \<open>%zu\<close> and \<open>%02x\<close> of \<open>printf\<close>,
  \<open>inet_ntop\<close> for IPv4, and \<open>strtoul\<close> in base 10 on digits. The lemmas bound the lengths, give
  the characters that can occur and read back what was printed.
\<close>

section \<open>Decimal numbers\<close>

definition digit_char :: "nat \<Rightarrow> char" where
  "digit_char k = char_of (48 + k)"

fun decimal :: "nat \<Rightarrow> string" where
  "decimal n = (if n < 10 then [digit_char n] else decimal (n div 10) @ [digit_char (n mod 10)])"

declare decimal.simps [simp del]

definition is_digit :: "char \<Rightarrow> bool" where
  "is_digit c \<longleftrightarrow> 48 \<le> (of_char c :: nat) \<and> (of_char c :: nat) \<le> 57"

text \<open>The number a string of digits denotes, as \<open>strtoul\<close> accumulates it.\<close>

definition digits_value :: "string \<Rightarrow> nat" where
  "digits_value text = foldl (\<lambda>n c. 10 * n + (of_char c - 48)) 0 text"

lemma of_digit_char: "k < 10 \<Longrightarrow> of_char (digit_char k) = 48 + k"
  by (simp add: digit_char_def)

lemma is_digit_char [simp]: "k < 10 \<Longrightarrow> is_digit (digit_char k)"
  by (simp add: is_digit_def of_digit_char)

lemma decimal_digits: "c \<in> set (decimal n) \<Longrightarrow> is_digit c"
proof (induction n rule: decimal.induct)
  case (1 n)
  then show ?case by (subst (asm) (2) decimal.simps) (auto split: if_split_asm)
qed

lemma decimal_nonempty [simp]: "decimal n \<noteq> []"
  by (subst decimal.simps) simp

lemma digits_value_decimal [simp]: "digits_value (decimal n) = n"
proof (induction n rule: decimal.induct)
  case (1 n)
  show ?case
  proof (cases "n < 10")
    case True
    then show ?thesis by (subst decimal.simps) (simp add: digits_value_def of_digit_char)
  next
    case False
    have "digits_value (decimal n) = 10 * digits_value (decimal (n div 10)) + n mod 10"
      using False by (subst decimal.simps) (simp add: digits_value_def of_digit_char)
    with 1 False show ?thesis by simp
  qed
qed

lemma length_decimal: "n < 10 ^ Suc k \<Longrightarrow> length (decimal n) \<le> Suc k"
proof (induction k arbitrary: n)
  case 0
  then show ?case by (subst decimal.simps) simp
next
  case (Suc k)
  then have "n div 10 < 10 ^ Suc k" by (simp add: div_less_iff_less_mult mult.commute)
  with Suc.IH [of "n div 10"] show ?case by (subst decimal.simps) simp
qed

definition show_word :: "'a::len word \<Rightarrow> string" where
  "show_word w = decimal (unat w)"

lemma length_show_word:
  "length (show_word (x :: u8)) \<le> 3" "length (show_word (y :: u16)) \<le> 5"
  "length (show_word (z :: u32)) \<le> 10" "length (show_word (v :: u64)) \<le> 20"
  using unsigned_less [where 'a = nat, of x] unsigned_less [where 'a = nat, of y]
    unsigned_less [where 'a = nat, of z] unsigned_less [where 'a = nat, of v]
    length_decimal [of "unat x" 2] length_decimal [of "unat y" 4]
    length_decimal [of "unat z" 9] length_decimal [of "unat v" 19]
  by (simp_all add: show_word_def)

section \<open>Hexadecimal bytes\<close>

definition hex_char :: "nat \<Rightarrow> char" where
  "hex_char k = (if k < 10 then digit_char k else char_of (87 + k))"

definition show_hex :: "u8 \<Rightarrow> string" where
  "show_hex b = [hex_char (unat b div 16), hex_char (unat b mod 16)]"

lemma length_show_hex [simp]: "length (show_hex b) = 2"
  by (simp add: show_hex_def)

section \<open>Addresses\<close>

text \<open>
  \<open>inet_ntop(AF_INET, ...)\<close>: the four bytes in the order of memory, or \<open>NULL\<close> when the text with its
  terminator does not fit.
\<close>

definition dotted :: "u8 list \<Rightarrow> string" where
  "dotted bs = show_word (bs ! 0) @ ''.'' @ show_word (bs ! 1) @ ''.'' @ show_word (bs ! 2) @ ''.'' @
     show_word (bs ! 3)"

definition inet_ntop :: "endian \<Rightarrow> u32 \<Rightarrow> nat \<Rightarrow> string option" where
  "inet_ntop en address buffer_size =
     (let text = dotted (mem_u32 en address)
      in if length text < buffer_size then Some text else None)"

lemma length_dotted: "length (dotted bs) \<le> 15"
  using length_show_word(1) [of "bs ! 0"] length_show_word(1) [of "bs ! 1"]
    length_show_word(1) [of "bs ! 2"] length_show_word(1) [of "bs ! 3"]
  by (simp add: dotted_def)

text \<open>Reading: the numbers between the dots.\<close>

fun split_dots :: "string \<Rightarrow> string list" where
  "split_dots [] = [[]]"
| "split_dots (c # cs) =
     (if c = CHR ''.'' then [] # split_dots cs
      else (case split_dots cs of [] \<Rightarrow> [[c]] | part # parts \<Rightarrow> (c # part) # parts))"

lemma split_dots_word: "CHR ''.'' \<notin> set word \<Longrightarrow> split_dots word = [word]"
  by (induction word) auto

lemma split_dots_append:
  "CHR ''.'' \<notin> set word \<Longrightarrow> split_dots (word @ ''.'' @ rest) = word # split_dots rest"
  by (induction word) auto

lemma no_dot_in_number: "CHR ''.'' \<notin> set (show_word w)"
  using decimal_digits [of "CHR ''.''"] by (auto simp: show_word_def is_digit_def)

lemma split_dots_dotted:
  "split_dots (dotted bs) = [show_word (bs ! 0), show_word (bs ! 1), show_word (bs ! 2), show_word (bs ! 3)]"
  unfolding dotted_def by (simp add: split_dots_append split_dots_word no_dot_in_number del: append.simps)

section \<open>Lines\<close>

text \<open>A text without a line break, which stays one line of a log.\<close>

definition one_line :: "string \<Rightarrow> bool" where
  "one_line text \<longleftrightarrow> (\<forall>c \<in> set text. (of_char c :: nat) \<ge> 32)"

lemma one_line_append [simp]: "one_line (a @ b) \<longleftrightarrow> one_line a \<and> one_line b"
  by (auto simp: one_line_def)

lemma one_line_Cons [simp]: "one_line (c # b) \<longleftrightarrow> (of_char c :: nat) \<ge> 32 \<and> one_line b"
  by (auto simp: one_line_def)

lemma one_line_Nil [simp]: "one_line []"
  by (simp add: one_line_def)

lemma one_line_take: "one_line text \<Longrightarrow> one_line (take n text)"
  by (auto simp: one_line_def dest: in_set_takeD)

lemma one_line_numbers [simp]: "one_line (decimal n)" "one_line (show_word w)"
  using decimal_digits by (fastforce simp: one_line_def show_word_def is_digit_def)+

lemma one_line_hex [simp]: "one_line (show_hex b)"
proof -
  have "(of_char (hex_char k) :: nat) \<ge> 32" if "k < 16" for k
    using that by (auto simp: hex_char_def digit_char_def)
  moreover have "unat b div 16 < 16" using unsigned_less [where 'a = nat, of b] by simp
  ultimately show ?thesis by (simp add: show_hex_def)
qed

lemma one_line_dotted [simp]: "one_line (dotted bs)"
  by (simp add: dotted_def)

section \<open>strtoul\<close>

text \<open>
  \<open>strtoul(text, &end, 10)\<close> on a non-empty string of digits: the value, and \<open>ERANGE\<close> with
  \<open>ULONG_MAX\<close> when it does not fit. The whole string is consumed.
\<close>

definition strtoul_digits :: "string \<Rightarrow> u64 \<times> bool" where
  "strtoul_digits text =
     (let n = digits_value text in if n < 2 ^ 64 then (of_nat n, True) else (- 1, False))"

end
