(* ===== verification/Logger.thy ===== *)
theory Logger
  imports C_Text Events
begin

text \<open>
  The logger of \<open>src/logger.c\<close>: the texts of addresses, TCP flags and timestamps, the message of an
  event for the terminal and for the log, and opening, writing and closing the log. A character
  buffer of \<open>n\<close> bytes is the text it holds, cut to \<open>n - 1\<close> characters; \<open>time\<close>, \<open>localtime_r\<close> and
  \<open>strftime\<close> come in through the argument \<open>raw_time\<close>, standard output and the file are strings.
\<close>

section \<open>Names\<close>

definition severity_name :: "event_severity \<Rightarrow> string" where
  "severity_name severity = (if severity = EVENT_SEVERITY_ALERT then ''ALERT'' else ''INFO'')"

definition service_hint_name :: "service_hint \<Rightarrow> string option" where
  "service_hint_name hint =
     (case hint of
        SERVICE_HINT_SSH \<Rightarrow> Some ''SSH''
      | SERVICE_HINT_HTTP \<Rightarrow> Some ''HTTP''
      | SERVICE_HINT_HTTPS \<Rightarrow> Some ''HTTPS''
      | SERVICE_HINT_DNS \<Rightarrow> Some ''DNS''
      | SERVICE_HINT_DHCP \<Rightarrow> Some ''DHCP''
      | SERVICE_HINT_NONE \<Rightarrow> None)"

section \<open>Fields\<close>

definition format_mac :: "u8 list \<Rightarrow> nat \<Rightarrow> string" where
  "format_mac mac buffer_size = c_snprintf buffer_size
     (show_hex (mac ! 0) @ '':'' @ show_hex (mac ! 1) @ '':'' @ show_hex (mac ! 2) @ '':'' @
      show_hex (mac ! 3) @ '':'' @ show_hex (mac ! 4) @ '':'' @ show_hex (mac ! 5))"

definition format_ipv4 :: "endian \<Rightarrow> u32 \<Rightarrow> nat \<Rightarrow> string" where
  "format_ipv4 en ipv4_network_order buffer_size =
     (case inet_ntop en ipv4_network_order buffer_size of
        None \<Rightarrow> c_strncpy buffer_size ''0.0.0.0''
      | Some text \<Rightarrow> text)"

text \<open>
  One block of \<open>format_tcp_flags\<close>: if \<open>shown\<close>, append the name at \<open>written\<close> after a comma unless it
  is the first. \<open>c_snprintf_at\<close> gives the buffer and the length \<open>snprintf\<close> returns.
\<close>

definition append_flag :: "nat \<Rightarrow> bool \<Rightarrow> string \<Rightarrow> string \<times> nat \<Rightarrow> string \<times> nat" where
  "append_flag buffer_size shown name state =
     (case state of (buffer, written) \<Rightarrow>
        if shown
        then (case c_snprintf_at buffer_size buffer written ((if written = 0 then [] else '','') @ name) of
                (buffer, n) \<Rightarrow> (buffer, written + n))
        else (buffer, written))"

definition format_tcp_flags :: "u8 \<Rightarrow> nat \<Rightarrow> string" where
  "format_tcp_flags flags buffer_size =
     (let (buffer, written) = append_flag buffer_size (flags AND 0x02 \<noteq> 0) ''SYN'' ([], 0);
          (buffer, written) =
            append_flag buffer_size (flags AND 0x10 \<noteq> 0 \<and> written < buffer_size) ''ACK'' (buffer, written);
          (buffer, written) =
            append_flag buffer_size (flags AND 0x01 \<noteq> 0 \<and> written < buffer_size) ''FIN'' (buffer, written);
          (buffer, written) =
            append_flag buffer_size (flags AND 0x04 \<noteq> 0 \<and> written < buffer_size) ''RST'' (buffer, written)
      in if written = 0 then c_strncpy buffer_size ''NONE'' else buffer)"

text \<open>
  \<open>raw_time now\<close> is what \<open>strftime\<close> leaves in the 32 bytes of \<open>raw_buffer\<close> for the local time, or
  \<open>None\<close> when it returns 0.
\<close>

definition format_timestamp :: "(time_t \<Rightarrow> string option) \<Rightarrow> time_t \<Rightarrow> nat \<Rightarrow> string" where
  "format_timestamp raw_time now buffer_size =
     (if now = time_error then c_strncpy buffer_size ''1970-01-01T00:00:00+00:00''
      else (case raw_time now of
              None \<Rightarrow> c_strncpy buffer_size ''1970-01-01T00:00:00+00:00''
            | Some raw_buffer \<Rightarrow>
                let raw_length = length raw_buffer
                in if raw_length \<ge> 5 \<and>
                      (raw_buffer ! (raw_length - 5) = CHR ''+'' \<or> raw_buffer ! (raw_length - 5) = CHR ''-'')
                   then c_snprintf buffer_size
                          (take (raw_length - 5) raw_buffer @
                           [raw_buffer ! (raw_length - 5), raw_buffer ! (raw_length - 4),
                            raw_buffer ! (raw_length - 3)] @ '':'' @
                           [raw_buffer ! (raw_length - 2), raw_buffer ! (raw_length - 1)])
                   else c_strncpy buffer_size raw_buffer))"

section \<open>Messages\<close>

abbreviation "INET_ADDRSTRLEN \<equiv> (16 :: nat)"
abbreviation "ARPOP_REQUEST \<equiv> (1 :: u16)"
abbreviation "ARPOP_REPLY \<equiv> (2 :: u16)"

definition build_terminal_message :: "endian \<Rightarrow> event \<Rightarrow> nat \<Rightarrow> string" where
  "build_terminal_message en event buffer_size =
     (let packet = ev_packet event;
          hint = service_hint_name (service_hint packet);
          ip = (\<lambda>address. format_ipv4 en address INET_ADDRSTRLEN);
          src_ip = ip (src_ipv4 packet);
          dst_ip = ip (dst_ipv4 packet);
          sender_ip = ip (arp_sender_ipv4 packet);
          target_ip = ip (arp_target_ipv4 packet);
          print = c_snprintf buffer_size
      in case ev_kind event of
           EVENT_KIND_ARP \<Rightarrow>
             if arp_opcode packet = ARPOP_REQUEST
             then print (''ARP REQUEST '' @ sender_ip @ '' asks for '' @ target_ip)
             else if arp_opcode packet = ARPOP_REPLY
             then print (''ARP REPLY '' @ sender_ip @ '' is-at '' @ format_mac (arp_sender_mac packet) 18)
             else print (''ARP OPCODE='' @ show_word (arp_opcode packet) @ '' '' @ sender_ip @ '' -> '' @ target_ip)
         | EVENT_KIND_IPV6_OBSERVED \<Rightarrow> print ''IPv6 packet observed''
         | EVENT_KIND_IPV4_PROTOCOL \<Rightarrow>
             if ipv4_fragmented packet \<and> \<not> ipv4_l4_header_available packet
             then print (''IPv4 fragmented packet '' @ src_ip @ '' -> '' @ dst_ip @ '' PROTOCOL='' @
                         show_word (ip_protocol packet))
             else print (''IPv4 '' @ src_ip @ '' -> '' @ dst_ip @ '' PROTOCOL='' @ show_word (ip_protocol packet))
         | EVENT_KIND_ICMP \<Rightarrow>
             if icmp_type packet = ICMP_ECHO
             then print (''ICMP Echo Request '' @ src_ip @ '' -> '' @ dst_ip)
             else if icmp_type packet = ICMP_ECHOREPLY
             then print (''ICMP Echo Reply '' @ src_ip @ '' -> '' @ dst_ip)
             else print (''ICMP TYPE='' @ show_word (icmp_type packet) @ '' CODE='' @
                         show_word (icmp_code packet) @ '' '' @ src_ip @ '' -> '' @ dst_ip)
         | EVENT_KIND_TCP \<Rightarrow>
             (let flags = format_tcp_flags (tcp_flags packet) 32;
                  line = ''TCP '' @ src_ip @ '':'' @ show_word (src_port packet) @ '' -> '' @ dst_ip @ '':'' @
                         show_word (dst_port packet) @ '' FLAGS='' @ flags
              in case hint of
                   Some name \<Rightarrow> print (line @ '' SERVICE_HINT='' @ name)
                 | None \<Rightarrow> print line)
         | EVENT_KIND_UDP \<Rightarrow>
             (let line = ''UDP '' @ src_ip @ '':'' @ show_word (src_port packet) @ '' -> '' @ dst_ip @ '':'' @
                         show_word (dst_port packet)
              in case hint of
                   Some name \<Rightarrow> print (line @ '' SERVICE_HINT='' @ name)
                 | None \<Rightarrow> print line)
         | EVENT_KIND_PORT_SCAN \<Rightarrow>
             print (''Possible port scan SRC='' @ src_ip @ '' UNIQUE_PORTS='' @
                    show_word (ev_scan_unique_ports event) @ '' WINDOW='' @
                    show_word (ev_scan_window_seconds event) @ ''s'')
         | EVENT_KIND_NONE \<Rightarrow> c_strncpy buffer_size ''Unknown event'')"

definition build_log_message :: "endian \<Rightarrow> event \<Rightarrow> nat \<Rightarrow> string" where
  "build_log_message en event buffer_size =
     (let packet = ev_packet event;
          hint = service_hint_name (service_hint packet);
          ip = (\<lambda>address. format_ipv4 en address INET_ADDRSTRLEN);
          src_ip = ip (src_ipv4 packet);
          dst_ip = ip (dst_ipv4 packet);
          print = c_snprintf buffer_size
      in case ev_kind event of
           EVENT_KIND_ARP \<Rightarrow>
             print (''ARP OPCODE='' @ show_word (arp_opcode packet) @ '' SRC='' @ ip (arp_sender_ipv4 packet) @
                    '' SMAC='' @ format_mac (arp_sender_mac packet) 18 @ '' TARGET='' @ ip (arp_target_ipv4 packet))
         | EVENT_KIND_IPV6_OBSERVED \<Rightarrow> print ''IPV6 OBSERVED''
         | EVENT_KIND_IPV4_PROTOCOL \<Rightarrow>
             print (''IPV4 SRC='' @ src_ip @ '' DST='' @ dst_ip @ '' PROTOCOL='' @ show_word (ip_protocol packet) @
                    '' FRAGMENTED='' @ (if ipv4_fragmented packet then ''YES'' else ''NO''))
         | EVENT_KIND_ICMP \<Rightarrow>
             print (''ICMP SRC='' @ src_ip @ '' DST='' @ dst_ip @ '' TYPE='' @ show_word (icmp_type packet) @
                    '' CODE='' @ show_word (icmp_code packet))
         | EVENT_KIND_TCP \<Rightarrow>
             (let line = ''TCP SRC='' @ src_ip @ '' SPORT='' @ show_word (src_port packet) @ '' DST='' @ dst_ip @
                         '' DPORT='' @ show_word (dst_port packet) @ '' FLAGS='' @
                         format_tcp_flags (tcp_flags packet) 32 @ '' SEQ='' @ show_word (tcp_sequence packet) @
                         '' ACKNUM='' @ show_word (tcp_acknowledgment packet) @ '' HLEN='' @
                         show_word (tcp_header_length packet)
              in case hint of
                   Some name \<Rightarrow> print (line @ '' SERVICE_HINT='' @ name)
                 | None \<Rightarrow> print line)
         | EVENT_KIND_UDP \<Rightarrow>
             (let line = ''UDP SRC='' @ src_ip @ '' SPORT='' @ show_word (src_port packet) @ '' DST='' @ dst_ip @
                         '' DPORT='' @ show_word (dst_port packet) @ '' LEN='' @ show_word (udp_length packet)
              in case hint of
                   Some name \<Rightarrow> print (line @ '' SERVICE_HINT='' @ name)
                 | None \<Rightarrow> print line)
         | EVENT_KIND_PORT_SCAN \<Rightarrow>
             print (''PORT_SCAN SRC='' @ src_ip @ '' UNIQUE_PORTS='' @ show_word (ev_scan_unique_ports event) @
                    '' WINDOW='' @ show_word (ev_scan_window_seconds event) @ ''s'')
         | EVENT_KIND_NONE \<Rightarrow> c_strncpy buffer_size ''UNKNOWN'')"

section \<open>The logger\<close>

text \<open>\<open>lg_log_file\<close> says that the pointer is not \<open>NULL\<close>; the streams are outside the logger.\<close>

record logger =
  lg_log_file :: bool

record streams =
  st_stdout :: string
  st_log :: string

datatype logger_call = LogAlloc | LogOpen | LogClose | LogFree

text \<open>The error text is what the buffer of the caller holds, if it passed one.\<close>

definition logger_open ::
  "bool \<Rightarrow> bool \<Rightarrow> string option \<Rightarrow> string option \<Rightarrow> nat \<Rightarrow>
   logger option \<times> string option \<times> logger_call list" where
  "logger_open alloc_ok fopen_ok path error_buffer error_buffer_size =
     (let report = (\<lambda>text. case error_buffer of
                       None \<Rightarrow> None
                     | Some old \<Rightarrow> if error_buffer_size > 0 then Some (text error_buffer_size) else Some old)
      in case path of
           None \<Rightarrow> (None, report (\<lambda>n. c_strncpy n ''log path is required''), [])
         | Some p \<Rightarrow>
             if \<not> alloc_ok then (None, report (\<lambda>n. c_strncpy n ''failed to allocate logger''), [LogAlloc])
             else if \<not> fopen_ok
               then (None, report (\<lambda>n. c_snprintf n (''failed to open log file: '' @ p)),
                     [LogAlloc, LogOpen, LogFree])
             else (Some \<lparr>lg_log_file = True\<rparr>, report (\<lambda>_. []), [LogAlloc, LogOpen]))"

text \<open>The conversion \<open>%-5s\<close>.\<close>

definition pad_right :: "nat \<Rightarrow> string \<Rightarrow> string" where
  "pad_right n text = text @ replicate (n - length text) (CHR '' '')"

abbreviation newline :: string where
  "newline \<equiv> [CHR 0x0A]"

definition logger_emit ::
  "endian \<Rightarrow> (time_t \<Rightarrow> string option) \<Rightarrow> time_t \<Rightarrow> logger option \<Rightarrow> event option \<Rightarrow> streams \<Rightarrow> streams" where
  "logger_emit en raw_time now logger event io =
     (case (logger, event) of
        (Some l, Some e) \<Rightarrow>
          let terminal_message = build_terminal_message en e 512;
              log_message = build_log_message en e 512;
              io = (if ev_should_print e
                    then io\<lparr>st_stdout := st_stdout io @ ''['' @ pad_right 5 (severity_name (ev_severity e)) @
                              ''] '' @ terminal_message @ newline\<rparr>
                    else io)
          in if ev_should_log e \<and> lg_log_file l
             then io\<lparr>st_log := st_log io @ format_timestamp raw_time now 40 @ '' '' @
                       severity_name (ev_severity e) @ '' '' @ log_message @ newline\<rparr>
             else io
      | _ \<Rightarrow> io)"

definition logger_close :: "logger option \<Rightarrow> logger_call list" where
  "logger_close logger =
     (case logger of
        None \<Rightarrow> []
      | Some l \<Rightarrow> (if lg_log_file l then [LogClose] else []) @ [LogFree])"

end
