(* ===== verification/Logger_Properties.thy ===== *)
theory Logger_Properties
  imports Logger
begin

text \<open>
  What the logger promises: no message is cut by the 512-byte buffers, the flags and addresses of a
  message are exactly those of the packet, and an event is one line on each stream it goes to.
\<close>

section \<open>Lengths\<close>

text \<open>\<open>short k text\<close> bounds a text; the rules compute the bound along the concatenations.\<close>

definition short :: "nat \<Rightarrow> string \<Rightarrow> bool" where
  "short k text \<longleftrightarrow> length text \<le> k"

lemma short_append: "short a x \<Longrightarrow> short b y \<Longrightarrow> short (a + b) (x @ y)"
  by (simp add: short_def)

lemma short_words:
  "short 3 (show_word (x :: u8))" "short 5 (show_word (y :: u16))"
  "short 10 (show_word (z :: u32))" "short 20 (show_word (v :: u64))"
  by (simp_all add: short_def length_show_word)

lemma short_ipv4: "short 15 (format_ipv4 en address 16)"
  using length_dotted [of "mem_u32 en address"]
  by (simp add: short_def format_ipv4_def inet_ntop_def Let_def)

lemma short_mac: "short 17 (format_mac mac 18)"
  by (simp add: short_def format_mac_def c_snprintf_def)

lemma short_hint: "service_hint_name hint = Some name \<Longrightarrow> short 5 name"
  by (auto simp: service_hint_name_def short_def split: service_hint.splits)

lemma short_literal: "short (length text) text"
  by (simp add: short_def)

text \<open>The flags that are shown, in the order of the code.\<close>

definition shown_flags :: "u8 \<Rightarrow> string list" where
  "shown_flags flags =
     (if flags AND TH_SYN \<noteq> 0 then [''SYN''] else []) @ (if flags AND TH_ACK \<noteq> 0 then [''ACK''] else []) @
     (if flags AND TH_FIN \<noteq> 0 then [''FIN''] else []) @ (if flags AND TH_RST \<noteq> 0 then [''RST''] else [])"

fun join_commas :: "string list \<Rightarrow> string" where
  "join_commas [] = ''NONE''"
| "join_commas [name] = name"
| "join_commas (name # names) = name @ '','' @ join_commas names"

lemma format_tcp_flags_exact: "format_tcp_flags flags 32 = join_commas (shown_flags flags)"
  by (cases "flags AND 0x02 \<noteq> 0"; cases "flags AND 0x10 \<noteq> 0"; cases "flags AND 0x01 \<noteq> 0";
      cases "flags AND 0x04 \<noteq> 0")
    (simp_all add: format_tcp_flags_def append_flag_def c_snprintf_at_def shown_flags_def c_strncpy_def)

lemma short_flags: "short 15 (format_tcp_flags flags 32)"
  by (cases "flags AND 0x02 \<noteq> 0"; cases "flags AND 0x10 \<noteq> 0"; cases "flags AND 0x01 \<noteq> 0";
      cases "flags AND 0x04 \<noteq> 0")
    (simp_all add: format_tcp_flags_exact shown_flags_def short_def)

lemmas short_rules = short_append short_words short_ipv4 short_mac short_flags

lemma uncut:
  "short k text \<Longrightarrow> k \<le> 511 \<Longrightarrow> c_snprintf (512 + n) text = c_snprintf 512 text"
  "short k text \<Longrightarrow> k \<le> 511 \<Longrightarrow> c_strncpy (512 + n) text = c_strncpy 512 text"
  by (simp_all add: short_def c_snprintf_def c_strncpy_def)

lemma short_if: "short a x \<Longrightarrow> short b y \<Longrightarrow> short (max a b) (if c then x else y)"
  by (auto simp: short_def)

lemma terminal_uncut: "build_terminal_message en e (512 + n) = build_terminal_message en e 512"
proof (cases "ev_kind e")
  case EVENT_KIND_TCP
  show ?thesis
    by (cases "service_hint_name (service_hint (ev_packet e))",
        simp_all only: build_terminal_message_def Let_def EVENT_KIND_TCP event_kind.case option.case)
      (rule uncut(1), (rule short_rules | erule short_hint | rule short_literal)+, simp)+
next
  case EVENT_KIND_UDP
  show ?thesis
    by (cases "service_hint_name (service_hint (ev_packet e))",
        simp_all only: build_terminal_message_def Let_def EVENT_KIND_UDP event_kind.case option.case)
      (rule uncut(1), (rule short_rules | erule short_hint | rule short_literal)+, simp)+
qed (simp_all only: build_terminal_message_def Let_def event_kind.case,
  ((rule if_cong [OF refl])+ | rule uncut,
    (rule short_rules | rule short_literal)+, simp)+)

lemma log_uncut: "build_log_message en e (512 + n) = build_log_message en e 512"
proof (cases "ev_kind e")
  case EVENT_KIND_TCP
  show ?thesis
    by (cases "service_hint_name (service_hint (ev_packet e))",
        simp_all only: build_log_message_def Let_def EVENT_KIND_TCP event_kind.case option.case)
      (rule uncut(1), (rule short_rules | erule short_hint | rule short_literal)+, simp)+
next
  case EVENT_KIND_UDP
  show ?thesis
    by (cases "service_hint_name (service_hint (ev_packet e))",
        simp_all only: build_log_message_def Let_def EVENT_KIND_UDP event_kind.case option.case)
      (rule uncut(1), (rule short_rules | erule short_hint | rule short_literal)+, simp)+
qed (simp_all only: build_log_message_def Let_def event_kind.case,
  (rule uncut, (rule short_rules short_if | rule short_literal)+, simp)+)

section \<open>Lines\<close>

lemma one_line_fields:
  "one_line (format_mac mac k)" "one_line (format_ipv4 en address k)" "one_line (format_tcp_flags flags 32)"
  "service_hint_name hint = Some name \<Longrightarrow> one_line name" "one_line (severity_name severity)"
  "one_line (pad_right k (severity_name severity))"
proof -
  show "one_line (format_mac mac k)" by (simp add: format_mac_def c_snprintf_def one_line_take)
  show "one_line (format_ipv4 en address k)"
    by (simp add: format_ipv4_def inet_ntop_def c_strncpy_def one_line_take Let_def)
  show "one_line (format_tcp_flags flags 32)" by (simp add: format_tcp_flags_exact shown_flags_def)
  show "service_hint_name hint = Some name \<Longrightarrow> one_line name"
    by (auto simp: service_hint_name_def split: service_hint.splits)
  show sev: "one_line (severity_name severity)" by (simp add: severity_name_def)
  then show "one_line (pad_right k (severity_name severity))"
    by (auto simp: pad_right_def one_line_def)
qed

lemma one_line_cut: "one_line text \<Longrightarrow> one_line (c_snprintf k text)" "one_line text \<Longrightarrow> one_line (c_strncpy k text)"
  by (simp_all add: c_snprintf_def c_strncpy_def one_line_take)

lemma one_line_messages:
  "one_line (build_terminal_message en e k)" "one_line (build_log_message en e k)"
proof -
  show "one_line (build_terminal_message en e k)"
    by (cases "ev_kind e"; cases "service_hint_name (service_hint (ev_packet e))")
      (auto simp: build_terminal_message_def Let_def one_line_fields(1-3) intro!: one_line_cut dest: one_line_fields(4))
  show "one_line (build_log_message en e k)"
    by (cases "ev_kind e"; cases "service_hint_name (service_hint (ev_packet e))")
      (auto simp: build_log_message_def Let_def one_line_fields(1-3) intro!: one_line_cut dest: one_line_fields(4))
qed

lemma one_line_timestamp:
  assumes "case raw_time now of None \<Rightarrow> True | Some raw \<Rightarrow> one_line raw"
  shows "one_line (format_timestamp raw_time now k)"
proof (cases "raw_time now")
  case None
  then show ?thesis by (simp add: format_timestamp_def one_line_cut)
next
  case (Some raw)
  with assms have raw: "one_line raw" by simp
  then have "(of_char (raw ! i) :: nat) \<ge> 32" if "i < length raw" for i
    using that by (auto simp: one_line_def)
  with Some raw show ?thesis
    by (auto simp: format_timestamp_def Let_def intro!: one_line_cut one_line_take)
qed

text \<open>The local time with its offset: 25 characters of ISO 8601 once the colon is in.\<close>

lemma timestamp_colon:
  assumes "raw_time now = Some (date @ [sign, h1, h2, m1, m2])" "now \<noteq> time_error"
    and "sign = CHR ''+'' \<or> sign = CHR ''-''" "length date < 34"
  shows "format_timestamp raw_time now 40 = date @ [sign, h1, h2] @ '':'' @ [m1, m2]"
  using assms by (auto simp: format_timestamp_def c_snprintf_def nth_append)

lemma shown_bits:
  "flags AND TH_SYN = 0 \<longleftrightarrow> \<not> bit flags 1" "flags AND TH_ACK = 0 \<longleftrightarrow> \<not> bit flags 4"
  "flags AND TH_FIN = 0 \<longleftrightarrow> \<not> bit flags 0" "flags AND TH_RST = 0 \<longleftrightarrow> \<not> bit flags 2"
  using and_exp_eq_0_iff_not_bit [of flags 1] and_exp_eq_0_iff_not_bit [of flags 4]
    and_exp_eq_0_iff_not_bit [of flags 0] and_exp_eq_0_iff_not_bit [of flags 2] by simp_all

lemma shown_mask: "bit (TH_SYN OR TH_ACK OR TH_FIN OR TH_RST) n \<longleftrightarrow> n \<in> {0, 1, 2, 4}"
proof (cases "n < 8")
  case True
  then show ?thesis by (auto simp: eval_nat_numeral less_Suc_eq bit_simps)
next
  case False
  then show ?thesis by (auto dest: bit_imp_le_length)
qed

lemma shown_flags_inj:
  "(join_commas (shown_flags flags) = join_commas (shown_flags flags')) =
   (flags AND (TH_SYN OR TH_ACK OR TH_FIN OR TH_RST) = flags' AND (TH_SYN OR TH_ACK OR TH_FIN OR TH_RST))"
proof -
  have "(flags AND (TH_SYN OR TH_ACK OR TH_FIN OR TH_RST) = flags' AND (TH_SYN OR TH_ACK OR TH_FIN OR TH_RST)) \<longleftrightarrow>
      (bit flags 0 = bit flags' 0 \<and> bit flags 1 = bit flags' 1 \<and> bit flags 2 = bit flags' 2 \<and> bit flags 4 = bit flags' 4)"
    unfolding bit_eq_iff bit_and_iff shown_mask by (simp add: numeral_eq_Suc All_less_Suc) argo
  then show ?thesis
    by (cases "bit flags 0"; cases "bit flags 1"; cases "bit flags 2"; cases "bit flags 4")
      (simp_all add: shown_flags_def shown_bits)
qed

section \<open>Properties\<close>

text \<open>
  C22: an event is one line. Emitting an event appends one line to standard output exactly when it
  should be printed and one line to the log exactly when it should be logged and the log is open;
  a line holds no line break or other control character whatever the packet held, so a packet
  cannot forge a second entry. The lines begin with the severity and end with the message.
\<close>

theorem logger_emit_one_line:
  assumes "case raw_time now of None \<Rightarrow> True | Some raw \<Rightarrow> one_line raw"
  shows "\<exists>terminal entry.
    logger_emit en raw_time now (Some l) (Some e) io =
      \<lparr>st_stdout = st_stdout io @ (if ev_should_print e then terminal @ newline else []),
       st_log = st_log io @ (if ev_should_log e \<and> lg_log_file l then entry @ newline else [])\<rparr> \<and>
    one_line terminal \<and> one_line entry \<and>
    terminal = (if ev_severity e = EVENT_SEVERITY_ALERT then ''[ALERT] '' else ''[INFO ] '') @
      build_terminal_message en e 512 \<and>
    entry = format_timestamp raw_time now 40 @
      (if ev_severity e = EVENT_SEVERITY_ALERT then '' ALERT '' else '' INFO '') @ build_log_message en e 512"
proof -
  let ?terminal = "(if ev_severity e = EVENT_SEVERITY_ALERT then ''[ALERT] '' else ''[INFO ] '') @
    build_terminal_message en e 512"
  let ?entry = "format_timestamp raw_time now 40 @
    (if ev_severity e = EVENT_SEVERITY_ALERT then '' ALERT '' else '' INFO '') @ build_log_message en e 512"
  have "logger_emit en raw_time now (Some l) (Some e) io =
      \<lparr>st_stdout = st_stdout io @ (if ev_should_print e then ?terminal @ newline else []),
       st_log = st_log io @ (if ev_should_log e \<and> lg_log_file l then ?entry @ newline else [])\<rparr>"
    by (cases "ev_should_print e"; cases "ev_should_log e \<and> lg_log_file l")
      (simp_all add: logger_emit_def Let_def severity_name_def pad_right_def numeral_eq_Suc)
  moreover have "one_line ?terminal" "one_line ?entry"
    using one_line_timestamp [of raw_time now 40, OF assms] by (auto simp: one_line_messages)
  ultimately show ?thesis by blast
qed

definition utc_time :: "time_t \<Rightarrow> string option" where
  "utc_time now = (if now = 0 then Some ''1970-01-01T00:00:00+0000'' else None)"

theorem logger_emit_one_line_witness:
  "\<exists>entry. logger_emit Little utc_time 0 (Some \<lparr>lg_log_file = True\<rparr>)
     (Some (event_zero\<lparr>ev_kind := EVENT_KIND_IPV6_OBSERVED, ev_should_log := True\<rparr>)) \<lparr>st_stdout = [], st_log = []\<rparr> =
     \<lparr>st_stdout = [], st_log = entry @ newline\<rparr> \<and> one_line entry \<and>
   entry = ''1970-01-01T00:00:00+00:00 INFO IPV6 OBSERVED''"
proof -
  have raw: "case utc_time 0 of None \<Rightarrow> True | Some raw \<Rightarrow> one_line raw" by (simp add: utc_time_def)
  have stamp: "format_timestamp utc_time 0 40 = ''1970-01-01T00:00:00+00:00''"
    by (simp add: format_timestamp_def utc_time_def c_snprintf_def)
  show ?thesis
    using logger_emit_one_line [of utc_time 0, OF raw, of Little "\<lparr>lg_log_file = True\<rparr>"
        "event_zero\<lparr>ev_kind := EVENT_KIND_IPV6_OBSERVED, ev_should_log := True\<rparr>" "\<lparr>st_stdout = [], st_log = []\<rparr>"]
    by (auto simp: stamp event_zero_def build_log_message_def c_snprintf_def)
qed

text \<open>
  C29: no message is cut. With any larger buffer both messages of an event are the same as with the
  512 bytes of \<open>logger_emit\<close>, for every event.
\<close>

theorem logger_messages_uncut:
  "build_terminal_message en e (512 + n) = build_terminal_message en e 512 \<and>
   build_log_message en e (512 + n) = build_log_message en e 512"
  by (simp add: terminal_uncut log_uncut)

text \<open>
  C30: addresses and flags read back. The text of an address, split at its dots, gives the four
  bytes of the packet in their order; so two addresses with the same text are equal. Of the flags
  the text shows SYN, ACK, FIN and RST and no other: it is the names of the set ones of these four in
  this order with commas between them, \<open>NONE\<close> when none of them is set, never cut by the 32-byte
  buffer, and it tells apart exactly the flags that differ in one of the four.
\<close>

theorem logger_fields_readable:
  "map digits_value (split_dots (format_ipv4 en address INET_ADDRSTRLEN)) =
     map unat (take 4 (mem_u32 en address)) \<and>
   format_tcp_flags flags 32 = join_commas (shown_flags flags) \<and>
   (format_tcp_flags flags 32 = format_tcp_flags flags' 32) =
     (flags AND (TH_SYN OR TH_ACK OR TH_FIN OR TH_RST) = flags' AND (TH_SYN OR TH_ACK OR TH_FIN OR TH_RST))"
proof -
  have "length (mem_u32 en address) = 4" by (cases en) (simp_all add: mem_u32_def)
  then obtain a b c d where bytes: "mem_u32 en address = [a, b, c, d]"
    by (auto simp: numeral_eq_Suc length_Suc_conv)
  have "format_ipv4 en address INET_ADDRSTRLEN = dotted (mem_u32 en address)"
    using length_dotted [of "mem_u32 en address"] by (simp add: format_ipv4_def inet_ntop_def Let_def)
  then show ?thesis
    by (simp add: split_dots_dotted bytes show_word_def format_tcp_flags_exact shown_flags_inj)
qed

end
