(* ===== verification/Capture.thy ===== *)
theory Capture
  imports C_Runtime
begin

text \<open>
  The capture wrapper of \<open>src/capture.c\<close>. \<open>libpcap\<close> is a parameter: what \<open>pcap_open_live\<close> answers,
  and for \<open>pcap_loop\<close> the packets it delivers before it returns and the value it returns. The
  documented behaviour the code relies on is that it calls the callback once per packet, in order.
\<close>

section \<open>State\<close>

record capture_handle =
  ch_pcap_handle :: bool

text \<open>The two fields of \<open>struct pcap_pkthdr\<close> the program reads.\<close>

record pcap_pkthdr =
  caplen :: u32
  len :: u32

type_synonym 'u packet_callback = "pcap_pkthdr option \<Rightarrow> u8 list option \<Rightarrow> 'u \<Rightarrow> 'u"

record 'u capture_loop_context =
  cl_callback :: "'u packet_callback option"
  cl_user_data :: 'u

datatype capture_call =
    PcapOpen
  | PcapClose
  | PcapBreak
  | CaptureAlloc
  | CaptureFree

section \<open>Operations\<close>

definition copy_error :: "string option \<Rightarrow> nat \<Rightarrow> string option \<Rightarrow> string option" where
  "copy_error destination destination_size source =
     (case destination of
        None \<Rightarrow> None
      | Some old \<Rightarrow>
          if destination_size = 0 then Some old
          else (case source of
                  None \<Rightarrow> Some []
                | Some s \<Rightarrow> Some (c_strncpy destination_size s)))"

text \<open>A call of the dispatcher: the user data after it.\<close>

definition capture_dispatch ::
  "'u capture_loop_context option \<Rightarrow> pcap_pkthdr option \<Rightarrow> u8 list option \<Rightarrow> 'u capture_loop_context option" where
  "capture_dispatch user header packet =
     (case user of
        None \<Rightarrow> None
      | Some context \<Rightarrow>
          (case cl_callback context of
             None \<Rightarrow> Some context
           | Some callback \<Rightarrow>
               Some (context\<lparr>cl_user_data := callback header packet (cl_user_data context)\<rparr>)))"

text \<open>
  \<open>opened\<close> is \<open>Inl\<close> the text \<open>pcap_open_live\<close> leaves in its error buffer, or \<open>Inr ()\<close>. The results are
  the handle, the error buffer of the caller and the calls.
\<close>

definition capture_open ::
  "string + unit \<Rightarrow> bool \<Rightarrow> string option \<Rightarrow> string option \<Rightarrow> nat \<Rightarrow>
   capture_handle option \<times> string option \<times> capture_call list" where
  "capture_open opened alloc_ok interface_name error_buffer error_buffer_size =
     (let report = copy_error error_buffer error_buffer_size
      in if interface_name = None then (None, report (Some ''interface name is required''), [])
         else (case opened of
                 Inl pcap_error_buffer \<Rightarrow> (None, report (Some pcap_error_buffer), [PcapOpen])
               | Inr _ \<Rightarrow>
                   if \<not> alloc_ok
                   then (None, report (Some ''failed to allocate capture handle''),
                         [PcapOpen, CaptureAlloc, PcapClose])
                   else (Some \<lparr>ch_pcap_handle = True\<rparr>, report (Some []), [PcapOpen, CaptureAlloc])))"

text \<open>The packets \<open>pcap_loop\<close> hands to the dispatcher, one after the other.\<close>

fun pcap_deliver ::
  "(pcap_pkthdr option \<times> u8 list option) list \<Rightarrow> 'u capture_loop_context option \<Rightarrow>
   'u capture_loop_context option" where
  "pcap_deliver [] user = user"
| "pcap_deliver ((header, packet) # rest) user = pcap_deliver rest (capture_dispatch user header packet)"

definition capture_loop ::
  "(pcap_pkthdr option \<times> u8 list option) list \<Rightarrow> int \<Rightarrow> capture_handle option \<Rightarrow>
   'u packet_callback option \<Rightarrow> 'u \<Rightarrow> int \<times> 'u" where
  "capture_loop delivered returned handle callback user_data =
     (case (handle, callback) of
        (Some h, Some f) \<Rightarrow>
          if \<not> ch_pcap_handle h then (- 1, user_data)
          else (case pcap_deliver delivered (Some \<lparr>cl_callback = Some f, cl_user_data = user_data\<rparr>) of
                  None \<Rightarrow> (returned, user_data)
                | Some context \<Rightarrow> (returned, cl_user_data context))
      | _ \<Rightarrow> (- 1, user_data))"

definition capture_break :: "capture_handle option \<Rightarrow> capture_call list" where
  "capture_break handle =
     (case handle of None \<Rightarrow> [] | Some h \<Rightarrow> if ch_pcap_handle h then [PcapBreak] else [])"

definition capture_get_error :: "string \<Rightarrow> capture_handle option \<Rightarrow> string" where
  "capture_get_error pcap_error handle =
     (case handle of
        None \<Rightarrow> ''capture handle is not available''
      | Some h \<Rightarrow> if ch_pcap_handle h then pcap_error else ''capture handle is not available'')"

definition capture_close :: "capture_handle option \<Rightarrow> capture_call list" where
  "capture_close handle =
     (case handle of
        None \<Rightarrow> []
      | Some h \<Rightarrow> (if ch_pcap_handle h then [PcapClose] else []) @ [CaptureFree])"

lemma pcap_deliver_fold:
  "pcap_deliver delivered (Some \<lparr>cl_callback = Some f, cl_user_data = u\<rparr>) =
   Some \<lparr>cl_callback = Some f, cl_user_data = fold (\<lambda>(header, packet). f header packet) delivered u\<rparr>"
  by (induction delivered arbitrary: u) (auto simp: capture_dispatch_def)

lemma capture_loop_fold:
  "capture_loop delivered returned (Some \<lparr>ch_pcap_handle = True\<rparr>) (Some f) u =
     (returned, fold (\<lambda>(header, packet). f header packet) delivered u)"
  by (simp add: capture_loop_def pcap_deliver_fold)

end
