(* ===== verification/App_Config.thy ===== *)
theory App_Config
  imports C_Text Display
begin

text \<open>
  The command line of \<open>src/main.c\<close>: \<open>parse_unsigned_value\<close> and \<open>parse_arguments\<close>. The arguments
  are those after the name of the program; a pointer into \<open>argv\<close> is the string it points to. The
  second half states the command lines that should be accepted as a grammar, with the configuration
  each asks for, and proves the loop of the code equal to it.
\<close>

section \<open>Configuration\<close>

record app_config =
  cf_interface_name :: "string option"
  cf_log_path :: string
  cf_scan_window_seconds :: u32
  cf_scan_threshold :: u64
  cf_enable_led :: bool
  cf_gpio_chip :: string
  cf_gpio_line_provided :: bool
  cf_gpio_line :: u32
  cf_display :: display_config
  cf_display_clk_provided :: bool
  cf_display_dio_provided :: bool

abbreviation "DEFAULT_LOG_PATH \<equiv> ''/var/log/netmon.log''"
abbreviation "DEFAULT_GPIO_CHIP \<equiv> ''/dev/gpiochip0''"
abbreviation "DEFAULT_SCAN_WINDOW \<equiv> (10 :: u32)"
abbreviation "DEFAULT_SCAN_THRESHOLD \<equiv> (20 :: u64)"
abbreviation "UINT_MAX \<equiv> (0xffffffff :: u64)"

definition default_config :: app_config where
  "default_config =
     \<lparr>cf_interface_name = None, cf_log_path = DEFAULT_LOG_PATH,
      cf_scan_window_seconds = DEFAULT_SCAN_WINDOW, cf_scan_threshold = DEFAULT_SCAN_THRESHOLD,
      cf_enable_led = True, cf_gpio_chip = DEFAULT_GPIO_CHIP, cf_gpio_line_provided = False,
      cf_gpio_line = 0,
      cf_display = \<lparr>dg_enabled = False, dg_chip_path = Some DEFAULT_GPIO_CHIP, dg_clk_line = 0,
                    dg_dio_line = 0, dg_brightness = 3\<rparr>,
      cf_display_clk_provided = False, cf_display_dio_provided = False\<rparr>"

section \<open>Numbers\<close>

text \<open>\<open>None\<close> is the return value false.\<close>

definition parse_unsigned_value :: "string option \<Rightarrow> u64 option" where
  "parse_unsigned_value text =
     (case text of
        None \<Rightarrow> None
      | Some cs \<Rightarrow>
          if cs = [] then None
          else if \<not> list_all is_digit cs then None
          else (case strtoul_digits cs of (parsed, in_range) \<Rightarrow> if in_range then Some parsed else None))"

section \<open>Arguments\<close>

text \<open>
  \<open>Rejected message\<close> is the return value false, with what the function itself printed;
  \<open>HelpShown\<close> is the exit after the usage text.
\<close>

datatype parse_outcome = Rejected string | HelpShown | Accepted app_config

definition set_display :: "(display_config \<Rightarrow> display_config) \<Rightarrow> app_config \<Rightarrow> app_config" where
  "set_display f config = config\<lparr>cf_display := f (cf_display config)\<rparr>"

text \<open>The checks after the loop.\<close>

definition check_config :: "app_config \<Rightarrow> parse_outcome" where
  "check_config config =
     (let config = set_display (\<lambda>d. d\<lparr>dg_chip_path := Some (cf_gpio_chip config)\<rparr>) config;
          display = cf_display config
      in if dg_enabled display \<and>
            (\<not> cf_display_clk_provided config \<or> \<not> cf_display_dio_provided config \<or>
             dg_clk_line display = dg_dio_line display \<or>
             (cf_enable_led config \<and> cf_gpio_line_provided config \<and>
              (cf_gpio_line config = dg_clk_line display \<or> cf_gpio_line config = dg_dio_line display)))
         then Rejected ''TM1637 requires distinct CLK/DIO lines, separate from the enabled LED''
         else if cf_interface_name config \<noteq> None then Accepted config else Rejected [])"

text \<open>One pass of the loop: the argument, those after it, and how the loop goes on.\<close>

datatype arg_step = Next "string list" app_config | Stop parse_outcome

definition parse_argument :: "string \<Rightarrow> string list \<Rightarrow> app_config \<Rightarrow> arg_step" where
  "parse_argument arg rest config =
     (let no = Stop (Rejected []);
          number = (case rest of [] \<Rightarrow> None | v # _ \<Rightarrow> parse_unsigned_value (Some v));
          with_text = (\<lambda>f. case rest of [] \<Rightarrow> no | v # after \<Rightarrow> Next after (f v));
          with_number = (\<lambda>ok f. case number of None \<Rightarrow> no
                                 | Some n \<Rightarrow> if ok n then Next (tl rest) (f n) else no)
      in if arg = ''-i'' then with_text (\<lambda>v. config\<lparr>cf_interface_name := Some v\<rparr>)
         else if arg = ''-l'' then with_text (\<lambda>v. config\<lparr>cf_log_path := v\<rparr>)
         else if arg = ''--scan-window''
           then with_number (\<lambda>n. n \<noteq> 0 \<and> n \<le> UINT_MAX) (\<lambda>n. config\<lparr>cf_scan_window_seconds := ucast n\<rparr>)
         else if arg = ''--scan-threshold''
           then with_number (\<lambda>n. n \<noteq> 0) (\<lambda>n. config\<lparr>cf_scan_threshold := n\<rparr>)
         else if arg = ''--gpio-chip'' then with_text (\<lambda>v. config\<lparr>cf_gpio_chip := v\<rparr>)
         else if arg = ''--gpio-line''
           then with_number (\<lambda>n. n \<le> UINT_MAX)
                  (\<lambda>n. config\<lparr>cf_gpio_line := ucast n, cf_gpio_line_provided := True\<rparr>)
         else if arg = ''--no-led'' then Next rest (config\<lparr>cf_enable_led := False\<rparr>)
         else if arg = ''--display''
           then (case rest of
                   [] \<Rightarrow> no
                 | v # after \<Rightarrow>
                     if v = ''tm1637'' then Next after (set_display (\<lambda>d. d\<lparr>dg_enabled := True\<rparr>) config)
                     else if v = ''none'' then Next after (set_display (\<lambda>d. d\<lparr>dg_enabled := False\<rparr>) config)
                     else no)
         else if arg = ''--display-clk''
           then with_number (\<lambda>n. n \<le> UINT_MAX)
                  (\<lambda>n. set_display (\<lambda>d. d\<lparr>dg_clk_line := ucast n\<rparr>) (config\<lparr>cf_display_clk_provided := True\<rparr>))
         else if arg = ''--display-dio''
           then with_number (\<lambda>n. n \<le> UINT_MAX)
                  (\<lambda>n. set_display (\<lambda>d. d\<lparr>dg_dio_line := ucast n\<rparr>) (config\<lparr>cf_display_dio_provided := True\<rparr>))
         else if arg = ''--display-brightness''
           then with_number (\<lambda>n. n \<le> UINT_MAX \<and> n \<le> 7)
                  (\<lambda>n. set_display (\<lambda>d. d\<lparr>dg_brightness := ucast n\<rparr>) config)
         else if arg = ''-h'' \<or> arg = ''--help'' then Stop HelpShown
         else no)"

lemma parse_argument_shorter:
  "parse_argument arg rest config = Next after config' \<Longrightarrow> length after \<le> length rest"
  by (cases rest)
    (auto simp: parse_argument_def Let_def split: if_split_asm option.split_asm)

function parse_options :: "string list \<Rightarrow> app_config \<Rightarrow> parse_outcome" where
  "parse_options [] config = check_config config"
| "parse_options (arg # rest) config =
     (case parse_argument arg rest config of
        Stop outcome \<Rightarrow> outcome
      | Next after config' \<Rightarrow> parse_options after config')"
  by pat_completeness auto
termination
  by (relation "measure (\<lambda>(args, _). length args)") (auto dest: parse_argument_shorter simp: less_Suc_eq_le)

definition parse_arguments :: "string list \<Rightarrow> parse_outcome" where
  "parse_arguments args = parse_options args default_config"

section \<open>What is accepted\<close>

definition lines_separate :: "app_config \<Rightarrow> bool" where
  "lines_separate c \<longleftrightarrow>
     (dg_enabled (cf_display c) \<longrightarrow>
        cf_display_clk_provided c \<and> cf_display_dio_provided c \<and>
        dg_clk_line (cf_display c) \<noteq> dg_dio_line (cf_display c) \<and>
        (cf_enable_led c \<and> cf_gpio_line_provided c \<longrightarrow>
           cf_gpio_line c \<noteq> dg_clk_line (cf_display c) \<and> cf_gpio_line c \<noteq> dg_dio_line (cf_display c)))"

lemma check_config_Accepted:
  "check_config config = Accepted c \<longleftrightarrow>
     c = set_display (\<lambda>d. d\<lparr>dg_chip_path := Some (cf_gpio_chip config)\<rparr>) config \<and>
     lines_separate c \<and> cf_interface_name c \<noteq> None"
  by (auto simp: check_config_def Let_def lines_separate_def set_display_def)

text \<open>
  The command lines, as the manual would define them: options in any order, each followed by its
  argument, where numbers are written in decimal digits and have a range.
\<close>

datatype cli_option =
    Interface string
  | LogPath string
  | ScanWindow nat
  | ScanThreshold nat
  | GpioChip string
  | GpioLine nat
  | NoLed
  | DisplayMode bool
  | DisplayClk nat
  | DisplayDio nat
  | DisplayBrightness nat

definition numeral_of :: "string \<Rightarrow> nat \<Rightarrow> bool" where
  "numeral_of v n \<longleftrightarrow> v \<noteq> [] \<and> list_all is_digit v \<and> digits_value v = n"

definition spelled :: "cli_option \<Rightarrow> string list \<Rightarrow> bool" where
  "spelled opt ws \<longleftrightarrow>
     (case opt of
        Interface v \<Rightarrow> ws = [''-i'', v]
      | LogPath v \<Rightarrow> ws = [''-l'', v]
      | ScanWindow n \<Rightarrow> 1 \<le> n \<and> n < 2 ^ 32 \<and> (\<exists>v. ws = [''--scan-window'', v] \<and> numeral_of v n)
      | ScanThreshold n \<Rightarrow> 1 \<le> n \<and> n < 2 ^ 64 \<and> (\<exists>v. ws = [''--scan-threshold'', v] \<and> numeral_of v n)
      | GpioChip v \<Rightarrow> ws = [''--gpio-chip'', v]
      | GpioLine n \<Rightarrow> n < 2 ^ 32 \<and> (\<exists>v. ws = [''--gpio-line'', v] \<and> numeral_of v n)
      | NoLed \<Rightarrow> ws = [''--no-led'']
      | DisplayMode on \<Rightarrow> ws = [''--display'', if on then ''tm1637'' else ''none'']
      | DisplayClk n \<Rightarrow> n < 2 ^ 32 \<and> (\<exists>v. ws = [''--display-clk'', v] \<and> numeral_of v n)
      | DisplayDio n \<Rightarrow> n < 2 ^ 32 \<and> (\<exists>v. ws = [''--display-dio'', v] \<and> numeral_of v n)
      | DisplayBrightness n \<Rightarrow> n \<le> 7 \<and> (\<exists>v. ws = [''--display-brightness'', v] \<and> numeral_of v n))"

inductive command_line :: "cli_option list \<Rightarrow> string list \<Rightarrow> bool" where
  no_options: "command_line [] []"
| an_option: "spelled opt ws \<Longrightarrow> command_line opts args \<Longrightarrow> command_line (opt # opts) (ws @ args)"

text \<open>The configuration that options ask for: of options that repeat the last one counts.\<close>

definition last_given :: "'a \<Rightarrow> (cli_option \<Rightarrow> 'a option) \<Rightarrow> cli_option list \<Rightarrow> 'a" where
  "last_given unless_given pick opts = last (unless_given # List.map_filter pick opts)"

definition requested_config :: "cli_option list \<Rightarrow> app_config" where
  "requested_config opts =
     (let line = (\<lambda>pick. of_nat (last_given 0 pick opts));
          chip = last_given DEFAULT_GPIO_CHIP (\<lambda>opt. case opt of GpioChip v \<Rightarrow> Some v | _ \<Rightarrow> None) opts
      in \<lparr>cf_interface_name = last_given None (\<lambda>opt. case opt of Interface v \<Rightarrow> Some (Some v) | _ \<Rightarrow> None) opts,
          cf_log_path = last_given DEFAULT_LOG_PATH (\<lambda>opt. case opt of LogPath v \<Rightarrow> Some v | _ \<Rightarrow> None) opts,
          cf_scan_window_seconds =
            of_nat (last_given 10 (\<lambda>opt. case opt of ScanWindow n \<Rightarrow> Some n | _ \<Rightarrow> None) opts),
          cf_scan_threshold =
            of_nat (last_given 20 (\<lambda>opt. case opt of ScanThreshold n \<Rightarrow> Some n | _ \<Rightarrow> None) opts),
          cf_enable_led = (NoLed \<notin> set opts),
          cf_gpio_chip = chip,
          cf_gpio_line_provided = (\<exists>n. GpioLine n \<in> set opts),
          cf_gpio_line = line (\<lambda>opt. case opt of GpioLine n \<Rightarrow> Some n | _ \<Rightarrow> None),
          cf_display =
            \<lparr>dg_enabled = last_given False (\<lambda>opt. case opt of DisplayMode on \<Rightarrow> Some on | _ \<Rightarrow> None) opts,
             dg_chip_path = Some chip,
             dg_clk_line = line (\<lambda>opt. case opt of DisplayClk n \<Rightarrow> Some n | _ \<Rightarrow> None),
             dg_dio_line = line (\<lambda>opt. case opt of DisplayDio n \<Rightarrow> Some n | _ \<Rightarrow> None),
             dg_brightness =
               of_nat (last_given 3 (\<lambda>opt. case opt of DisplayBrightness n \<Rightarrow> Some n | _ \<Rightarrow> None) opts)\<rparr>,
          cf_display_clk_provided = (\<exists>n. DisplayClk n \<in> set opts),
          cf_display_dio_provided = (\<exists>n. DisplayDio n \<in> set opts)\<rparr>)"

section \<open>The loop against the grammar\<close>

text \<open>The effect of one option, and one pass of the loop as reading one option.\<close>

fun apply_option :: "cli_option \<Rightarrow> app_config \<Rightarrow> app_config" where
  "apply_option (Interface v) c = c\<lparr>cf_interface_name := Some v\<rparr>"
| "apply_option (LogPath v) c = c\<lparr>cf_log_path := v\<rparr>"
| "apply_option (ScanWindow n) c = c\<lparr>cf_scan_window_seconds := of_nat n\<rparr>"
| "apply_option (ScanThreshold n) c = c\<lparr>cf_scan_threshold := of_nat n\<rparr>"
| "apply_option (GpioChip v) c = c\<lparr>cf_gpio_chip := v\<rparr>"
| "apply_option (GpioLine n) c = c\<lparr>cf_gpio_line := of_nat n, cf_gpio_line_provided := True\<rparr>"
| "apply_option NoLed c = c\<lparr>cf_enable_led := False\<rparr>"
| "apply_option (DisplayMode on) c = set_display (\<lambda>d. d\<lparr>dg_enabled := on\<rparr>) c"
| "apply_option (DisplayClk n) c =
     set_display (\<lambda>d. d\<lparr>dg_clk_line := of_nat n\<rparr>) (c\<lparr>cf_display_clk_provided := True\<rparr>)"
| "apply_option (DisplayDio n) c =
     set_display (\<lambda>d. d\<lparr>dg_dio_line := of_nat n\<rparr>) (c\<lparr>cf_display_dio_provided := True\<rparr>)"
| "apply_option (DisplayBrightness n) c = set_display (\<lambda>d. d\<lparr>dg_brightness := of_nat n\<rparr>) c"

lemma parse_unsigned_iff:
  "parse_unsigned_value (Some v) = Some x \<longleftrightarrow> (\<exists>n. numeral_of v n \<and> n < 2 ^ 64 \<and> x = of_nat n)"
  by (auto simp: parse_unsigned_value_def strtoul_digits_def numeral_of_def Let_def split: if_split_asm)

lemma of_nat_u64_bounds:
  assumes "n < 2 ^ 64"
  shows "((of_nat n :: u64) \<noteq> 0) = (1 \<le> n)" "((of_nat n :: u64) \<le> UINT_MAX) = (n < 2 ^ 32)"
    "((of_nat n :: u64) \<le> 7) = (n \<le> 7)" "(ucast (of_nat n :: u64) :: u32) = of_nat n"
proof -
  have un: "unat (of_nat n :: u64) = n" using assms by (intro unat_of_nat_small) simp
  show "((of_nat n :: u64) \<noteq> 0) = (1 \<le> n)" by (simp add: word_unat_eq_iff un del: of_nat_eq_0_iff) linarith
  show "((of_nat n :: u64) \<le> UINT_MAX) = (n < 2 ^ 32)" by (simp only: word_le_nat_alt un) (simp, linarith)
  show "((of_nat n :: u64) \<le> 7) = (n \<le> 7)" by (simp only: word_le_nat_alt un) simp
  show "(ucast (of_nat n :: u64) :: u32) = of_nat n"
    by (rule bit_word_eqI) (simp add: bit_simps)
qed

lemma ex_cli_option:
  "(\<exists>opt. P opt) \<longleftrightarrow> (\<exists>v. P (Interface v)) \<or> (\<exists>v. P (LogPath v)) \<or> (\<exists>n. P (ScanWindow n)) \<or>
     (\<exists>n. P (ScanThreshold n)) \<or> (\<exists>v. P (GpioChip v)) \<or> (\<exists>n. P (GpioLine n)) \<or> P NoLed \<or>
     (\<exists>on. P (DisplayMode on)) \<or> (\<exists>n. P (DisplayClk n)) \<or> (\<exists>n. P (DisplayDio n)) \<or>
     (\<exists>n. P (DisplayBrightness n))" (is "?L = ?R")
proof
  assume ?L
  then obtain opt where "P opt" by blast
  then show ?R by (cases opt) blast+
qed blast

definition reads :: "string \<Rightarrow> string list \<Rightarrow> string list \<Rightarrow> cli_option \<Rightarrow> bool" where
  "reads arg rest after opt \<longleftrightarrow> (\<exists>ws. spelled opt ws \<and> arg # rest = ws @ after)"

lemma reads_simps:
  "reads arg rest after (Interface v) \<longleftrightarrow> arg = ''-i'' \<and> rest = v # after"
  "reads arg rest after (LogPath v) \<longleftrightarrow> arg = ''-l'' \<and> rest = v # after"
  "reads arg rest after (ScanWindow n) \<longleftrightarrow>
     arg = ''--scan-window'' \<and> 1 \<le> n \<and> n < 2 ^ 32 \<and> (\<exists>v. rest = v # after \<and> numeral_of v n)"
  "reads arg rest after (ScanThreshold n) \<longleftrightarrow>
     arg = ''--scan-threshold'' \<and> 1 \<le> n \<and> n < 2 ^ 64 \<and> (\<exists>v. rest = v # after \<and> numeral_of v n)"
  "reads arg rest after (GpioChip v) \<longleftrightarrow> arg = ''--gpio-chip'' \<and> rest = v # after"
  "reads arg rest after (GpioLine n) \<longleftrightarrow>
     arg = ''--gpio-line'' \<and> n < 2 ^ 32 \<and> (\<exists>v. rest = v # after \<and> numeral_of v n)"
  "reads arg rest after NoLed \<longleftrightarrow> arg = ''--no-led'' \<and> rest = after"
  "reads arg rest after (DisplayMode on) \<longleftrightarrow>
     arg = ''--display'' \<and> rest = (if on then ''tm1637'' else ''none'') # after"
  "reads arg rest after (DisplayClk n) \<longleftrightarrow>
     arg = ''--display-clk'' \<and> n < 2 ^ 32 \<and> (\<exists>v. rest = v # after \<and> numeral_of v n)"
  "reads arg rest after (DisplayDio n) \<longleftrightarrow>
     arg = ''--display-dio'' \<and> n < 2 ^ 32 \<and> (\<exists>v. rest = v # after \<and> numeral_of v n)"
  "reads arg rest after (DisplayBrightness n) \<longleftrightarrow>
     arg = ''--display-brightness'' \<and> n \<le> 7 \<and> (\<exists>v. rest = v # after \<and> numeral_of v n)"
  by (auto simp: reads_def spelled_def)

lemma text_step:
  "(case rest of [] \<Rightarrow> Stop x | v # after \<Rightarrow> Next after (f v)) = Next after c \<longleftrightarrow>
   (\<exists>v. rest = v # after \<and> c = f v)"
  by (cases rest) auto

lemma number_step:
  "(case case rest of [] \<Rightarrow> None | v # _ \<Rightarrow> parse_unsigned_value (Some v) of
      None \<Rightarrow> Stop x | Some n \<Rightarrow> if ok n then Next (tl rest) (f n) else Stop x) = Next after c \<longleftrightarrow>
   (\<exists>v n. rest = v # after \<and> numeral_of v n \<and> n < 2 ^ 64 \<and> ok (of_nat n) \<and> c = f (of_nat n))"
proof (cases rest)
  case (Cons v rest')
  show ?thesis
  proof (cases "parse_unsigned_value (Some v)")
    case None
    then have "\<not> (numeral_of v n \<and> n < 2 ^ 64)" for n
      using parse_unsigned_iff [of v "of_nat n"] by auto
    with None Cons show ?thesis by auto
  next
    case (Some x)
    then obtain n where n: "numeral_of v n" "n < 2 ^ 64" "x = of_nat n" by (auto simp: parse_unsigned_iff)
    then have "numeral_of v m \<longleftrightarrow> m = n" for m by (auto simp: numeral_of_def)
    with Some Cons n show ?thesis by (cases "ok x") auto
  qed
qed simp

abbreviation read_text :: "string list \<Rightarrow> (string \<Rightarrow> app_config) \<Rightarrow> arg_step" where
  "read_text rest f \<equiv> (case rest of [] \<Rightarrow> Stop (Rejected []) | v # after \<Rightarrow> Next after (f v))"

abbreviation read_number :: "string list \<Rightarrow> (u64 \<Rightarrow> bool) \<Rightarrow> (u64 \<Rightarrow> app_config) \<Rightarrow> arg_step" where
  "read_number rest ok f \<equiv>
     (case case rest of [] \<Rightarrow> None | v # _ \<Rightarrow> parse_unsigned_value (Some v) of
        None \<Rightarrow> Stop (Rejected []) | Some n \<Rightarrow> if ok n then Next (tl rest) (f n) else Stop (Rejected []))"

lemma parse_argument_text:
  "parse_argument ''-i'' rest c = read_text rest (\<lambda>v. apply_option (Interface v) c)"
  "parse_argument ''-l'' rest c = read_text rest (\<lambda>v. apply_option (LogPath v) c)"
  "parse_argument ''--gpio-chip'' rest c = read_text rest (\<lambda>v. apply_option (GpioChip v) c)"
  "parse_argument ''--no-led'' rest c = Next rest (apply_option NoLed c)"
  by (cases rest; simp add: parse_argument_def)+

lemma parse_argument_display:
  "parse_argument ''--display'' rest c = Next after c' \<longleftrightarrow>
     (\<exists>on. rest = (if on then ''tm1637'' else ''none'') # after \<and> c' = apply_option (DisplayMode on) c)"
  by (cases rest) (auto simp: parse_argument_def)

lemma parse_argument_number:
  "parse_argument ''--scan-window'' rest c =
     read_number rest (\<lambda>n. n \<noteq> 0 \<and> n \<le> UINT_MAX) (\<lambda>n. c\<lparr>cf_scan_window_seconds := ucast n\<rparr>)"
  "parse_argument ''--scan-threshold'' rest c =
     read_number rest (\<lambda>n. n \<noteq> 0) (\<lambda>n. c\<lparr>cf_scan_threshold := n\<rparr>)"
  "parse_argument ''--gpio-line'' rest c =
     read_number rest (\<lambda>n. n \<le> UINT_MAX) (\<lambda>n. c\<lparr>cf_gpio_line := ucast n, cf_gpio_line_provided := True\<rparr>)"
  "parse_argument ''--display-clk'' rest c =
     read_number rest (\<lambda>n. n \<le> UINT_MAX)
       (\<lambda>n. set_display (\<lambda>d. d\<lparr>dg_clk_line := ucast n\<rparr>) (c\<lparr>cf_display_clk_provided := True\<rparr>))"
  "parse_argument ''--display-dio'' rest c =
     read_number rest (\<lambda>n. n \<le> UINT_MAX)
       (\<lambda>n. set_display (\<lambda>d. d\<lparr>dg_dio_line := ucast n\<rparr>) (c\<lparr>cf_display_dio_provided := True\<rparr>))"
  "parse_argument ''--display-brightness'' rest c =
     read_number rest (\<lambda>n. n \<le> UINT_MAX \<and> n \<le> 7)
       (\<lambda>n. set_display (\<lambda>d. d\<lparr>dg_brightness := ucast n\<rparr>) c)"
  by (simp_all add: parse_argument_def Let_def)

text \<open>A number option reads a numeral of its range.\<close>

lemma read_number_range:
  assumes "\<And>n. n < 2 ^ 64 \<Longrightarrow> ok (of_nat n) \<longleftrightarrow> in_range n"
    and "\<And>n. in_range n \<Longrightarrow> n < 2 ^ 64"
    and "\<And>n. in_range n \<Longrightarrow> f (of_nat n) = g n"
  shows "read_number rest ok f = Next after c \<longleftrightarrow>
    (\<exists>n. in_range n \<and> (\<exists>v. rest = v # after \<and> numeral_of v n) \<and> c = g n)"
proof -
  have "n < 2 ^ 64 \<and> ok (of_nat n) \<and> c = f (of_nat n) \<longleftrightarrow> in_range n \<and> c = g n" for n
    using assms by metis
  then show ?thesis by (simp only: number_step) blast
qed

lemma parse_argument_reads_number:
  "parse_argument ''--scan-window'' rest c = Next after c' \<longleftrightarrow>
     (\<exists>n. reads ''--scan-window'' rest after (ScanWindow n) \<and> c' = apply_option (ScanWindow n) c)"
  "parse_argument ''--scan-threshold'' rest c = Next after c' \<longleftrightarrow>
     (\<exists>n. reads ''--scan-threshold'' rest after (ScanThreshold n) \<and> c' = apply_option (ScanThreshold n) c)"
  "parse_argument ''--gpio-line'' rest c = Next after c' \<longleftrightarrow>
     (\<exists>n. reads ''--gpio-line'' rest after (GpioLine n) \<and> c' = apply_option (GpioLine n) c)"
  "parse_argument ''--display-clk'' rest c = Next after c' \<longleftrightarrow>
     (\<exists>n. reads ''--display-clk'' rest after (DisplayClk n) \<and> c' = apply_option (DisplayClk n) c)"
  "parse_argument ''--display-dio'' rest c = Next after c' \<longleftrightarrow>
     (\<exists>n. reads ''--display-dio'' rest after (DisplayDio n) \<and> c' = apply_option (DisplayDio n) c)"
  "parse_argument ''--display-brightness'' rest c = Next after c' \<longleftrightarrow>
     (\<exists>n. reads ''--display-brightness'' rest after (DisplayBrightness n) \<and>
        c' = apply_option (DisplayBrightness n) c)"
proof -
  show "parse_argument ''--scan-window'' rest c = Next after c' \<longleftrightarrow>
      (\<exists>n. reads ''--scan-window'' rest after (ScanWindow n) \<and> c' = apply_option (ScanWindow n) c)"
    unfolding parse_argument_number(1) reads_simps
    by (subst read_number_range [where in_range = "\<lambda>n. 1 \<le> n \<and> n < 2 ^ 32" and g = "\<lambda>n. apply_option (ScanWindow n) c"])
      (auto simp: of_nat_u64_bounds(1,2,4))
  show "parse_argument ''--scan-threshold'' rest c = Next after c' \<longleftrightarrow>
      (\<exists>n. reads ''--scan-threshold'' rest after (ScanThreshold n) \<and> c' = apply_option (ScanThreshold n) c)"
    unfolding parse_argument_number(2) reads_simps
    by (subst read_number_range [where in_range = "\<lambda>n. 1 \<le> n \<and> n < 2 ^ 64" and g = "\<lambda>n. apply_option (ScanThreshold n) c"])
      (auto simp: of_nat_u64_bounds(1))
  show "parse_argument ''--gpio-line'' rest c = Next after c' \<longleftrightarrow>
      (\<exists>n. reads ''--gpio-line'' rest after (GpioLine n) \<and> c' = apply_option (GpioLine n) c)"
    unfolding parse_argument_number(3) reads_simps
    by (subst read_number_range [where in_range = "\<lambda>n. n < 2 ^ 32" and g = "\<lambda>n. apply_option (GpioLine n) c"])
      (auto simp: of_nat_u64_bounds(2,4))
  show "parse_argument ''--display-clk'' rest c = Next after c' \<longleftrightarrow>
      (\<exists>n. reads ''--display-clk'' rest after (DisplayClk n) \<and> c' = apply_option (DisplayClk n) c)"
    unfolding parse_argument_number(4) reads_simps
    by (subst read_number_range [where in_range = "\<lambda>n. n < 2 ^ 32" and g = "\<lambda>n. apply_option (DisplayClk n) c"])
      (auto simp: of_nat_u64_bounds(2,4))
  show "parse_argument ''--display-dio'' rest c = Next after c' \<longleftrightarrow>
      (\<exists>n. reads ''--display-dio'' rest after (DisplayDio n) \<and> c' = apply_option (DisplayDio n) c)"
    unfolding parse_argument_number(5) reads_simps
    by (subst read_number_range [where in_range = "\<lambda>n. n < 2 ^ 32" and g = "\<lambda>n. apply_option (DisplayDio n) c"])
      (auto simp: of_nat_u64_bounds(2,4))
  show "parse_argument ''--display-brightness'' rest c = Next after c' \<longleftrightarrow>
      (\<exists>n. reads ''--display-brightness'' rest after (DisplayBrightness n) \<and>
         c' = apply_option (DisplayBrightness n) c)"
    unfolding parse_argument_number(6) reads_simps
    by (subst read_number_range [where in_range = "\<lambda>n. n \<le> 7" and g = "\<lambda>n. apply_option (DisplayBrightness n) c"])
      (auto simp: of_nat_u64_bounds(2-4))
qed

lemma parse_argument_reads_text:
  "parse_argument ''-i'' rest c = Next after c' \<longleftrightarrow>
     (\<exists>v. reads ''-i'' rest after (Interface v) \<and> c' = apply_option (Interface v) c)"
  "parse_argument ''-l'' rest c = Next after c' \<longleftrightarrow>
     (\<exists>v. reads ''-l'' rest after (LogPath v) \<and> c' = apply_option (LogPath v) c)"
  "parse_argument ''--gpio-chip'' rest c = Next after c' \<longleftrightarrow>
     (\<exists>v. reads ''--gpio-chip'' rest after (GpioChip v) \<and> c' = apply_option (GpioChip v) c)"
  "parse_argument ''--no-led'' rest c = Next after c' \<longleftrightarrow>
     reads ''--no-led'' rest after NoLed \<and> c' = apply_option NoLed c"
  by (auto simp only: parse_argument_text text_step reads_simps arg_step.inject)

lemma parse_argument_next:
  "parse_argument arg rest config = Next after config' \<longleftrightarrow>
   (\<exists>opt. reads arg rest after opt \<and> config' = apply_option opt config)"
proof -
  let ?texts = "[''-i'', ''-l'', ''--gpio-chip'', ''--no-led'']"
  let ?numbers = "[''--scan-window'', ''--scan-threshold'', ''--gpio-line'', ''--display-clk'', ''--display-dio'',
    ''--display-brightness'']"
  consider (one_text) "arg \<in> set ?texts" | (one_number) "arg \<in> set ?numbers" | (mode) "arg = ''--display''"
    | (unknown) "arg \<notin> set ?texts" "arg \<notin> set ?numbers" "arg \<noteq> ''--display''"
    by argo
  then show ?thesis
  proof cases
    case one_text
    then show ?thesis
      unfolding list.set insert_iff empty_iff ex_cli_option
      by (elim disjE FalseE; hypsubst; simp only: parse_argument_reads_text; simp add: reads_simps)
  next
    case one_number
    then show ?thesis
      unfolding list.set insert_iff empty_iff ex_cli_option
      by (elim disjE FalseE; hypsubst; simp only: parse_argument_reads_number; simp add: reads_simps)
  next
    case mode
    then show ?thesis
      by (simp only: parse_argument_display ex_cli_option reads_simps) simp
  next
    case unknown
    then have "parse_argument arg rest config \<noteq> Next after config'"
      unfolding list.set by (simp add: parse_argument_def)
    moreover have "\<not> reads arg rest after opt" for opt
      using unknown unfolding list.set by (cases opt) (simp_all add: reads_simps)
    ultimately show ?thesis by blast
  qed
qed

lemma parse_argument_stop:
  "parse_argument arg rest config = Stop outcome \<Longrightarrow> outcome \<noteq> Accepted c"
  "parse_argument arg rest config = Stop HelpShown \<longleftrightarrow> arg = ''-h'' \<or> arg = ''--help''"
proof -
  show "parse_argument arg rest config = Stop outcome \<Longrightarrow> outcome \<noteq> Accepted c"
    by (auto simp: parse_argument_def Let_def split: if_split_asm option.split_asm list.split_asm)
  have "parse_argument arg rest config = Stop HelpShown \<Longrightarrow> arg = ''-h'' \<or> arg = ''--help''"
    unfolding parse_argument_def Let_def
    by (elim if_eqE) (simp_all split: if_split_asm option.split_asm list.split_asm)
  moreover have "arg = ''-h'' \<or> arg = ''--help'' \<Longrightarrow> parse_argument arg rest config = Stop HelpShown"
    by (elim disjE) (simp_all add: parse_argument_def)
  ultimately show "parse_argument arg rest config = Stop HelpShown \<longleftrightarrow> arg = ''-h'' \<or> arg = ''--help''"
    by (rule iffI)
qed

lemma spelled_nonempty: "\<not> spelled opt []"
  by (cases opt) (simp_all add: spelled_def)

lemma command_line_nil: "command_line opts [] \<longleftrightarrow> opts = []"
  by (auto elim: command_line.cases simp: spelled_nonempty intro: command_line.no_options)

lemma command_line_cons:
  "command_line opts (arg # rest) \<longleftrightarrow>
   (\<exists>opt opts' after. opts = opt # opts' \<and> reads arg rest after opt \<and> command_line opts' after)"
proof
  show "command_line opts (arg # rest) \<Longrightarrow>
      \<exists>opt opts' after. opts = opt # opts' \<and> reads arg rest after opt \<and> command_line opts' after"
    by (erule command_line.cases) (auto simp: reads_def)
  show "\<exists>opt opts' after. opts = opt # opts' \<and> reads arg rest after opt \<and> command_line opts' after \<Longrightarrow>
      command_line opts (arg # rest)"
    using command_line.an_option by (fastforce simp: reads_def)
qed

lemma reads_unique:
  assumes "parse_argument arg rest config = Next after config'" and "reads arg rest after' opt"
  shows "after' = after" and "apply_option opt config = config'"
proof -
  have "parse_argument arg rest config = Next after' (apply_option opt config)"
    using assms(2) parse_argument_next by blast
  with assms(1) show "after' = after" and "apply_option opt config = config'" by simp_all
qed

lemma command_line_step:
  assumes "parse_argument arg rest config = Next after config'"
  shows "(\<exists>opts. command_line opts (arg # rest) \<and> P (fold apply_option opts config)) \<longleftrightarrow>
    (\<exists>opts. command_line opts after \<and> P (fold apply_option opts config'))"
proof
  assume "\<exists>opts. command_line opts (arg # rest) \<and> P (fold apply_option opts config)"
  then obtain opt opts after' where "reads arg rest after' opt" "command_line opts after'"
    "P (fold apply_option opts (apply_option opt config))"
    unfolding command_line_cons by auto
  with reads_unique [OF assms] show "\<exists>opts. command_line opts after \<and> P (fold apply_option opts config')"
    by auto
next
  assume "\<exists>opts. command_line opts after \<and> P (fold apply_option opts config')"
  then obtain opts where opts: "command_line opts after" "P (fold apply_option opts config')" by blast
  obtain opt where "reads arg rest after opt" "config' = apply_option opt config"
    using assms parse_argument_next by blast
  with opts show "\<exists>opts. command_line opts (arg # rest) \<and> P (fold apply_option opts config)"
    unfolding command_line_cons by (intro exI [of _ "opt # opts"]) auto
qed

lemma stops_reading: "parse_argument arg rest config = Stop outcome \<Longrightarrow> \<not> reads arg rest after opt"
  using parse_argument_next [of arg rest config after "apply_option opt config"] by auto

lemma parse_options_accepts:
  "parse_options args config = Accepted c \<longleftrightarrow>
   (\<exists>opts. command_line opts args \<and> check_config (fold apply_option opts config) = Accepted c)"
proof (induction args config rule: parse_options.induct)
  case (1 config)
  show ?case by (simp add: command_line_nil)
next
  case (2 arg rest config)
  show ?case
  proof (cases "parse_argument arg rest config")
    case (Next after config')
    then have "parse_options (arg # rest) config = Accepted c \<longleftrightarrow>
        (\<exists>opts. command_line opts after \<and> check_config (fold apply_option opts config') = Accepted c)"
      using 2 [OF Next] by simp
    also note command_line_step [OF Next, of "\<lambda>x. check_config x = Accepted c", symmetric]
    finally show ?thesis .
  next
    case (Stop outcome)
    with stops_reading parse_argument_stop(1) show ?thesis by (auto simp: command_line_cons)
  qed
qed

lemma check_config_no_help: "check_config config \<noteq> HelpShown"
  by (simp add: check_config_def Let_def)

lemma reads_append: "reads arg rest after opt \<Longrightarrow> reads arg (rest @ others) (after @ others) opt"
  by (fastforce simp: reads_def)

lemma parse_options_help:
  "parse_options args config = HelpShown \<longleftrightarrow>
   (\<exists>opts before asked others. args = before @ asked # others \<and> command_line opts before \<and>
      (asked = ''-h'' \<or> asked = ''--help''))"
proof (induction args config rule: parse_options.induct)
  case (1 config)
  show ?case by (simp add: check_config_no_help)
next
  case (2 arg rest config)
  show ?case
  proof (cases "parse_argument arg rest config")
    case (Next after config')
    have "(\<exists>opts before asked others. after = before @ asked # others \<and> command_line opts before \<and>
        (asked = ''-h'' \<or> asked = ''--help'')) \<longleftrightarrow>
      (\<exists>opts before asked others. arg # rest = before @ asked # others \<and> command_line opts before \<and>
        (asked = ''-h'' \<or> asked = ''--help''))" (is "?A \<longleftrightarrow> ?B")
    proof
      assume ?A
      then obtain opts before asked others where after: "after = before @ asked # others" "command_line opts before"
        "asked = ''-h'' \<or> asked = ''--help''" by blast
      obtain opt ws where ws: "spelled opt ws" "arg # rest = ws @ after"
        using Next parse_argument_next unfolding reads_def by blast
      then have "arg # rest = (ws @ before) @ asked # others" using after by simp
      with after(2,3) command_line.an_option [OF ws(1)] show ?B by blast
    next
      assume ?B
      then obtain opts before asked others where split: "arg # rest = before @ asked # others" "command_line opts before"
        "asked = ''-h'' \<or> asked = ''--help''" by blast
      have "before \<noteq> []"
      proof
        assume "before = []"
        with split have "parse_argument arg rest config = Stop HelpShown" by (simp add: parse_argument_stop(2))
        with Next show False by simp
      qed
      then obtain before' where before: "before = arg # before'" "rest = before' @ asked # others"
        using split(1) by (cases before) auto
      then obtain opt opts' after' where "reads arg before' after' opt" "command_line opts' after'"
        using split(2) by (auto simp: command_line_cons)
      with reads_unique(1) [OF Next, of "after' @ asked # others" opt] reads_append before(2) split(3)
      show ?A by blast
    qed
    with 2 [OF Next] Next show ?thesis by simp
  next
    case (Stop outcome)
    have "\<not> command_line opts (arg # before)" if "rest = before @ others" for opts before others
      unfolding that command_line_cons using stops_reading [OF Stop [unfolded that]] reads_append by blast
    moreover have "outcome = HelpShown \<longleftrightarrow> arg = ''-h'' \<or> arg = ''--help''"
      using Stop parse_argument_stop(2) [of arg rest config] by simp
    ultimately show ?thesis using Stop
      by (auto simp: Cons_eq_append_conv command_line_nil intro: command_line.no_options)
  qed
qed

section \<open>The configuration of a command line\<close>

lemma last_given_simps:
  "last_given d pick [] = d"
  "last_given d pick (opts @ [opt]) = (case pick opt of None \<Rightarrow> last_given d pick opts | Some x \<Rightarrow> x)"
  by (simp_all add: last_given_def List.map_filter_def split: option.split)

lemma fold_apply_option:
  "fold apply_option opts default_config =
   set_display (\<lambda>d. d\<lparr>dg_chip_path := Some DEFAULT_GPIO_CHIP\<rparr>) (requested_config opts)"
proof (induction opts rule: rev_induct)
  case Nil
  show ?case by (simp add: default_config_def requested_config_def last_given_simps set_display_def Let_def)
next
  case (snoc opt opts)
  then show ?case
    by (cases opt) (simp_all add: requested_config_def last_given_simps set_display_def Let_def ex_disj_distrib)
qed

lemma requested_chip: "dg_chip_path (cf_display (requested_config opts)) = Some (cf_gpio_chip (requested_config opts))"
  by (simp add: requested_config_def Let_def)

lemma accepted_interface: "parse_arguments args = Accepted c \<Longrightarrow> cf_interface_name c \<noteq> None"
  by (auto simp: parse_arguments_def parse_options_accepts check_config_Accepted)

lemma numeral_decimal: "numeral_of (decimal n) n"
  by (auto simp: numeral_of_def list_all_iff decimal_digits)

section \<open>Properties\<close>

text \<open>
  C12: which command lines are accepted, and as what. The arguments are accepted exactly when they
  spell a sequence of options, each with its argument and each number in decimal digits and in its
  range (windows from 1 to \<open>2 ^ 32 - 1\<close>, thresholds from 1 to \<open>2 ^ 64 - 1\<close>, lines below \<open>2 ^ 32\<close>,
  brightness up to 7), that name an interface, and for an enabled display both of its lines, distinct
  from each other and from the line of an enabled LED. The configuration is then the one the options
  ask for, where the last of repeated options counts and the documented defaults fill the rest. The
  usage text is shown exactly when such options are followed by \<open>-h\<close> or \<open>--help\<close>. Everything else
  is rejected.
\<close>

theorem parse_arguments_exact:
  "(parse_arguments args = Accepted c \<longleftrightarrow>
      (\<exists>opts. command_line opts args \<and> c = requested_config opts \<and>
         cf_interface_name c \<noteq> None \<and> lines_separate c)) \<and>
   (parse_arguments args = HelpShown \<longleftrightarrow>
      (\<exists>opts before asked others. args = before @ asked # others \<and> command_line opts before \<and>
         (asked = ''-h'' \<or> asked = ''--help'')))"
proof (rule conjI)
  have "check_config (fold apply_option opts default_config) = Accepted c \<longleftrightarrow>
      c = requested_config opts \<and> cf_interface_name c \<noteq> None \<and> lines_separate c" for opts
    unfolding fold_apply_option check_config_Accepted
    by (auto simp: set_display_def requested_chip [symmetric])
  then show "parse_arguments args = Accepted c \<longleftrightarrow>
      (\<exists>opts. command_line opts args \<and> c = requested_config opts \<and>
         cf_interface_name c \<noteq> None \<and> lines_separate c)"
    by (simp only: parse_arguments_def parse_options_accepts)
  show "parse_arguments args = HelpShown \<longleftrightarrow>
      (\<exists>opts before asked others. args = before @ asked # others \<and> command_line opts before \<and>
         (asked = ''-h'' \<or> asked = ''--help''))"
    by (simp only: parse_arguments_def parse_options_help)
qed

end
