(* ===== verification/Main_App.thy ===== *)
theory Main_App
  imports Parser Rules Scan_Detector Gpio_Led Logger Capture App_Config
begin

text \<open>
  The application of \<open>src/main.c\<close>: the packet callback and the start, loop and cleanup of \<open>main\<close>,
  composed from the operations of the components. What the environment answers (allocations,
  clocks, uninitialised locals) is an argument; \<open>None\<close> as a result is a read outside a packet.
  The effects of the two worker threads on their queues and slots are in \<open>Gpio_Led\<close> and
  \<open>Display_Threads\<close>.
\<close>

section \<open>State\<close>

record app_context =
  ax_logger :: "logger option"
  ax_led_controller :: "led_controller option"
  ax_scan_detector :: "scan_detector option"
  ax_rules_engine :: "rules_engine option"
  ax_display_controller :: "display_controller option"

text \<open>What the environment answers while one packet is processed.\<close>

record packet_inputs =
  in_rules_now :: time_t
  in_attempt_alloc :: bool
  in_scan_now :: time_t
  in_source_alloc :: bool
  in_port_alloc :: bool
  in_snapshot_alloc :: bool
  in_event_log_now :: time_t
  in_alert_log_now :: time_t
  in_packet_info :: packet_info
  in_event :: event
  in_scan_alert :: scan_alert
  in_alert_packet_info :: packet_info

text \<open>The platform: byte order, conversion of times, and the formatted local time.\<close>

record platform =
  pf_endian :: endian
  pf_cvt :: "int \<Rightarrow> u32"
  pf_raw_time :: "time_t \<Rightarrow> string option"

section \<open>The packet callback\<close>

text \<open>The first decision layer: the event of the packet and its effects.\<close>

definition report_event ::
  "platform \<Rightarrow> time_t \<Rightarrow> event \<Rightarrow> app_context \<times> streams \<Rightarrow> app_context \<times> streams" where
  "report_event pf now event state =
     (case state of (context, io) \<Rightarrow>
        (context\<lparr>ax_led_controller := led_controller_enqueue (ax_led_controller context) (ev_led_action event)\<rparr>,
         logger_emit (pf_endian pf) (pf_raw_time pf) now (ax_logger context) (Some event) io))"

definition process_packet ::
  "platform \<Rightarrow> packet_inputs \<Rightarrow> pcap_pkthdr option \<Rightarrow> u8 list option \<Rightarrow> app_context option \<times> streams \<Rightarrow>
   (app_context option \<times> streams) option" where
  "process_packet pf inp header packet state =
     (case (state, header, packet) of
        ((Some context, io), Some h, Some bytes) \<Rightarrow> do {
          (_, info) \<leftarrow> parse_packet (pf_endian pf) (Some bytes) (ucast (caplen h)) (ucast (len h))
                         (Some (in_packet_info inp));
          let (raised, rules, event) =
            rules_engine_evaluate_packet (pf_cvt pf) (in_attempt_alloc inp) (in_rules_now inp)
              (ax_rules_engine context) info (Some (in_event inp));
          let context = context\<lparr>ax_rules_engine := rules\<rparr>;
          let (context, io) =
            (case event of
               Some e \<Rightarrow>
                 if raised
                 then report_event pf (in_event_log_now inp) e
                        (context\<lparr>ax_display_controller :=
                           display_controller_record_event (ax_display_controller context) (Some e)\<rparr>, io)
                 else (context, io)
             | None \<Rightarrow> (context, io));
          let (alerted, detector, alert) =
            scan_detector_observe (pf_cvt pf) (in_source_alloc inp) (in_port_alloc inp) (in_scan_now inp)
              (ax_scan_detector context) info (Some (in_scan_alert inp));
          let context = context\<lparr>ax_scan_detector := detector\<rparr>;
          let (context, io) =
            (case (alert, event) of
               (Some a, Some e) \<Rightarrow>
                 if alerted
                 then (case rules_make_scan_alert (in_alert_packet_info inp) (al_src_ipv4 a)
                               (al_unique_ports a) (al_window_seconds a) (Some e) of
                         Some e \<Rightarrow> report_event pf (in_alert_log_now inp) e (context, io)
                       | None \<Rightarrow> (context, io))
                 else (context, io)
             | _ \<Rightarrow> (context, io));
          let (display, _) =
            display_controller_publish_scan (in_snapshot_alloc inp) (ax_display_controller context)
              (ax_scan_detector context);
          Some (Some (context\<lparr>ax_display_controller := display\<rparr>), io)
        }
      | _ \<Rightarrow> Some state)"

text \<open>
  The callback as \<open>capture_loop\<close> drives it: the user data are the context, the streams and the
  number of packets so far, which selects the answers of the environment.
\<close>

record app_run =
  ar_context :: "app_context option"
  ar_streams :: streams
  ar_packets :: nat

definition packet_callback ::
  "platform \<Rightarrow> (nat \<Rightarrow> packet_inputs) \<Rightarrow> app_run option packet_callback" where
  "packet_callback pf inputs header packet run =
     (case run of
        None \<Rightarrow> None
      | Some r \<Rightarrow>
          (case process_packet pf (inputs (ar_packets r)) header packet (ar_context r, ar_streams r) of
             None \<Rightarrow> None
           | Some (context, io) \<Rightarrow>
               Some \<lparr>ar_context = context, ar_streams = io, ar_packets = Suc (ar_packets r)\<rparr>))"

section \<open>The main function\<close>

datatype app_call =
    LoggerCall logger_call
  | DetectorAlloc
  | DetectorFree "scan_block list"
  | RulesAlloc
  | RulesFree "rules_block list"
  | LedCall led_call
  | DisplayCall display_call
  | CaptureCall capture_call
  | InstallHandlers

record main_outcomes =
  mo_platform :: platform
  mo_logger_alloc :: bool
  mo_fopen :: bool
  mo_detector_alloc :: bool
  mo_rules_alloc :: bool
  mo_led :: led_outcomes
  mo_display :: display_outcomes
  mo_display_init :: "bool \<times> string"
  mo_handlers :: bool
  mo_pcap_open :: "string + unit"
  mo_capture_alloc :: bool
  mo_delivered :: "(pcap_pkthdr option \<times> u8 list option) list"
  mo_inputs :: "nat \<Rightarrow> packet_inputs"
  mo_loop_result :: int
  mo_pcap_error :: string
  mo_stop_requested :: bool

record main_result =
  mr_exit :: int
  mr_calls :: "app_call list"
  mr_streams :: streams
  mr_stderr :: "string list"

abbreviation "EXIT_SUCCESS \<equiv> (0 :: int)"
abbreviation "EXIT_FAILURE \<equiv> (1 :: int)"

definition print_usage :: "string \<Rightarrow> string" where
  "print_usage program_name =
     ''Usage: '' @ program_name @
     '' -i <interface> [-l <log_path>] [--scan-window <seconds>] [--scan-threshold <count>] '' @
     ''[--gpio-chip <path>] [--gpio-line <line>] [--no-led] '' @
     ''[--display none|tm1637] [--display-clk <line>] [--display-dio <line>] '' @
     ''[--display-brightness <0..7>]'' @ newline"

text \<open>The cleanup in reverse order of initialisation, from each component down.\<close>

definition release_logger :: "app_context \<Rightarrow> app_call list" where
  "release_logger c = map LoggerCall (logger_close (ax_logger c))"

definition release_detector :: "app_context \<Rightarrow> app_call list" where
  "release_detector c = [DetectorFree (scan_detector_destroy (ax_scan_detector c))] @ release_logger c"

definition release_rules :: "app_context \<Rightarrow> app_call list" where
  "release_rules c = [RulesFree (rules_engine_destroy (ax_rules_engine c))] @ release_detector c"

definition release_all :: "app_context \<Rightarrow> app_call list" where
  "release_all c =
     map DisplayCall (display_controller_destroy (ax_display_controller c)) @
     map LedCall (led_controller_destroy (ax_led_controller c)) @ release_rules c"

definition listening_line :: "app_config \<Rightarrow> app_context \<Rightarrow> string" where
  "listening_line config c =
     ''netmon listening on '' @ the (cf_interface_name config) @ '' (log='' @ cf_log_path config @
     '', scan-window='' @ show_word (cf_scan_window_seconds config) @
     '', scan-threshold='' @ show_word (cf_scan_threshold config) @
     '', led='' @ (if led_controller_is_available (ax_led_controller c) then ''enabled'' else ''disabled'') @
     '', display='' @
     (if display_controller_is_available (ax_display_controller c) then ''tm1637'' else ''disabled'') @ '')'' @ newline"

text \<open>From the capture handle on: the loop, its message, the close and the cleanup.\<close>

definition main_capture ::
  "main_outcomes \<Rightarrow> app_config \<Rightarrow> app_context \<Rightarrow> app_call list \<Rightarrow> string list \<Rightarrow> streams \<Rightarrow> main_result option" where
  "main_capture m config c calls errors io =
     (case capture_open (mo_pcap_open m) (mo_capture_alloc m) (cf_interface_name config) (Some []) 256 of
        (None, error_buffer, calls') \<Rightarrow>
          Some \<lparr>mr_exit = EXIT_FAILURE, mr_calls = calls @ map CaptureCall calls' @ release_all c,
                mr_streams = io,
                mr_stderr = errors @ [''Failed to open interface '' @ the (cf_interface_name config) @ '': '' @
                                      the error_buffer]\<rparr>
      | (Some handle, _, calls') \<Rightarrow>
          let io = io\<lparr>st_stdout := st_stdout io @ listening_line config c\<rparr>;
              (loop_result, run) =
                capture_loop (mo_delivered m) (mo_loop_result m) (Some handle)
                  (Some (packet_callback (mo_platform m) (mo_inputs m)))
                  (Some \<lparr>ar_context = Some c, ar_streams = io, ar_packets = 0\<rparr>)
          in case run of
               None \<Rightarrow> None
             | Some r \<Rightarrow>
                 (case ar_context r of
                    None \<Rightarrow> None
                  | Some c \<Rightarrow>
                      let io = ar_streams r;
                          errors = (if loop_result = - 1
                                    then errors @ [''pcap loop failed: '' @ capture_get_error (mo_pcap_error m) (Some handle)]
                                    else errors);
                          io = (if loop_result \<noteq> - 1 \<and> mo_stop_requested m
                                then io\<lparr>st_stdout := st_stdout io @ ''Capture stopped by signal'' @ newline\<rparr>
                                else io)
                      in Some \<lparr>mr_exit = (if loop_result = - 1 then EXIT_FAILURE else EXIT_SUCCESS),
                               mr_calls = calls @ map CaptureCall calls' @
                                 map CaptureCall (capture_close (Some handle)) @ release_all c,
                               mr_streams = io, mr_stderr = errors\<rparr>))"

text \<open>From the LED controller on: the LED, the display and the signal handlers.\<close>

definition main_devices ::
  "main_outcomes \<Rightarrow> app_config \<Rightarrow> app_context \<Rightarrow> app_call list \<Rightarrow> streams \<Rightarrow> main_result option" where
  "main_devices m config c calls io =
     (case led_controller_create (mo_led m) (cf_enable_led config) (Some (cf_gpio_chip config))
             (cf_gpio_line_provided config) of
        (None, _, led_calls) \<Rightarrow>
          Some \<lparr>mr_exit = EXIT_FAILURE, mr_calls = calls @ map LedCall led_calls @ release_rules c,
                mr_streams = io, mr_stderr = [''Failed to allocate LED controller'']\<rparr>
      | (Some led, led_text, led_calls) \<Rightarrow>
          let led_warning = c_strncpy 256 led_text;
              c = c\<lparr>ax_led_controller := Some led\<rparr>;
              errors = (if led_warning \<noteq> [] then [''[WARN ] '' @ led_warning] else []);
              (display, display_text, display_calls) =
                display_controller_create (mo_display m) (mo_display_init m) (Some (cf_display config));
              display_warning = c_snprintf 256 display_text;
              c = c\<lparr>ax_display_controller := display\<rparr>;
              errors = (if display_warning \<noteq> [] then errors @ [''[WARN ] '' @ display_warning] else errors);
              calls = calls @ map LedCall led_calls @ map DisplayCall display_calls @ [InstallHandlers]
          in if \<not> mo_handlers m
             then Some \<lparr>mr_exit = EXIT_FAILURE, mr_calls = calls @ release_all c, mr_streams = io,
                        mr_stderr = errors @ [''Failed to install signal handlers'']\<rparr>
             else main_capture m config c calls errors io)"

definition main :: "main_outcomes \<Rightarrow> string \<Rightarrow> string list \<Rightarrow> streams \<Rightarrow> main_result option" where
  "main m program_name args io =
     (case parse_arguments args of
        Rejected message \<Rightarrow>
          Some \<lparr>mr_exit = EXIT_FAILURE, mr_calls = [], mr_streams = io,
                mr_stderr = (if message = [] then [] else [message]) @ [print_usage program_name]\<rparr>
      | HelpShown \<Rightarrow>
          Some \<lparr>mr_exit = EXIT_SUCCESS, mr_calls = [], mr_streams = io, mr_stderr = [print_usage program_name]\<rparr>
      | Accepted config \<Rightarrow>
          (case logger_open (mo_logger_alloc m) (mo_fopen m) (Some (cf_log_path config)) (Some []) 256 of
             (None, error_buffer, log_calls) \<Rightarrow>
               Some \<lparr>mr_exit = EXIT_FAILURE, mr_calls = map LoggerCall log_calls, mr_streams = io,
                     mr_stderr = [''Failed to initialize logger: '' @ the error_buffer]\<rparr>
           | (Some logger, _, log_calls) \<Rightarrow>
               let c = \<lparr>ax_logger = Some logger, ax_led_controller = None, ax_scan_detector = None,
                        ax_rules_engine = None, ax_display_controller = None\<rparr>;
                   calls = map LoggerCall log_calls @ [DetectorAlloc]
               in (case scan_detector_create (mo_detector_alloc m) (cf_scan_window_seconds config)
                          (cf_scan_threshold config) of
                     None \<Rightarrow>
                       Some \<lparr>mr_exit = EXIT_FAILURE, mr_calls = calls @ release_logger c, mr_streams = io,
                             mr_stderr = [''Failed to initialize scan detector'']\<rparr>
                   | Some detector \<Rightarrow>
                       let c = c\<lparr>ax_scan_detector := Some detector\<rparr>; calls = calls @ [RulesAlloc]
                       in (case rules_engine_create (mo_rules_alloc m) of
                             None \<Rightarrow>
                               Some \<lparr>mr_exit = EXIT_FAILURE, mr_calls = calls @ release_detector c,
                                     mr_streams = io, mr_stderr = [''Failed to initialize rules engine'']\<rparr>
                           | Some rules \<Rightarrow>
                               main_devices m config (c\<lparr>ax_rules_engine := Some rules\<rparr>) calls io))))"

section \<open>Stopping\<close>

text \<open>
  The main thread with respect to the two globals the signal handler uses, and the handler. The
  handler may run between any two steps after the handlers are installed. \<open>BreakAsked\<close> is the flag of
  \<open>libpcap\<close> that makes \<open>pcap_loop\<close> return; a call on a handle that was closed is a fault.
\<close>

datatype main_at = Starting | HandleOpen | Looping | LoopOver | HandleFreed | HandleCleared

record stopping =
  sp_at :: main_at
  sp_stop_requested :: bool
  sp_handle :: bool
  sp_break_asked :: bool
  sp_fault :: bool

definition handle_signal :: "stopping \<Rightarrow> stopping" where
  "handle_signal s =
     (let s = s\<lparr>sp_stop_requested := True\<rparr>
      in if sp_handle s
         then (if sp_at s = HandleFreed then s\<lparr>sp_fault := True\<rparr> else s\<lparr>sp_break_asked := True\<rparr>)
         else s)"

inductive stop_step :: "stopping \<Rightarrow> stopping \<Rightarrow> bool" where
  open_handle: "sp_at s = Starting \<Longrightarrow> stop_step s (s\<lparr>sp_at := HandleOpen, sp_handle := True\<rparr>)"
| enter_loop: "sp_at s = HandleOpen \<Longrightarrow> stop_step s (s\<lparr>sp_at := Looping\<rparr>)"
| packet: "sp_at s = Looping \<Longrightarrow> \<not> sp_break_asked s \<Longrightarrow> stop_step s s"
| loop_broken: "sp_at s = Looping \<Longrightarrow> sp_break_asked s \<Longrightarrow> stop_step s (s\<lparr>sp_at := LoopOver\<rparr>)"
| loop_error: "sp_at s = Looping \<Longrightarrow> stop_step s (s\<lparr>sp_at := LoopOver\<rparr>)"
| close_handle: "sp_at s = LoopOver \<Longrightarrow> stop_step s (s\<lparr>sp_at := HandleFreed\<rparr>)"
| clear_handle: "sp_at s = HandleFreed \<Longrightarrow> stop_step s (s\<lparr>sp_at := HandleCleared, sp_handle := False\<rparr>)"

inductive stop_reachable :: "stopping \<Rightarrow> bool" where
  installed: "stop_reachable \<lparr>sp_at = Starting, sp_stop_requested = False, sp_handle = False,
    sp_break_asked = False, sp_fault = False\<rparr>"
| main_thread: "stop_reachable s \<Longrightarrow> stop_step s s' \<Longrightarrow> stop_reachable s'"
| signal: "stop_reachable s \<Longrightarrow> stop_reachable (handle_signal s)"

inductive_cases stop_stepE: "stop_step s s'"
inductive_simps stop_step_looping: "stop_step s s'"

end
