(* ===== verification/Main_Packets.thy ===== *)
theory Main_Packets
  imports Main_App Led_Properties Display_Properties Logger_Properties Parser_Layers "HOL-Library.Sublist"
begin

text \<open>
  Processing captured packets: whatever they are, \<open>process_packet\<close> never reads outside them, keeps the
  invariants of every component and only appends to the streams.
\<close>

section \<open>The context while packets are processed\<close>

definition app_ok :: "app_context \<Rightarrow> bool" where
  "app_ok c \<longleftrightarrow>
     (\<exists>l led d r. ax_logger c = Some l \<and> ax_led_controller c = Some led \<and> ax_scan_detector c = Some d \<and>
        ax_rules_engine c = Some r \<and> queue_ok (lc_queue led) \<and> detector_ok d)"

text \<open>What processing does not change, and what cleaning up depends on.\<close>

definition same_devices :: "app_context \<Rightarrow> app_context \<Rightarrow> bool" where
  "same_devices c c' \<longleftrightarrow>
     ax_logger c' = ax_logger c \<and>
     (\<exists>q. ax_led_controller c' = map_option (\<lambda>led. led\<lparr>lc_queue := q\<rparr>) (ax_led_controller c)) \<and>
     map_option dp_started (ax_display_controller c') = map_option dp_started (ax_display_controller c)"

lemma same_devices_refl: "same_devices c c"
  by (cases "ax_led_controller c")
    (auto simp: same_devices_def intro: exI [of _ "lc_queue (the (ax_led_controller c))"])

lemma same_devices_trans: "same_devices a b \<Longrightarrow> same_devices b c \<Longrightarrow> same_devices a c"
  by (cases "ax_led_controller a") (auto simp: same_devices_def)

lemma record_event_started:
  "map_option dp_started (display_controller_record_event d e) = map_option dp_started d"
  by (auto simp: display_controller_record_event_def split: option.split)

lemma publish_scan_started:
  "map_option dp_started (fst (display_controller_publish_scan ok d s)) = map_option dp_started d"
  by (auto simp: display_controller_publish_scan_def Let_def split: option.split)

definition appended :: "streams \<Rightarrow> streams \<Rightarrow> bool" where
  "appended io io' \<longleftrightarrow> prefix (st_stdout io) (st_stdout io') \<and> prefix (st_log io) (st_log io')"

lemma emit_appends: "appended io (logger_emit en raw now l e io)"
  by (cases l; cases e) (auto simp: logger_emit_def appended_def Let_def)

lemma appended_refl: "appended io io"
  by (simp add: appended_def)

lemma appended_trans: "appended a b \<Longrightarrow> appended b c \<Longrightarrow> appended a c"
  by (auto simp: appended_def)

definition keeps :: "app_context \<times> streams \<Rightarrow> app_context \<times> streams \<Rightarrow> bool" where
  "keeps s s' \<longleftrightarrow> (app_ok (fst s) \<longrightarrow> app_ok (fst s')) \<and> same_devices (fst s) (fst s') \<and> appended (snd s) (snd s')"

lemma keeps_refl: "keeps s s"
  by (simp add: keeps_def same_devices_refl appended_refl)

lemma keeps_trans: "keeps a b \<Longrightarrow> keeps b c \<Longrightarrow> keeps a c"
  unfolding keeps_def using same_devices_trans appended_trans by blast

lemma report_event_keeps: "keeps s (report_event pf now e s)"
proof -
  obtain c io where s: "s = (c, io)" by (cases s)
  show ?thesis
    by (cases "ax_led_controller c")
      (auto simp: s keeps_def emit_appends report_event_def app_ok_def same_devices_def led_controller_enqueue_def
        queue_push_ok(1) intro: exI [of _ "lc_queue (the (ax_led_controller c))"])
qed

lemma evaluate_total:
  "\<exists>raised r' e. rules_engine_evaluate_packet cvt ok now (Some r) (Some p) (Some ev) = (raised, Some r', Some e)"
proof -
  have "\<exists>e. snd (rules_evaluate_packet (Some p) (Some ev)) = Some e"
    by (simp add: rules_evaluate_packet_def Let_def)
  then obtain raised e where eval: "rules_evaluate_packet (Some p) (Some ev) = (raised, Some e)"
    by (metis prod.collapse)
  have "\<exists>escalate r'. ssh_alert_should_escalate cvt ok now (Some r) (Some p) = (escalate, Some r')"
    by (cases "track_attempt ok p now (ssh_attempts (the (prune_ssh_attempts cvt (Some r) now)))")
      (auto simp: ssh_alert_should_escalate_def prune_ssh_attempts_def)
  then show ?thesis
    by (cases raised) (auto simp: rules_engine_evaluate_packet_def eval)
qed

lemma observe_total:
  assumes "detector_ok d"
  shows "\<exists>raised d' a'. scan_detector_observe cvt sok pok now (Some d) (Some p) (Some a) = (raised, Some d', Some a') \<and>
    detector_ok d'"
proof -
  obtain raised d' a' where observed:
    "scan_detector_observe cvt sok pok now (Some d) (Some p) (Some a) = (raised, d', a')"
    by (metis prod_cases3)
  obtain d1 where d1: "d' = Some d1"
    using observe_revision [of cvt sok pok now d p a] observed by auto
  have "a' \<noteq> None"
    using observed
    by (auto simp: scan_detector_observe_def scan_detector_observe_at_def Let_def
        split: if_split_asm option.split_asm prod.split_asm)
  moreover have "detector_ok d1"
    using detector_step_ok [OF detector_step.observe assms] observed d1 by blast
  ultimately show ?thesis using observed d1 by blast
qed

text \<open>One packet: the parse succeeds, and each of the three layers keeps the context in order.\<close>

lemma process_packet_keeps:
  assumes "app_ok c" and "unat (caplen h) \<le> length bytes"
  shows "\<exists>c' io'. process_packet pf inp (Some h) (Some bytes) (Some c, io) = Some (Some c', io') \<and>
    keeps (c, io) (c', io')"
proof -
  obtain l led d r where c: "ax_logger c = Some l" "ax_led_controller c = Some led" "ax_scan_detector c = Some d"
    "ax_rules_engine c = Some r" "queue_ok (lc_queue led)" "detector_ok d"
    using assms(1) by (auto simp: app_ok_def)
  have "unat (ucast (caplen h) :: u64) = unat (caplen h)"
    using unsigned_less [where 'a = nat, of "caplen h"]
    by (subst unsigned_ucast_eq) (rule take_bit_nat_eq_self, simp)
  with assms(2) obtain ok p where parsed:
    "parse_packet (pf_endian pf) (Some bytes) (ucast (caplen h)) (ucast (len h)) (Some (in_packet_info inp)) =
       Some (ok, Some p)"
    using parse_packet_fills by metis
  obtain raised r' e where evaluated:
    "rules_engine_evaluate_packet (pf_cvt pf) (in_attempt_alloc inp) (in_rules_now inp) (Some r) (Some p)
       (Some (in_event inp)) = (raised, Some r', Some e)"
    using evaluate_total by metis
  define c1 where "c1 = c\<lparr>ax_rules_engine := Some r'\<rparr>"
  define s2 where "s2 = (if raised
    then report_event pf (in_event_log_now inp) e
      (c1\<lparr>ax_display_controller := display_controller_record_event (ax_display_controller c1) (Some e)\<rparr>, io)
    else (c1, io))"
  have "keeps (c, io) (c1\<lparr>ax_display_controller := display_controller_record_event (ax_display_controller c1) (Some e)\<rparr>, io)"
    using c same_devices_refl [of c]
    by (simp add: keeps_def c1_def app_ok_def same_devices_def record_event_started appended_refl)
  moreover have "keeps (c, io) (c1, io)"
    using c same_devices_refl [of c] by (simp add: keeps_def c1_def app_ok_def same_devices_def appended_refl)
  ultimately have k2: "keeps (c, io) s2"
    using report_event_keeps keeps_trans by (auto simp: s2_def)
  have d2: "ax_scan_detector (fst s2) = Some d"
    by (simp add: s2_def report_event_def c1_def c)
  obtain alerted d' a' where observed:
    "scan_detector_observe (pf_cvt pf) (in_source_alloc inp) (in_port_alloc inp) (in_scan_now inp) (Some d) (Some p)
       (Some (in_scan_alert inp)) = (alerted, Some d', Some a')" "detector_ok d'"
    using observe_total [OF c(6)] by metis
  define s3 where "s3 = ((fst s2)\<lparr>ax_scan_detector := Some d'\<rparr>, snd s2)"
  have k3: "keeps s2 s3"
    using d2 observed(2) same_devices_refl [of "fst s2"]
    by (auto simp: keeps_def s3_def app_ok_def same_devices_def appended_refl)
  obtain e3 where alert:
    "rules_make_scan_alert (in_alert_packet_info inp) (al_src_ipv4 a') (al_unique_ports a') (al_window_seconds a')
       (Some e) = Some e3"
    by (simp add: rules_make_scan_alert_def)
  define s4 where "s4 = (if alerted then report_event pf (in_alert_log_now inp) e3 s3 else s3)"
  have k4: "keeps s3 s4" by (simp add: s4_def report_event_keeps keeps_refl)
  define c5 where "c5 = (fst s4)\<lparr>ax_display_controller :=
    fst (display_controller_publish_scan (in_snapshot_alloc inp) (ax_display_controller (fst s4))
      (ax_scan_detector (fst s4)))\<rparr>"
  have "keeps s4 (c5, snd s4)"
    using same_devices_refl [of "fst s4"]
    by (simp add: keeps_def c5_def app_ok_def same_devices_def publish_scan_started appended_refl)
  with k2 k3 k4 have kept: "keeps (c, io) (c5, snd s4)" using keeps_trans by blast
  have "process_packet pf inp (Some h) (Some bytes) (Some c, io) = Some (Some c5, snd s4)"
    using d2
    by (cases raised; cases alerted)
      (simp_all add: process_packet_def parsed c(3,4) evaluated observed(1) alert c5_def s4_def s3_def s2_def
        c1_def split_beta Let_def)
  with kept show ?thesis by blast
qed

text \<open>What \<open>libpcap\<close> documents: a captured packet has at least \<open>caplen\<close> readable bytes.\<close>

definition captured_ok :: "(pcap_pkthdr option \<times> u8 list option) list \<Rightarrow> bool" where
  "captured_ok delivered \<longleftrightarrow>
     list_all (\<lambda>(header, packet). case (header, packet) of
                 (Some h, Some bytes) \<Rightarrow> unat (caplen h) \<le> length bytes
               | _ \<Rightarrow> True) delivered"

lemma process_any_keeps:
  assumes "app_ok c" and "captured_ok [(header, packet)]"
  shows "\<exists>c' io'. process_packet pf inp header packet (Some c, io) = Some (Some c', io') \<and>
    keeps (c, io) (c', io')"
proof (cases "header = None \<or> packet = None")
  case True
  then have "process_packet pf inp header packet (Some c, io) = Some (Some c, io)"
    by (auto simp: process_packet_def split: option.split)
  then show ?thesis using keeps_refl by blast
next
  case False
  with assms process_packet_keeps show ?thesis by (auto simp: captured_ok_def)
qed

lemma packets_keep:
  assumes "app_ok (the (ar_context r))" "ar_context r \<noteq> None" "captured_ok delivered"
  shows "\<exists>c' io'. fold (\<lambda>(header, packet). packet_callback pf inputs header packet) delivered (Some r) =
      Some \<lparr>ar_context = Some c', ar_streams = io', ar_packets = ar_packets r + length delivered\<rparr> \<and>
    keeps (the (ar_context r), ar_streams r) (c', io')"
  using assms
proof (induction delivered arbitrary: r)
  case Nil
  then show ?case by (intro exI [of _ "the (ar_context r)"] exI [of _ "ar_streams r"]) (auto simp: keeps_refl)
next
  case (Cons packet delivered)
  obtain header bytes where p: "packet = (header, bytes)" by (cases packet)
  have heads: "captured_ok [(header, bytes)]" "captured_ok delivered"
    using Cons.prems(3) by (auto simp: captured_ok_def p)
  obtain c where c: "ar_context r = Some c" using Cons.prems(2) by auto
  obtain c1 io1 where one: "process_packet pf (inputs (ar_packets r)) header bytes (Some c, ar_streams r) = Some (Some c1, io1)"
    "keeps (c, ar_streams r) (c1, io1)"
    using process_any_keeps [of c header bytes pf "inputs (ar_packets r)" "ar_streams r"] Cons.prems(1) heads(1) c by auto
  let ?r1 = "\<lparr>ar_context = Some c1, ar_streams = io1, ar_packets = Suc (ar_packets r)\<rparr>"
  have "packet_callback pf inputs header bytes (Some r) = Some ?r1"
    by (simp add: packet_callback_def c one(1))
  then have run: "fold (\<lambda>(header, packet). packet_callback pf inputs header packet) (packet # delivered) (Some r) =
      fold (\<lambda>(header, packet). packet_callback pf inputs header packet) delivered (Some ?r1)"
    by (simp add: p)
  have "app_ok c1" using one(2) Cons.prems(1) c by (simp add: keeps_def)
  then obtain c' io' where "fold (\<lambda>(header, packet). packet_callback pf inputs header packet) delivered (Some ?r1) =
      Some \<lparr>ar_context = Some c', ar_streams = io', ar_packets = Suc (ar_packets r) + length delivered\<rparr>"
    "keeps (c1, io1) (c', io')"
    using Cons.IH [of ?r1] heads(2) by auto
  with run keeps_trans [OF one(2)] show ?case by (intro exI [of _ c'] exI [of _ io']) (simp add: c)
qed

section \<open>Properties\<close>

text \<open>
  C8: processing any capture is safe. From a context whose components satisfy their invariants,
  \<open>capture_loop\<close> over any packets of which \<open>caplen\<close> bytes may be read processes all of them without
  a read outside a packet, whatever the clocks, the allocations and the uninitialised locals give;
  the invariants of the queue and the detector still hold, the devices are the same, the log and
  the output only grow, and the loop returns what \<open>pcap_loop\<close> returned.
\<close>

theorem captured_packets_safe:
  assumes "app_ok c" and "captured_ok delivered"
  shows "\<exists>c' io'. capture_loop delivered returned (Some \<lparr>ch_pcap_handle = True\<rparr>) (Some (packet_callback pf inputs))
      (Some \<lparr>ar_context = Some c, ar_streams = io, ar_packets = 0\<rparr>) =
      (returned, Some \<lparr>ar_context = Some c', ar_streams = io', ar_packets = length delivered\<rparr>) \<and>
    app_ok c' \<and> same_devices c c' \<and> prefix (st_stdout io) (st_stdout io') \<and> prefix (st_log io) (st_log io')"
  using packets_keep [of "\<lparr>ar_context = Some c, ar_streams = io, ar_packets = 0\<rparr>" delivered pf inputs] assms
  by (auto simp: capture_loop_fold keeps_def appended_def)

definition quiet_context :: app_context where
  "quiet_context =
     \<lparr>ax_logger = Some \<lparr>lg_log_file = True\<rparr>, ax_led_controller = Some led_controller_zero,
      ax_scan_detector = scan_detector_create True 10 20, ax_rules_engine = rules_engine_create True,
      ax_display_controller = None\<rparr>"

lemma quiet_context_ok: "app_ok quiet_context"
  by (simp add: app_ok_def quiet_context_def queue_zero(1) scan_detector_create_def rules_engine_create_def
      detector_ok_def)

definition example_platform :: platform where
  "example_platform = \<lparr>pf_endian = Little, pf_cvt = cvt_saturating, pf_raw_time = utc_time\<rparr>"

definition example_inputs :: packet_inputs where
  "example_inputs =
     \<lparr>in_rules_now = 1000, in_attempt_alloc = True, in_scan_now = 1000, in_source_alloc = True,
      in_port_alloc = True, in_snapshot_alloc = True, in_event_log_now = 1000, in_alert_log_now = 1000,
      in_packet_info = packet_info_zero, in_event = event_zero,
      in_scan_alert = \<lparr>al_src_ipv4 = 0, al_unique_ports = 0, al_window_seconds = 0\<rparr>,
      in_alert_packet_info = packet_info_zero\<rparr>"

theorem captured_packets_safe_witness:
  "\<exists>c' io'. capture_loop [(Some \<lparr>caplen = 1, len = 60\<rparr>, Some [0xff]), (None, None)] (- 2)
      (Some \<lparr>ch_pcap_handle = True\<rparr>) (Some (packet_callback example_platform (\<lambda>_. example_inputs)))
      (Some \<lparr>ar_context = Some quiet_context, ar_streams = \<lparr>st_stdout = [], st_log = []\<rparr>, ar_packets = 0\<rparr>) =
      (- 2, Some \<lparr>ar_context = Some c', ar_streams = io', ar_packets = 2\<rparr>) \<and> app_ok c'"
proof -
  note quiet_context_ok
  moreover have "captured_ok [(Some \<lparr>caplen = 1, len = 60\<rparr>, Some [0xff]), (None, None)]"
    by (simp add: captured_ok_def)
  ultimately show ?thesis
    using captured_packets_safe [of quiet_context _ "- 2" example_platform "\<lambda>_. example_inputs" "\<lparr>st_stdout = [], st_log = []\<rparr>"]
    by fastforce
qed

end
