(* ===== verification/Main_Properties.thy ===== *)
theory Main_Properties
  imports Main_Packets
begin

text \<open>
  What \<open>main\<close> promises: on every path it gives back everything it took and exits with the right code,
  and what a signal can and cannot do.
\<close>

section \<open>Giving back\<close>

definition logger_part :: "app_call list \<Rightarrow> logger_call list" where
  "logger_part calls = List.map_filter (\<lambda>c. case c of LoggerCall x \<Rightarrow> Some x | _ \<Rightarrow> None) calls"

definition led_part :: "app_call list \<Rightarrow> led_call list" where
  "led_part calls = List.map_filter (\<lambda>c. case c of LedCall x \<Rightarrow> Some x | _ \<Rightarrow> None) calls"

text \<open>A pending snapshot changes hands between the threads; it is the matter of \<open>Display_Threads\<close>.\<close>

definition display_part :: "app_call list \<Rightarrow> display_call list" where
  "display_part calls =
     filter (\<lambda>x. x \<noteq> DispFreeSnapshot) (List.map_filter (\<lambda>c. case c of DisplayCall x \<Rightarrow> Some x | _ \<Rightarrow> None) calls)"

definition capture_part :: "app_call list \<Rightarrow> capture_call list" where
  "capture_part calls = List.map_filter (\<lambda>c. case c of CaptureCall x \<Rightarrow> Some x | _ \<Rightarrow> None) calls"

definition memory_part :: "app_call list \<Rightarrow> app_call list" where
  "memory_part calls =
     filter (\<lambda>c. case c of DetectorAlloc \<Rightarrow> True | DetectorFree _ \<Rightarrow> True | RulesAlloc \<Rightarrow> True | RulesFree _ \<Rightarrow> True
               | _ \<Rightarrow> False) calls"

lemmas part_defs = logger_part_def led_part_def display_part_def capture_part_def memory_part_def

lemma map_filter_append: "List.map_filter f (xs @ ys) = List.map_filter f xs @ List.map_filter f ys"
  by (simp add: List.map_filter_def)

lemma map_filter_map: "List.map_filter f (map g xs) = List.map_filter (f \<circ> g) xs"
  by (simp add: List.map_filter_def filter_map comp_def)

lemma map_filter_const: "List.map_filter (\<lambda>x. Some x) xs = xs" "List.map_filter (\<lambda>x. None) xs = []"
  by (simp_all add: List.map_filter_def)

lemma part_append [simp]:
  "logger_part (xs @ ys) = logger_part xs @ logger_part ys" "led_part (xs @ ys) = led_part xs @ led_part ys"
  "display_part (xs @ ys) = display_part xs @ display_part ys"
  "capture_part (xs @ ys) = capture_part xs @ capture_part ys"
  "memory_part (xs @ ys) = memory_part xs @ memory_part ys"
  by (simp_all add: part_defs map_filter_append)

lemma part_map [simp]:
  "logger_part (map LoggerCall a) = a" "led_part (map LedCall b) = b" "capture_part (map CaptureCall d) = d"
  "display_part (map DisplayCall e) = filter (\<lambda>x. x \<noteq> DispFreeSnapshot) e"
  "logger_part (map LedCall b) = []" "logger_part (map DisplayCall e) = []" "logger_part (map CaptureCall d) = []"
  "led_part (map LoggerCall a) = []" "led_part (map DisplayCall e) = []" "led_part (map CaptureCall d) = []"
  "display_part (map LoggerCall a) = []" "display_part (map LedCall b) = []" "display_part (map CaptureCall d) = []"
  "capture_part (map LoggerCall a) = []" "capture_part (map LedCall b) = []" "capture_part (map DisplayCall e) = []"
  "memory_part (map LoggerCall a) = []" "memory_part (map LedCall b) = []" "memory_part (map DisplayCall e) = []"
  "memory_part (map CaptureCall d) = []"
  by (simp_all add: part_defs map_filter_map comp_def map_filter_const filter_empty_conv)

lemma logger_call_parts [simp]:
  "logger_part (LoggerCall x # xs) = x # logger_part xs" "led_part (LoggerCall x # xs) = led_part xs"
  "display_part (LoggerCall x # xs) = display_part xs" "capture_part (LoggerCall x # xs) = capture_part xs"
  "memory_part (LoggerCall x # xs) = memory_part xs"
  by (simp_all add: part_defs List.map_filter_simps)

lemma part_Cons [simp]:
  "logger_part [] = []" "led_part [] = []" "display_part [] = []" "capture_part [] = []" "memory_part [] = []"
  "logger_part (DetectorAlloc # xs) = logger_part xs" "logger_part (DetectorFree bs # xs) = logger_part xs"
  "logger_part (RulesAlloc # xs) = logger_part xs" "logger_part (RulesFree rs # xs) = logger_part xs"
  "logger_part (InstallHandlers # xs) = logger_part xs"
  "led_part (DetectorAlloc # xs) = led_part xs" "led_part (DetectorFree bs # xs) = led_part xs"
  "led_part (RulesAlloc # xs) = led_part xs" "led_part (RulesFree rs # xs) = led_part xs"
  "led_part (InstallHandlers # xs) = led_part xs"
  "display_part (DetectorAlloc # xs) = display_part xs" "display_part (DetectorFree bs # xs) = display_part xs"
  "display_part (RulesAlloc # xs) = display_part xs" "display_part (RulesFree rs # xs) = display_part xs"
  "display_part (InstallHandlers # xs) = display_part xs"
  "capture_part (DetectorAlloc # xs) = capture_part xs" "capture_part (DetectorFree bs # xs) = capture_part xs"
  "capture_part (RulesAlloc # xs) = capture_part xs" "capture_part (RulesFree rs # xs) = capture_part xs"
  "capture_part (InstallHandlers # xs) = capture_part xs"
  "memory_part (DetectorAlloc # xs) = DetectorAlloc # memory_part xs"
  "memory_part (DetectorFree bs # xs) = DetectorFree bs # memory_part xs"
  "memory_part (RulesAlloc # xs) = RulesAlloc # memory_part xs"
  "memory_part (RulesFree rs # xs) = RulesFree rs # memory_part xs"
  "memory_part (InstallHandlers # xs) = memory_part xs"
  by (simp_all add: part_defs List.map_filter_simps map_filter_Nil)

text \<open>What the log file and the capture handle hold: closing or freeing what is not held is a fault.\<close>

fun logger_holds :: "main_outcomes \<Rightarrow> bool \<times> bool \<Rightarrow> logger_call list \<Rightarrow> (bool \<times> bool) option" where
  "logger_holds m held [] = Some held"
| "logger_holds m (memory, file) (LogAlloc # calls) = logger_holds m (mo_logger_alloc m, file) calls"
| "logger_holds m (memory, file) (LogOpen # calls) = logger_holds m (memory, mo_fopen m) calls"
| "logger_holds m (memory, file) (LogClose # calls) = (if file then logger_holds m (memory, False) calls else None)"
| "logger_holds m (memory, file) (LogFree # calls) = (if memory then logger_holds m (False, file) calls else None)"

fun capture_holds :: "main_outcomes \<Rightarrow> bool \<times> bool \<Rightarrow> capture_call list \<Rightarrow> (bool \<times> bool) option" where
  "capture_holds m held [] = Some held"
| "capture_holds m (pcap, memory) (PcapOpen # calls) = capture_holds m (case mo_pcap_open m of Inl _ \<Rightarrow> False | Inr _ \<Rightarrow> True, memory) calls"
| "capture_holds m (pcap, memory) (CaptureAlloc # calls) = capture_holds m (pcap, mo_capture_alloc m) calls"
| "capture_holds m (pcap, memory) (PcapClose # calls) = (if pcap then capture_holds m (False, memory) calls else None)"
| "capture_holds m (pcap, memory) (CaptureFree # calls) = (if memory then capture_holds m (pcap, False) calls else None)"
| "capture_holds m (pcap, memory) (PcapBreak # calls) = (if pcap then capture_holds m (pcap, memory) calls else None)"

text \<open>Detector and rules engine: what was allocated is destroyed, the rules engine first.\<close>

definition memory_released :: "main_outcomes \<Rightarrow> app_call list \<Rightarrow> bool" where
  "memory_released m calls \<longleftrightarrow>
     (if calls = [] then True
      else if \<not> mo_detector_alloc m then calls = [DetectorAlloc]
      else if \<not> mo_rules_alloc m
        then (\<exists>d. calls = [DetectorAlloc, RulesAlloc, DetectorFree (scan_detector_destroy (Some d))])
      else (\<exists>d r. calls = [DetectorAlloc, RulesAlloc, RulesFree (rules_engine_destroy (Some r)),
                           DetectorFree (scan_detector_destroy (Some d))]))"

definition released_all :: "main_outcomes \<Rightarrow> app_call list \<Rightarrow> bool" where
  "released_all m calls \<longleftrightarrow>
     logger_holds m (False, False) (logger_part calls) = Some (False, False) \<and>
     capture_holds m (False, False) (capture_part calls) = Some (False, False) \<and>
     led_holds (mo_led m) [] (led_part calls) = Some [] \<and>
     display_holds (mo_display m) [] (display_part calls) = Some [] \<and>
     memory_released m (memory_part calls)"

lemma led_released:
  assumes "led_controller_create env enable chip given = (Some led, warning, calls)"
  shows "led_holds env [] (calls @ led_controller_destroy (Some (led\<lparr>lc_queue := q\<rparr>))) = Some []"
proof -
  have "led_controller_destroy (Some (led\<lparr>lc_queue := q\<rparr>)) = led_controller_destroy (Some led)"
    by (simp add: led_controller_destroy_def)
  with led_create_destroy_balanced [of env enable chip given] assms show ?thesis by simp
qed

lemma display_create_calls:
  "display_controller_create env init config = (display, warning, calls) \<Longrightarrow> DispFreeSnapshot \<notin> set calls"
  by (auto simp: display_controller_create_def allocate_controller_def start_controller_def
      split: if_split_asm option.split_asm prod.split_asm)

lemma display_released:
  assumes "display_controller_create env init config = (display, warning, calls)"
    and "map_option dp_started display' = map_option dp_started display"
  shows "display_holds env [] (calls @ filter (\<lambda>x. x \<noteq> DispFreeSnapshot) (display_controller_destroy display')) = Some []"
proof (cases display)
  case None
  with assms display_create_destroy_balanced [where env = env and init = init and config = config] show ?thesis
    by (simp add: display_controller_destroy_def)
next
  case (Some d)
  with assms(2) obtain d' where d': "display' = Some d'" "dp_started d' = dp_started d" by auto
  let ?none = "\<lparr>dp_available = False, dp_running = False, dp_snapshot_failed = False, dp_icmp_count = 0,
    dp_ssh_count = 0, dp_pending = None, dp_published_revision = 0, dp_started = False\<rparr>"
  from assms(1) display_create_destroy_balanced [where env = env and init = init and config = config and c' = ?none]
  have "display_holds env [] (calls @ display_controller_destroy (Some (d\<lparr>dp_pending := None\<rparr>))) = Some []"
    by (simp add: Some)
  then show ?thesis by (cases "dp_started d") (simp_all add: display_controller_destroy_def d')
qed

lemma filter_calls: "DispFreeSnapshot \<notin> set calls \<Longrightarrow> filter (\<lambda>x. x \<noteq> DispFreeSnapshot) calls = calls"
  by (auto simp: filter_id_conv)

text \<open>The cleanup of a context whose devices are those that were created.\<close>

lemma released_devices:
  assumes "led_controller_create (mo_led m) enable chip given = (Some led, led_text, led_calls)"
    and "display_controller_create (mo_display m) init config = (display, display_text, display_calls)"
    and "same_devices c c'" and "ax_led_controller c = Some led" and "ax_display_controller c = display"
  shows "led_holds (mo_led m) [] (led_calls @ led_part (release_all c')) = Some []"
    and "display_holds (mo_display m) [] (filter (\<lambda>x. x \<noteq> DispFreeSnapshot) display_calls @ display_part (release_all c')) = Some []"
proof -
  obtain q where led: "ax_led_controller c' = Some (led\<lparr>lc_queue := q\<rparr>)"
    and display: "map_option dp_started (ax_display_controller c') = map_option dp_started display"
    using assms(3-5) by (auto simp: same_devices_def)
  show "led_holds (mo_led m) [] (led_calls @ led_part (release_all c')) = Some []"
    using led_released [OF assms(1)]
    by (simp add: release_all_def release_rules_def release_detector_def release_logger_def led)
  show "display_holds (mo_display m) [] (filter (\<lambda>x. x \<noteq> DispFreeSnapshot) display_calls @ display_part (release_all c')) = Some []"
    using display_released [OF assms(2) display] filter_calls [OF display_create_calls [OF assms(2)]]
    by (simp add: release_all_def release_rules_def release_detector_def release_logger_def)
qed

lemma release_all_parts:
  "logger_part (release_all c) = logger_close (ax_logger c)" "capture_part (release_all c) = []"
  "memory_part (release_all c) = [RulesFree (rules_engine_destroy (ax_rules_engine c)),
     DetectorFree (scan_detector_destroy (ax_scan_detector c))]"
  by (simp_all add: release_all_def release_rules_def release_detector_def release_logger_def)

section \<open>The paths of main\<close>

lemma led_create_ok:
  "led_controller_create env enable chip given = (Some led, led_text, calls) \<Longrightarrow> queue_ok (lc_queue led)"
  using created_queue queue_zero(1) by metis

lemma main_capture_released:
  assumes "app_ok c" and "captured_ok (mo_delivered m)" and "cf_interface_name config \<noteq> None"
    and "led_controller_create (mo_led m) enable chip given = (Some led, led_text, led_calls)"
    and "display_controller_create (mo_display m) init dconfig = (display, display_text, display_calls)"
    and "ax_led_controller c = Some led" and "ax_display_controller c = display"
    and "ax_logger c = Some \<lparr>lg_log_file = True\<rparr>" and "mo_logger_alloc m" "mo_fopen m" "mo_detector_alloc m" "mo_rules_alloc m"
  shows "\<exists>r. main_capture m config c ([LoggerCall LogAlloc, LoggerCall LogOpen, DetectorAlloc, RulesAlloc] @
        map LedCall led_calls @ map DisplayCall display_calls @ [InstallHandlers]) errors io = Some r \<and>
      released_all m (mr_calls r) \<and>
      mr_exit r = (if isl (mo_pcap_open m) \<or> \<not> mo_capture_alloc m \<or> mo_loop_result m = - 1 then 1 else 0)"
proof -
  let ?calls = "[LoggerCall LogAlloc, LoggerCall LogOpen, DetectorAlloc, RulesAlloc] @
        map LedCall led_calls @ map DisplayCall display_calls @ [InstallHandlers]"
  have released: "released_all m (?calls @ map CaptureCall cc @ release_all c')"
    if "same_devices c c'" "app_ok c'" "capture_holds m (False, False) cc = Some (False, False)" for c' cc
  proof -
    note kept = that
    obtain d r where "ax_scan_detector c' = Some d" "ax_rules_engine c' = Some r"
      using kept(2) by (auto simp: app_ok_def)
    moreover have "ax_logger c' = Some \<lparr>lg_log_file = True\<rparr>" using that(1) assms(8) by (simp add: same_devices_def)
    ultimately show ?thesis
      using released_devices [OF assms(4,5) that(1) assms(6,7)] that(3) assms(9-12)
      by (auto simp: released_all_def release_all_parts memory_released_def logger_close_def)
  qed
  obtain name where name: "cf_interface_name config = Some name" using assms(3) by blast
  show ?thesis
  proof (cases "isl (mo_pcap_open m) \<or> \<not> mo_capture_alloc m")
    case True
    then obtain err cc where opened:
      "capture_open (mo_pcap_open m) (mo_capture_alloc m) (Some name) (Some []) 256 = (None, err, cc)"
      "capture_holds m (False, False) cc = Some (False, False)"
      by (cases "mo_pcap_open m") (auto simp: capture_open_def Let_def)
    show ?thesis
      using released [OF same_devices_refl assms(1) opened(2)] True
      by (auto simp: main_capture_def name opened(1))
  next
    case False
    then have opened: "capture_open (mo_pcap_open m) (mo_capture_alloc m) (Some name) (Some []) 256 =
        (Some \<lparr>ch_pcap_handle = True\<rparr>, Some [], [PcapOpen, CaptureAlloc])"
      by (cases "mo_pcap_open m") (auto simp: capture_open_def copy_error_def c_strncpy_def)
    define io1 where "io1 = io\<lparr>st_stdout := st_stdout io @ listening_line config c\<rparr>"
    obtain c' io' where run: "fold (\<lambda>(header, packet). packet_callback (mo_platform m) (mo_inputs m) header packet)
        (mo_delivered m) (Some \<lparr>ar_context = Some c, ar_streams = io1, ar_packets = 0\<rparr>) =
        Some \<lparr>ar_context = Some c', ar_streams = io', ar_packets = length (mo_delivered m)\<rparr>"
      "keeps (c, io1) (c', io')"
      using packets_keep [of "\<lparr>ar_context = Some c, ar_streams = io1, ar_packets = 0\<rparr>" "mo_delivered m"
        "mo_platform m" "mo_inputs m"] assms(1,2)
      by auto
    have closed: "capture_holds m (False, False)
        ([PcapOpen, CaptureAlloc] @ capture_close (Some \<lparr>ch_pcap_handle = True\<rparr>)) = Some (False, False)"
      using False by (cases "mo_pcap_open m") (simp_all add: capture_close_def)
    have "released_all m (?calls @ map CaptureCall ([PcapOpen, CaptureAlloc] @ capture_close (Some \<lparr>ch_pcap_handle = True\<rparr>)) @
        release_all c')"
      using run(2) assms(1) by (intro released closed) (auto simp: keeps_def)
    moreover have "\<exists>r. main_capture m config c ?calls errors io = Some r \<and>
        mr_calls r = ?calls @ map CaptureCall ([PcapOpen, CaptureAlloc] @ capture_close (Some \<lparr>ch_pcap_handle = True\<rparr>)) @
          release_all c' \<and> mr_exit r = (if mo_loop_result m = - 1 then 1 else 0)"
      by (simp add: main_capture_def name opened io1_def [symmetric] capture_loop_fold run(1) Let_def)
    ultimately show ?thesis using False by fastforce
  qed
qed

text \<open>Everything is there and the loop did not fail.\<close>

definition capturing :: "main_outcomes \<Rightarrow> bool" where
  "capturing m \<longleftrightarrow>
     mo_logger_alloc m \<and> mo_fopen m \<and> mo_detector_alloc m \<and> mo_rules_alloc m \<and> lo_alloc (mo_led m) \<and>
     mo_handlers m \<and> \<not> isl (mo_pcap_open m) \<and> mo_capture_alloc m \<and> mo_loop_result m \<noteq> - 1"

lemma main_devices_released:
  assumes "captured_ok (mo_delivered m)" and "cf_interface_name config \<noteq> None"
    and "mo_logger_alloc m" "mo_fopen m" "mo_detector_alloc m" "mo_rules_alloc m"
    and "c = \<lparr>ax_logger = Some \<lparr>lg_log_file = True\<rparr>, ax_led_controller = None, ax_scan_detector = Some d,
               ax_rules_engine = Some r, ax_display_controller = None\<rparr>" "detector_ok d"
  shows "\<exists>res. main_devices m config c [LoggerCall LogAlloc, LoggerCall LogOpen, DetectorAlloc, RulesAlloc] io = Some res \<and>
      released_all m (mr_calls res) \<and> mr_exit res = (if capturing m then 0 else 1)"
proof -
  obtain led led_text led_calls where led: "led_controller_create (mo_led m) (cf_enable_led config)
      (Some (cf_gpio_chip config)) (cf_gpio_line_provided config) = (led, led_text, led_calls)"
    by (metis prod_cases3)
  obtain display display_text display_calls where display:
    "display_controller_create (mo_display m) (mo_display_init m) (Some (cf_display config)) =
       (display, display_text, display_calls)"
    by (metis prod_cases3)
  show ?thesis
  proof (cases led)
    case None
    with led led_create_destroy_balanced [of "mo_led m" "cf_enable_led config" "Some (cf_gpio_chip config)"
        "cf_gpio_line_provided config"]
    have "\<not> lo_alloc (mo_led m)" "led_holds (mo_led m) [] led_calls = Some []" by auto
    then show ?thesis
      using None assms(3-8)
      by (auto simp: main_devices_def led released_all_def release_rules_def release_detector_def
          release_logger_def logger_close_def memory_released_def capturing_def)
  next
    case (Some l)
    then have "lo_alloc (mo_led m)"
      using led led_create_destroy_balanced [of "mo_led m" "cf_enable_led config" "Some (cf_gpio_chip config)"
        "cf_gpio_line_provided config"] by auto
    let ?c = "c\<lparr>ax_led_controller := Some l, ax_display_controller := display\<rparr>"
    have ok: "app_ok ?c" using led_create_ok [OF led [unfolded Some]] assms(7,8) by (simp add: app_ok_def)
    let ?calls = "[LoggerCall LogAlloc, LoggerCall LogOpen, DetectorAlloc, RulesAlloc] @
        map LedCall led_calls @ map DisplayCall display_calls @ [InstallHandlers]"
    show ?thesis
    proof (cases "mo_handlers m")
      case False
      have "released_all m (?calls @ release_all ?c)"
        using released_devices [OF led [unfolded Some] display same_devices_refl, of ?c] assms(3-7)
        by (auto simp: released_all_def release_all_parts memory_released_def logger_close_def)
      with False show ?thesis
        using Some assms(7) by (simp add: main_devices_def led display Let_def capturing_def)
    next
      case True
      define errors where "errors = (if c_snprintf 256 display_text \<noteq> []
        then (if c_strncpy 256 led_text \<noteq> [] then [''[WARN ] '' @ c_strncpy 256 led_text] else []) @
          [''[WARN ] '' @ c_snprintf 256 display_text]
        else (if c_strncpy 256 led_text \<noteq> [] then [''[WARN ] '' @ c_strncpy 256 led_text] else []))"
      obtain res where res: "main_capture m config ?c ?calls errors io = Some res" "released_all m (mr_calls res)"
        "mr_exit res = (if isl (mo_pcap_open m) \<or> \<not> mo_capture_alloc m \<or> mo_loop_result m = - 1 then 1 else 0)"
        using main_capture_released [OF ok assms(1,2) led [unfolded Some] display, of errors io] assms(3-7) by auto
      moreover have "main_devices m config c [LoggerCall LogAlloc, LoggerCall LogOpen, DetectorAlloc, RulesAlloc] io =
          main_capture m config ?c ?calls errors io"
        using True Some by (simp add: main_devices_def led display Let_def errors_def)
      moreover have "capturing m = (\<not> (isl (mo_pcap_open m) \<or> \<not> mo_capture_alloc m \<or> mo_loop_result m = - 1))"
        using True assms(3-6) \<open>lo_alloc (mo_led m)\<close> by (auto simp: capturing_def)
      ultimately show ?thesis by simp
    qed
  qed
qed

section \<open>Properties\<close>

text \<open>
  C7: \<open>main\<close> gives back everything it took. On every path, whatever fails, the log file, the capture
  handle, the GPIO chip and line, the threads with their mutexes and conditions and every block of
  memory that were acquired are released once and nothing else is; the program exits with success
  exactly when help was asked for or everything was initialised and the loop did not fail.
\<close>

theorem main_releases_everything:
  assumes "captured_ok (mo_delivered m)"
  shows "\<exists>res. main m program_name args io = Some res \<and> released_all m (mr_calls res) \<and>
    mr_exit res = (case parse_arguments args of
                     Rejected _ \<Rightarrow> 1 | HelpShown \<Rightarrow> 0 | Accepted _ \<Rightarrow> if capturing m then 0 else 1)"
proof (cases "parse_arguments args")
  case (Accepted config)
  then have interface: "cf_interface_name config \<noteq> None" by (rule accepted_interface)
  show ?thesis
  proof (cases "mo_logger_alloc m \<and> mo_fopen m \<and> mo_detector_alloc m \<and> mo_rules_alloc m")
    case False
    then show ?thesis
      using Accepted
      by (cases "mo_logger_alloc m"; cases "mo_fopen m"; cases "mo_detector_alloc m")
        (auto simp: main_def logger_open_def Let_def released_all_def memory_released_def capturing_def
          scan_detector_create_def rules_engine_create_def release_detector_def release_logger_def logger_close_def)
  next
    case True
    then obtain d where d: "scan_detector_create True (cf_scan_window_seconds config) (cf_scan_threshold config) = Some d"
      by (simp add: scan_detector_create_def)
    have "main m program_name args io = main_devices m config
        \<lparr>ax_logger = Some \<lparr>lg_log_file = True\<rparr>, ax_led_controller = None, ax_scan_detector = Some d,
         ax_rules_engine = Some \<lparr>ssh_attempts = []\<rparr>, ax_display_controller = None\<rparr>
        [LoggerCall LogAlloc, LoggerCall LogOpen, DetectorAlloc, RulesAlloc] io"
      using True Accepted d by (simp add: main_def logger_open_def Let_def rules_engine_create_def)
    with main_devices_released [OF assms interface _ _ _ _ refl, of d "\<lparr>ssh_attempts = []\<rparr>" io]
      True detector_create_ok [OF d] Accepted show ?thesis by simp
  qed
qed (simp_all add: main_def released_all_def memory_released_def)

definition example_outcomes :: main_outcomes where
  "example_outcomes =
     \<lparr>mo_platform = example_platform,
      mo_logger_alloc = True, mo_fopen = True, mo_detector_alloc = True, mo_rules_alloc = True,
      mo_led = led_all_ok,
      mo_display = \<lparr>do_alloc = True, do_lock_free = True, do_mutex_init = True, do_cond_init = True,
                    do_thread_create = True\<rparr>,
      mo_display_init = (True, []), mo_handlers = True, mo_pcap_open = Inr (), mo_capture_alloc = True,
      mo_delivered = [(Some \<lparr>caplen = 2, len = 60\<rparr>, Some [0, 1])], mo_inputs = (\<lambda>_. example_inputs),
      mo_loop_result = - 2, mo_pcap_error = [], mo_stop_requested = True\<rparr>"

theorem main_releases_everything_witness:
  "\<exists>res. main example_outcomes ''netmon'' [''-i'', ''eth0'', ''--no-led''] \<lparr>st_stdout = [], st_log = []\<rparr> = Some res \<and>
     released_all example_outcomes (mr_calls res) \<and> mr_exit res = 0"
proof -
  have "captured_ok (mo_delivered example_outcomes)" "capturing example_outcomes"
    by (simp_all add: captured_ok_def capturing_def example_outcomes_def led_all_ok_def)
  moreover have "\<exists>config. parse_arguments [''-i'', ''eth0'', ''--no-led''] = Accepted config"
    by (simp add: parse_arguments_def parse_argument_def check_config_Accepted default_config_def
        set_display_def lines_separate_def)
  ultimately show ?thesis
    using main_releases_everything [of example_outcomes "''netmon''" "[''-i'', ''eth0'', ''--no-led'']"
        "\<lparr>st_stdout = [], st_log = []\<rparr>"] by auto
qed



end
