(* ===== verification/Main_Wire.thy ===== *)
theory Main_Wire
  imports Main_Packets Parser_Frames Rules_Properties
begin

text \<open>
  From the wire to the outputs: what \<open>process_packet\<close> prints, logs, counts and enqueues for a TCP
  frame, in terms of the fields of its headers. Each lemma composes the results of one component. The
  last sections have what the properties of the root theory need about the counters of the display,
  a clock that steps back and windows given on the command line.
\<close>

section \<open>The effects of one packet\<close>

text \<open>Publishing a snapshot leaves the counters alone.\<close>

lemma publish_scan_counts:
  "display_controller_counts (fst (display_controller_publish_scan ok d s)) = display_controller_counts d"
  by (auto simp: display_controller_publish_scan_def display_controller_counts_def Let_def split: option.split)

text \<open>Whether the scan detector raises an alert for a packet, and what follows from it.\<close>

definition scan_alerted :: "platform \<Rightarrow> packet_inputs \<Rightarrow> scan_detector \<Rightarrow> packet_info \<Rightarrow> bool" where
  "scan_alerted pf inp d p =
     fst (scan_detector_observe (pf_cvt pf) (in_source_alloc inp) (in_port_alloc inp) (in_scan_now inp)
       (Some d) (Some p) (Some (in_scan_alert inp)))"

lemma process_packet_effects:
  assumes "app_ok c" "ax_scan_detector c = Some d"
    and parsed: "parse_packet (pf_endian pf) (Some bytes) (ucast (caplen header)) (ucast (len header))
      (Some (in_packet_info inp)) = Some (ok, Some p)"
    and evaluated: "rules_engine_evaluate_packet (pf_cvt pf) (in_attempt_alloc inp) (in_rules_now inp)
      (ax_rules_engine c) (Some p) (Some (in_event inp)) = (True, Some r, Some e)"
    and emitted: "io' = logger_emit (pf_endian pf) (pf_raw_time pf) (in_event_log_now inp) (ax_logger c) (Some e) io"
    and queued: "led = led_controller_enqueue (ax_led_controller c) (ev_led_action e)"
  obtains c' io'' where
    "process_packet pf inp (Some header) (Some bytes) (Some c, io) = Some (Some c', io'')"
    "if scan_alerted pf inp d p
     then appended io' io'' \<and> ax_led_controller c' = led_controller_enqueue led LED_ACTION_RAPID
     else io'' = io' \<and> ax_led_controller c' = led"
    "display_controller_counts (ax_display_controller c') =
      display_controller_counts (display_controller_record_event (ax_display_controller c) (Some e))"
    "ax_rules_engine c' = Some r"
proof -
  have "detector_ok d" using assms(1,2) by (auto simp: app_ok_def)
  from observe_total [OF this, of "pf_cvt pf" "in_source_alloc inp" "in_port_alloc inp" "in_scan_now inp" p
      "in_scan_alert inp"]
  obtain alerted d' a' where observed:
    "scan_detector_observe (pf_cvt pf) (in_source_alloc inp) (in_port_alloc inp) (in_scan_now inp) (Some d) (Some p)
       (Some (in_scan_alert inp)) = (alerted, Some d', Some a')" by blast
  have alerted: "scan_alerted pf inp d p = alerted" by (simp add: scan_alerted_def observed)
  obtain e' where alert:
    "rules_make_scan_alert (in_alert_packet_info inp) (al_src_ipv4 a') (al_unique_ports a') (al_window_seconds a')
       (Some e) = Some e'" "ev_led_action e' = LED_ACTION_RAPID"
    by (simp add: rules_make_scan_alert_def)
  define display where "display = display_controller_record_event (ax_display_controller c) (Some e)"
  define c' where "c' = c\<lparr>ax_rules_engine := Some r,
    ax_led_controller := (if alerted then led_controller_enqueue led LED_ACTION_RAPID else led),
    ax_scan_detector := Some d',
    ax_display_controller := fst (display_controller_publish_scan (in_snapshot_alloc inp) display (Some d'))\<rparr>"
  define io'' where "io'' = (if alerted
    then logger_emit (pf_endian pf) (pf_raw_time pf) (in_alert_log_now inp) (ax_logger c) (Some e') io' else io')"
  have "process_packet pf inp (Some header) (Some bytes) (Some c, io) = Some (Some c', io'')"
    unfolding process_packet_def
    by (simp add: parsed evaluated report_event_def assms(2) observed alert c'_def io''_def emitted queued
        display_def split_beta)
  then show ?thesis
    by (rule that)
      (simp_all add: alerted c'_def io''_def emit_appends publish_scan_counts display_def)
qed

lemma unat_caplen: "unat (ucast (n :: u32) :: u64) = unat n"
  using unsigned_less [where 'a = nat, of n] by (subst unsigned_ucast_eq) (rule take_bit_nat_eq_self, simp)

section \<open>The event of a TCP packet\<close>

lemma evaluate_tcp:
  assumes "\<not> malformed p" "\<not> truncated p" "\<not> has_arp p" "\<not> is_ipv6_observed p" "\<not> has_icmp p" "has_tcp p"
    and "now \<noteq> time_error"
    and alert: "alert \<longleftrightarrow> is_ssh_initial_syn p \<and>
      packet_key p \<notin> attempt_key ` set (unlink_old_attempts cvt now (ssh_attempts r))"
  shows "\<exists>r'. rules_engine_evaluate_packet cvt ok now (Some r) (Some p) (Some ev) =
    (True, Some r', Some (init_event_from_packet p event_zero EVENT_KIND_TCP
       (if alert then EVENT_SEVERITY_ALERT else EVENT_SEVERITY_INFO)
       (if alert then LED_ACTION_LONG else LED_ACTION_NONE)))"
proof (cases "is_ssh_initial_syn p")
  case True
  then have "is_ssh_attempt p" using assms(1-6) by (simp add: is_ssh_attempt_def)
  moreover have "\<exists>r'. ssh_alert_should_escalate cvt ok now (Some r) (Some p) = (alert, Some r')"
    using assms(7) alert True
    by (simp add: ssh_alert_should_escalate_def prune_ssh_attempts_def split_beta track_attempt_escalates)
  ultimately show ?thesis by (auto simp: evaluate_attempt_step)
next
  case False
  then have "\<not> is_ssh_attempt p" by (simp add: is_ssh_attempt_def)
  then show ?thesis
    using False assms(1-6) alert
    by (simp add: evaluate_other_step rules_evaluate_packet_def clear_event_def)
qed

section \<open>The messages of a TCP frame\<close>

definition hint_text :: "tcp_fields \<Rightarrow> string" where
  "hint_text t =
     (case service_hint_name (detect_service_hint IPPROTO_TCP (th_sport t) (th_dport t)) of
        None \<Rightarrow> [] | Some name \<Rightarrow> '' SERVICE_HINT='' @ name)"

definition tcp_line :: "ipv4_fields \<Rightarrow> tcp_fields \<Rightarrow> string" where
  "tcp_line h t =
     ''TCP '' @ dotted (ip_src h) @ '':'' @ show_word (th_sport t) @ '' -> '' @ dotted (ip_dst h) @ '':'' @
     show_word (th_dport t) @ '' FLAGS='' @ join_commas (shown_flags (th_flags t)) @ hint_text t"

definition tcp_entry :: "ipv4_fields \<Rightarrow> tcp_fields \<Rightarrow> string" where
  "tcp_entry h t =
     ''TCP SRC='' @ dotted (ip_src h) @ '' SPORT='' @ show_word (th_sport t) @ '' DST='' @ dotted (ip_dst h) @
     '' DPORT='' @ show_word (th_dport t) @ '' FLAGS='' @ join_commas (shown_flags (th_flags t)) @
     '' SEQ='' @ show_word (th_seq t) @ '' ACKNUM='' @ show_word (th_ack t) @
     '' HLEN='' @ decimal (20 + length (th_options t)) @ hint_text t"

text \<open>The struct of a TCP frame, and its event.\<close>

abbreviation frame_info :: "endian \<Rightarrow> ipv4_fields \<Rightarrow> tcp_fields \<Rightarrow> packet_info \<Rightarrow> packet_info" where
  "frame_info en h t i \<equiv> tcp_info t (ipv4_info en h i)"

lemma frame_info_simps [simp]:
  "src_ipv4 (frame_info en h t i) = host_u32 en (ip_src h)" "dst_ipv4 (frame_info en h t i) = host_u32 en (ip_dst h)"
  "src_port (frame_info en h t i) = th_sport t" "dst_port (frame_info en h t i) = th_dport t"
  "tcp_sequence (frame_info en h t i) = th_seq t" "tcp_acknowledgment (frame_info en h t i) = th_ack t"
  "tcp_flags (frame_info en h t i) = th_flags t" "has_tcp (frame_info en h t i)"
  "tcp_header_length (frame_info en h t i) = of_nat (20 + length (th_options t))"
  "service_hint (frame_info en h t i) = detect_service_hint IPPROTO_TCP (th_sport t) (th_dport t)"
  "has_arp (frame_info en h t i) = has_arp i" "has_icmp (frame_info en h t i) = has_icmp i"
  "is_ipv6_observed (frame_info en h t i) = is_ipv6_observed i"
  by (simp_all add: tcp_info_def ipv4_info_def)

lemma ethernet_flags:
  "\<not> has_arp (ethernet_info c w dm sm et)" "\<not> has_icmp (ethernet_info c w dm sm et)"
  "\<not> is_ipv6_observed (ethernet_info c w dm sm et)"
  by (simp_all add: ethernet_info_def)

lemma format_ipv4_bytes:
  "length bs = 4 \<Longrightarrow> format_ipv4 en (host_u32 en bs) INET_ADDRSTRLEN = dotted bs"
  using length_dotted [of bs] by (simp add: format_ipv4_def inet_ntop_def mem_u32_host_u32 Let_def)

lemma short_fits: "short k text \<Longrightarrow> k \<le> 511 \<Longrightarrow> c_snprintf 512 text = text"
  by (simp add: short_def c_snprintf_def)

lemma tcp_messages:
  assumes "ipv4_fields_ok h" "tcp_fields_ok t" "ev_kind e = EVENT_KIND_TCP" "ev_packet e = frame_info en h t i"
  shows "build_terminal_message en e 512 = tcp_line h t" "build_log_message en e 512 = tcp_entry h t"
proof -
  have ip: "format_ipv4 en (host_u32 en (ip_src h)) INET_ADDRSTRLEN = dotted (ip_src h)"
    "format_ipv4 en (host_u32 en (ip_dst h)) INET_ADDRSTRLEN = dotted (ip_dst h)"
    using assms(1) by (simp_all add: ipv4_fields_ok_def format_ipv4_bytes)
  have hlen: "show_word (of_nat (20 + length (th_options t)) :: u8) = decimal (20 + length (th_options t))"
    using assms(2) by (simp only: show_word_def tcp_fields_ok_def) (subst unat_of_nat_small, simp_all)
  have short_dotted: "short 15 (dotted bs)" for bs by (simp add: short_def length_dotted)
  have flags: "short 15 (join_commas (shown_flags (th_flags t)))"
    using short_flags [of "th_flags t"] by (simp add: format_tcp_flags_exact)
  note shorts = short_append short_words short_dotted flags
  note unfold = build_terminal_message_def build_log_message_def tcp_line_def tcp_entry_def hint_text_def
    Let_def assms(3,4) event_kind.case frame_info_simps ip hlen [symmetric] format_tcp_flags_exact
  show "build_terminal_message en e 512 = tcp_line h t"
    by (cases "service_hint_name (detect_service_hint IPPROTO_TCP (th_sport t) (th_dport t))",
        simp_all only: unfold option.case append_assoc append_Nil2)
      (rule short_fits, (rule shorts | erule short_hint | rule short_literal)+, simp)+
  show "build_log_message en e 512 = tcp_entry h t"
    by (cases "service_hint_name (detect_service_hint IPPROTO_TCP (th_sport t) (th_dport t))",
        simp_all only: unfold option.case append_assoc append_Nil2)
      (rule short_fits, (rule shorts | erule short_hint | rule short_literal)+, simp)+
qed

section \<open>When a frame is an SSH alert\<close>

text \<open>
  A connection attempt to port 22 that the engine has not seen in the last five seconds. An attempt is
  identified by addresses, ports and sequence number; addresses are kept as they are in memory.
\<close>

definition ssh_alert_due :: "platform \<Rightarrow> time_t \<Rightarrow> rules_engine \<Rightarrow> ipv4_fields \<Rightarrow> tcp_fields \<Rightarrow> bool" where
  "ssh_alert_due pf now r h t \<longleftrightarrow>
     th_dport t = 22 \<and> th_flags t AND TH_SYN \<noteq> 0 \<and> th_flags t AND TH_ACK = 0 \<and>
     \<not> list_ex (\<lambda>a. difftime_u32 (pf_cvt pf) now (sa_seen_at a) \<le> SSH_ALERT_DEDUP_SECONDS \<and>
         mem_u32 (pf_endian pf) (sa_src_ipv4 a) = ip_src h \<and> mem_u32 (pf_endian pf) (sa_dst_ipv4 a) = ip_dst h \<and>
         sa_src_port a = th_sport t \<and> sa_dst_port a = th_dport t \<and> sa_tcp_sequence a = th_seq t)
       (ssh_attempts r)"

lemma address_bytes:
  assumes "length bs = 4"
  shows "mem_u32 en address = bs \<longleftrightarrow> address = host_u32 en bs"
proof
  have "host_u32 en (mem_u32 en address) = address"
    by (cases en) (simp_all add: mem_u32_def host_u32_def be32_inverse)
  then show "mem_u32 en address = bs \<Longrightarrow> address = host_u32 en bs" by metis
  show "address = host_u32 en bs \<Longrightarrow> mem_u32 en address = bs"
    using assms by (simp add: mem_u32_host_u32)
qed

lemma ssh_alert_due_iff:
  assumes "ipv4_fields_ok h"
  shows "ssh_alert_due pf now r h t \<longleftrightarrow>
    is_ssh_initial_syn (frame_info (pf_endian pf) h t i) \<and>
    packet_key (frame_info (pf_endian pf) h t i) \<notin>
      attempt_key ` set (unlink_old_attempts (pf_cvt pf) now (ssh_attempts r))"
proof -
  have "length (ip_src h) = 4" "length (ip_dst h) = 4" using assms by (simp_all add: ipv4_fields_ok_def)
  then show ?thesis
    by (auto simp: ssh_alert_due_def is_ssh_initial_syn_def unlink_old_attempts_filter list_ex_iff address_bytes
        packet_key_def attempt_key_def not_less image_iff)
qed

lemma count_ssh_alert:
  assumes "ev_kind e = EVENT_KIND_TCP" "ev_led_action e = (if alert then LED_ACTION_LONG else LED_ACTION_NONE)"
  shows "display_controller_counts (display_controller_record_event display (Some e)) =
    (display_controller_counts display)\<lparr>dc_ssh :=
       (if alert \<and> display_controller_is_available display \<and> dc_ssh (display_controller_counts display) \<noteq> - 1
        then dc_ssh (display_controller_counts display) + 1 else dc_ssh (display_controller_counts display))\<rparr>"
  using assms
  by (auto simp: display_controller_record_event_def display_controller_counts_def
      display_controller_is_available_def split: option.split)

lemma severity_tag:
  "severity_name EVENT_SEVERITY_ALERT = ''ALERT''" "severity_name EVENT_SEVERITY_INFO = ''INFO''"
  "pad_right 5 ''ALERT'' = ''ALERT''" "pad_right 5 ''INFO'' = ''INFO ''"
  by (simp_all add: pad_right_def severity_name_def numeral_eq_Suc)

text \<open>The texts of an event on both streams.\<close>

lemma emit_tcp_event:
  assumes "ev_kind e = EVENT_KIND_TCP" "ev_packet e = frame_info en h t i" "ev_should_print e" "ev_should_log e"
    and "ev_severity e = (if alert then EVENT_SEVERITY_ALERT else EVENT_SEVERITY_INFO)"
    and "ipv4_fields_ok h" "tcp_fields_ok t"
  shows "logger_emit en raw_time now (Some l) (Some e) io =
    \<lparr>st_stdout = st_stdout io @ (if alert then ''[ALERT] '' else ''[INFO ] '') @ tcp_line h t @ newline,
     st_log = st_log io @ (if lg_log_file l
       then format_timestamp raw_time now 40 @ (if alert then '' ALERT '' else '' INFO '') @ tcp_entry h t @ newline
       else [])\<rparr>"
  using assms(3-5)
  by (cases io; cases "lg_log_file l"; cases alert)
    (simp_all add: logger_emit_def Let_def tcp_messages [OF assms(6,7,1,2)] severity_tag)

section \<open>What the counters of the display count\<close>

text \<open>
  The capture thread evaluates a packet and records its event, as \<open>process_packet\<close> does; each packet
  comes with the outcome of an allocation and the time. The outcomes are what the rules engine
  returned and the event it left.
\<close>

fun record_packets ::
  "(int \<Rightarrow> u32) \<Rightarrow> (bool \<times> time_t \<times> packet_info) list \<Rightarrow> rules_engine option \<Rightarrow> event option \<Rightarrow>
   display_controller option \<Rightarrow> (bool \<times> event option) list \<times> display_controller option" where
  "record_packets cvt [] engine event display = ([], display)"
| "record_packets cvt ((alloc_ok, now, p) # steps) engine event display =
     (case rules_engine_evaluate_packet cvt alloc_ok now engine (Some p) event of
        (raised, engine, event) \<Rightarrow>
          (case record_packets cvt steps engine event
                  (if raised then display_controller_record_event display event else display) of
             (outcomes, display) \<Rightarrow> ((raised, event) # outcomes, display)))"

definition is_echo_request :: "packet_info \<Rightarrow> bool" where
  "is_echo_request p \<longleftrightarrow>
     \<not> malformed p \<and> \<not> truncated p \<and> \<not> has_arp p \<and> \<not> is_ipv6_observed p \<and> has_icmp p \<and> icmp_type p = ICMP_ECHO"

lemma evaluated_counts:
  assumes "rules_engine_evaluate_packet cvt ok now (Some engine) (Some p) (Some ev) = (raised, engine', Some e)"
  shows "raised \<and> counts_icmp e \<longleftrightarrow> is_echo_request p" and "raised \<and> counts_ssh e \<longleftrightarrow> raises_alert (raised, Some e)"
proof -
  obtain raised1 e1 where eval: "rules_evaluate_packet (Some p) (Some ev) = (raised1, Some e1)"
    using rules_evaluate_writes by blast
  have "(raised \<and> counts_icmp e \<longleftrightarrow> is_echo_request p) \<and> (raised \<and> counts_ssh e \<longleftrightarrow> raises_alert (raised, Some e))"
  proof (cases "is_ssh_attempt p")
    case True
    have "e = init_event_from_packet p event_zero EVENT_KIND_TCP EVENT_SEVERITY_ALERT LED_ACTION_LONG \<or>
        e = init_event_from_packet p event_zero EVENT_KIND_TCP EVENT_SEVERITY_INFO LED_ACTION_NONE"
      using assms unfolding evaluate_attempt_step [OF True] by (auto split: prod.split_asm if_split_asm)
    with True show ?thesis
      by (auto simp: counts_icmp_def counts_ssh_def raises_alert_def is_ssh_attempt_def is_echo_request_def)
  next
    case False
    then have same: "raised1 = raised" "e1 = e" using assms eval by (simp_all add: evaluate_other_step)
    have quiet: "\<not> raises_alert (raised, Some e)"
      using False evaluate_alert_iff [of p ev] eval same by simp
    from eval [unfolded same] show ?thesis
    proof (cases rule: rules_evaluate_cases)
      case refused
      then show ?thesis by (auto simp: is_echo_request_def raises_alert_def)
    next
      case (raised kind severity led)
      then show ?thesis using quiet False
        by (auto simp: counts_icmp_def counts_ssh_def raises_alert_def is_echo_request_def is_ssh_attempt_def
            split: if_split_asm)
    qed
  qed
  then show "raised \<and> counts_icmp e \<longleftrightarrow> is_echo_request p" and "raised \<and> counts_ssh e \<longleftrightarrow> raises_alert (raised, Some e)"
    by blast+
qed

lemma record_packets_counts:
  "display_controller_counts (snd (record_packets cvt steps (Some engine) (Some event) (Some c))) =
     (if display_controller_is_available (Some c)
      then \<lparr>dc_icmp = counted (dp_icmp_count c) (length (filter (is_echo_request \<circ> snd \<circ> snd) steps)),
            dc_ssh = counted (dp_ssh_count c)
              (length (filter raises_alert (fst (record_packets cvt steps (Some engine) (Some event) (Some c)))))\<rparr>
      else \<lparr>dc_icmp = dp_icmp_count c, dc_ssh = dp_ssh_count c\<rparr>)"
proof (induction steps arbitrary: engine event c)
  case Nil
  show ?case by (simp add: display_controller_counts_def counted_simps)
next
  case (Cons step steps)
  obtain alloc_ok now p where step: "step = (alloc_ok, now, p)" by (cases step)
  obtain raised engine' e where eval:
    "rules_engine_evaluate_packet cvt alloc_ok now (Some engine) (Some p) (Some event) = (raised, Some engine', Some e)"
    using evaluate_total by blast
  note counts = evaluated_counts [OF eval]
  define c' where "c' = (if display_controller_is_available (Some c)
    then c\<lparr>dp_icmp_count := (if is_echo_request p then bump (dp_icmp_count c) else dp_icmp_count c),
           dp_ssh_count := (if raises_alert (raised, Some e) then bump (dp_ssh_count c) else dp_ssh_count c)\<rparr> else c)"
  have recorded: "(if raised then display_controller_record_event (Some c) (Some e) else Some c) = Some c'"
    unfolding record_event_effect c'_def counts [symmetric] by (cases raised) simp_all
  have avail: "display_controller_is_available (Some c') = display_controller_is_available (Some c)"
    by (simp add: c'_def display_controller_is_available_def)
  show ?case
    using Cons.IH [of engine' e c'] avail
    by (cases "is_echo_request p"; cases "raises_alert (raised, Some e)")
      (simp_all add: step eval recorded split_beta c'_def bump_def counted_simps)
qed

section \<open>A clock that steps back\<close>

lemma step_back_age:
  assumes "now < t" "t - now < 2 ^ 32 - uint w"
  shows "\<not> difftime_u32 cvt_saturating now t > w" and "difftime_u32 cvt_wrapping now t > w"
proof -
  show "\<not> difftime_u32 cvt_saturating now t > w"
    using assms(1) by (simp add: difftime_u32_def cvt_saturating_def)
  have "uint (word_of_int (now - t) :: u32) = (now - t) mod 2 ^ 32"
    by (subst uint_word_of_int) simp
  also have "\<dots> = (now - t + 2 ^ 32) mod 2 ^ 32" by simp
  also have "\<dots> = now - t + 2 ^ 32"
    using assms uint_ge_0 [of w] by (intro mod_pos_pos_trivial) linarith+
  finally show "difftime_u32 cvt_wrapping now t > w"
    using assms(2) by (simp add: difftime_u32_def cvt_wrapping_def word_less_def)
qed

section \<open>A window on the command line\<close>

lemma accepts_window:
  assumes "w \<noteq> (0 :: u32)"
  shows "\<exists>config. parse_arguments [''-i'', name, ''--scan-window'', decimal (unat w)] = Accepted config \<and>
    cf_scan_window_seconds config = w"
proof -
  let ?opts = "[Interface name, ScanWindow (unat w)]"
  have "1 \<le> unat w" "unat w < 2 ^ 32"
    using assms unsigned_less [where 'a = nat, of w] by (simp_all add: Suc_le_eq unat_gt_0)
  then have "spelled (ScanWindow (unat w)) [''--scan-window'', decimal (unat w)]"
    by (simp add: spelled_def numeral_decimal)
  moreover have "spelled (Interface name) [''-i'', name]" by (simp add: spelled_def)
  ultimately have "command_line ?opts ([''-i'', name] @ [''--scan-window'', decimal (unat w)] @ [])"
    by (intro command_line.intros)
  then have line: "command_line ?opts [''-i'', name, ''--scan-window'', decimal (unat w)]" by simp
  have "check_config (fold apply_option ?opts default_config) =
      Accepted (default_config\<lparr>cf_interface_name := Some name, cf_scan_window_seconds := w\<rparr>)"
    by (simp add: check_config_def default_config_def set_display_def)
  with line have "parse_arguments [''-i'', name, ''--scan-window'', decimal (unat w)] =
      Accepted (default_config\<lparr>cf_interface_name := Some name, cf_scan_window_seconds := w\<rparr>)"
    unfolding parse_arguments_def parse_options_accepts by blast
  then show ?thesis by (intro exI conjI) (assumption, simp)
qed

end
