(* ===== verification/Spec2Isabelle.thy ===== *)
theory Spec2Isabelle
  imports Parser_Morphisms Rules_Properties Scan_Properties Tm1637_Properties Led_Properties
    Display_Properties Display_Threads Logger_Properties Main_Properties Main_Wire
begin

text \<open>
  netmon, verified. The program (\<open>src/*.c\<close>, \<open>include/*.h\<close>) captures packets with \<open>libpcap\<close>, parses
  their headers, turns them into events, writes these to the terminal and to a log, blinks an LED
  and shows counters on a TM1637 display. One thread, the capture thread, runs the callback of the
  capture; the LED and the display have a worker thread each.

  \<^bold>\<open>The parts and the theories.\<close> Every definition carries the name of the C function or type it
  translates; a record field carries the name of the struct field after a prefix.

  \<^item> \<open>Prelude\<close>, \<open>C_Runtime\<close>, \<open>C_Text\<close>: machine integers, reads from byte buffers that are \<open>None\<close>
    outside the buffer, byte order, \<open>difftime\<close> converted to \<open>unsigned int\<close> (locale
    \<open>double_to_unsigned\<close>, interpreted for AArch64 and x86-64), bounded string copies, the conversions
    of \<open>printf\<close>, \<open>inet_ntop\<close> and \<open>strtoul\<close> that the code uses.
  \<^item> \<open>Packet_Info\<close>, \<open>Events\<close>: \<open>PacketInfo\<close> of \<open>include/packet_info.h\<close>, \<open>Event\<close> of
    \<open>include/rules.h\<close>, \<open>LedAction\<close> of \<open>include/gpio_led.h\<close>.
  \<^item> \<open>Parser\<close> (\<open>src/parser.c\<close>): every parsing function on a buffer and the claimed length.
    \<open>Parser_Layers\<close> has the well-formedness of what is parsed, \<open>Parser_Frames\<close> an encoder of frames and
    the round trips, \<open>Parser_Morphisms\<close> the independence of the byte order and of the capture length.
  \<^item> \<open>Timed_Table\<close>: the locale \<open>timed_table\<close> of a list of keyed, stamped entries that is pruned by
    age; it is interpreted on the SSH attempts of \<open>Rules\<close> and on the ports of \<open>Scan_Detector\<close>.
  \<^item> \<open>Rules\<close> (\<open>src/rules.c\<close>): the classification of packets and the SSH alerts with their five-second
    deduplication; \<open>Rules_Properties\<close> relates any run to what the packets of the last seconds were.
  \<^item> \<open>Scan_Detector\<close> (\<open>src/scan_detector.c\<close>): sources, ports, pruning, the alert with its cooldown,
    snapshots; \<open>Scan_Properties\<close> proves it equal to a specification that forgets nothing.
  \<^item> \<open>Tm1637\<close> (\<open>src/tm1637.c\<close>): the driver over a bus of callbacks, and the calls to \<open>libgpiod\<close>;
    \<open>Tm1637_Properties\<close> decodes the waveform with a receiver for the protocol of the chip.
  \<^item> \<open>Gpio_Led\<close> (\<open>src/gpio_led.c\<close>): ring buffer, patterns, creation and destruction, and the worker and
    its clients as step relations. A worker in \<open>pthread_cond_wait\<close> is blocked (\<open>Waiting\<close>) until a signal
    of a client or a spurious wake-up. \<open>Led_Properties\<close> interprets \<open>bounded_fifo\<close> (\<open>Bounded_Fifo\<close>) on the
    ring buffer, and \<open>shutdown\<close> (\<open>Shutdown\<close>) twice on the worker: \<open>led_shutdown\<close> when the running flag is
    cleared, \<open>led_draining\<close> while actions are queued.
  \<^item> \<open>Display\<close> (\<open>src/display.c\<close>): counters, pages, publishing, the worker as a function of the values
    it loads in each round, creation and destruction. \<open>Display_Threads\<close> has the same worker and the
    capture thread as interleaved atomic steps over the addresses of snapshots, from the start with
    its condition variable to the destruction, and interprets \<open>shutdown\<close> on them.
  \<^item> \<open>Logger\<close> (\<open>src/logger.c\<close>): fields, timestamps, both messages of an event, the streams.
  \<^item> \<open>Capture\<close> (\<open>src/capture.c\<close>): the wrapper of \<open>libpcap\<close>.
  \<^item> \<open>App_Config\<close> (the command line in \<open>src/main.c\<close>, with the grammar \<open>command_line\<close> of what it should
    accept and the configuration \<open>requested_config\<close> it should give), \<open>Main_App\<close> (the packet callback, \<open>main\<close> and the
    signal handler): the composition of all the components. \<open>Main_Packets\<close>, \<open>Main_Wire\<close> and
    \<open>Main_Properties\<close> have what holds of the whole; the properties below follow a frame from the wire to
    the outputs.

  \<^bold>\<open>State.\<close> A struct is a record and a function that changes it returns the new record; a pointer that
  may be \<open>NULL\<close> is an option; a linked list is the list of its entries in list order; a resource
  function returns the calls it makes as a list, given the outcomes of those that can fail. What
  the environment decides (allocations, clocks, library results, uninitialised locals) is an
  argument, and a theorem holds for all of it unless its text says otherwise: the exact results about
  runs of the scan detector and of the rules engine (\<open>scan_alert_exact\<close>, \<open>scan_snapshot_exact\<close>,
  \<open>ssh_alert_once_per_window\<close>, \<open>ssh_table_exact\<close>) are about runs whose allocations succeed, and the
  invariants of these components hold for any outcome.

  \<^bold>\<open>What is shown.\<close> Memory safety of the parser and of the processing of any capture; invariants of
  every component; exact functional behaviour of alerts, deduplication, snapshots, pages, counters,
  messages, frames on the bus, and which command lines are accepted as what; round trips of frames, addresses and
  numbers; for the two worker threads the order of actions, the ownership of snapshots in every
  interleaving, that no signal is missed and that stopping them ends; balanced resources of each controller and of \<open>main\<close> on
  every path. Where the code does not do what it means to, a property states what it does: the age
  of an entry when the clock steps back (\<open>clock_step_back_is_platform_dependent\<close>), the silence of a
  detector whose clock is within the first window (\<open>scan_silent_within_first_window\<close>), bytes beyond the IPv4 total length, and the two
  windows in which a signal is lost or touches a freed handle (\<open>stop_signal_exact\<close>).

  \<^bold>\<open>Bounds and fuel.\<close> Loops over data are structural recursions. The sleep of the display worker takes
  the list of results of its calls, and the loop of the worker the list of its rounds, so no fuel is
  needed; the loop over the arguments has a termination proof. The delay of the driver repeats an
  interrupted sleep and is a \<open>partial_function\<close>; \<open>sleep_on_exact\<close> shows that it returns. The theorems about elapsed times
  assume what the 32-bit conversions need: times of at most \<open>2 ^ 32\<close> seconds and no step back of the
  clock; the display assumes a monotonic clock within \<open>2 ^ 63\<close> nanoseconds.

  \<^bold>\<open>Not modelled.\<close> The builds without \<open>ENABLE_GPIO\<close>; the text of \<open>localtime_r\<close> and \<open>strftime\<close>, a parameter; the order in
  which output of different threads reaches \<open>stderr\<close>; memory orders weaker than sequential
  consistency (the code uses the default order of C11 atomics); the tests and the scripts.
\<close>

section \<open>From the wire to the outputs\<close>

text \<open>
  C5: every TCP frame is reported, from the bytes on the wire to the outputs. When a whole TCP frame is
  captured, with any header fields, IPv4 and TCP options and payload, the callback prints and logs
  its line with the addresses, ports and flags of its headers; the line is an alert, the LED is asked
  for a long blink and the SSH counter goes up exactly when the frame opens a connection to port 22
  that was not tried in the last five seconds. Nothing else happens unless the scan detector raises an
  alert for the same packet, whose line comes after and which asks for a rapid blink.
\<close>

theorem tcp_frame_reported:
  assumes "app_ok c" "ax_logger c = Some l" "ax_rules_engine c = Some r" "ax_scan_detector c = Some d"
    and headers: "length dmac = 6" "length smac = 6" "ipv4_fields_ok h" "ip_proto h = IPPROTO_TCP"
      "ip_frag h AND 0x1fff = 0" "tcp_fields_ok t"
    and frame: "frame = ethernet_frame dmac smac ETHERTYPE_IP (ipv4_packet h (tcp_segment t payload))"
    and whole: "unat (caplen header) = length frame" and clock: "in_rules_now inp \<noteq> time_error"
    and alert: "alert \<longleftrightarrow> ssh_alert_due pf (in_rules_now inp) r h t"
    and scan: "scan \<longleftrightarrow> scan_alerted pf inp d (frame_info (pf_endian pf) h t
      (ethernet_info (ucast (caplen header)) (ucast (len header)) dmac smac ETHERTYPE_IP))"
    and line: "line = (if alert then ''[ALERT] '' else ''[INFO ] '') @ tcp_line h t @ newline"
    and entry: "entry = (if lg_log_file l
      then format_timestamp (pf_raw_time pf) (in_event_log_now inp) 40 @
        (if alert then '' ALERT '' else '' INFO '') @ tcp_entry h t @ newline else [])"
    and counts: "counts = display_controller_counts (ax_display_controller c)"
  shows "\<exists>c' more_lines more_entries.
    process_packet pf inp (Some header) (Some frame) (Some c, io) =
      Some (Some c', \<lparr>st_stdout = st_stdout io @ line @ more_lines, st_log = st_log io @ entry @ more_entries\<rparr>) \<and>
    (\<not> scan \<longrightarrow> more_lines = [] \<and> more_entries = []) \<and>
    ax_led_controller c' =
      (let led = led_controller_enqueue (ax_led_controller c) (if alert then LED_ACTION_LONG else LED_ACTION_NONE)
       in if scan then led_controller_enqueue led LED_ACTION_RAPID else led) \<and>
    display_controller_counts (ax_display_controller c') = counts\<lparr>dc_ssh :=
      (if alert \<and> display_controller_is_available (ax_display_controller c) \<and> dc_ssh counts \<noteq> - 1
       then dc_ssh counts + 1 else dc_ssh counts)\<rparr>"
proof -
  let ?p = "frame_info (pf_endian pf) h t
    (ethernet_info (ucast (caplen header)) (ucast (len header)) dmac smac ETHERTYPE_IP)"
  let ?e = "init_event_from_packet ?p event_zero EVENT_KIND_TCP
    (if alert then EVENT_SEVERITY_ALERT else EVENT_SEVERITY_INFO) (if alert then LED_ACTION_LONG else LED_ACTION_NONE)"
  let ?io = "\<lparr>st_stdout = st_stdout io @ line, st_log = st_log io @ entry\<rparr>"
  have "unat (ucast (caplen header) :: u64) = unat (caplen header)" by (rule unat_caplen)
  with parse_tcp_frame_lemma [OF headers frame] whole
  have parsed: "parse_packet (pf_endian pf) (Some frame) (ucast (caplen header)) (ucast (len header))
      (Some (in_packet_info inp)) = Some (True, Some ?p)" by simp
  have "\<exists>r'. rules_engine_evaluate_packet (pf_cvt pf) (in_attempt_alloc inp) (in_rules_now inp) (Some r) (Some ?p)
      (Some (in_event inp)) = (True, Some r', Some ?e)"
    by (rule evaluate_tcp) (simp_all add: info_flags ethernet_flags clock alert ssh_alert_due_iff headers)
  then obtain r' where evaluated: "rules_engine_evaluate_packet (pf_cvt pf) (in_attempt_alloc inp) (in_rules_now inp)
      (ax_rules_engine c) (Some ?p) (Some (in_event inp)) = (True, Some r', Some ?e)"
    by (auto simp: assms(3))
  have "?io = logger_emit (pf_endian pf) (pf_raw_time pf) (in_event_log_now inp) (ax_logger c) (Some ?e) io"
    by (subst assms(2), subst emit_tcp_event) (simp_all add: headers line entry)
  from process_packet_effects [OF assms(1,4) parsed evaluated this refl]
  obtain c' io'' where run: "process_packet pf inp (Some header) (Some frame) (Some c, io) = Some (Some c', io'')"
    and effects: "if scan then appended ?io io'' \<and> ax_led_controller c' =
        led_controller_enqueue (led_controller_enqueue (ax_led_controller c) (ev_led_action ?e)) LED_ACTION_RAPID
      else io'' = ?io \<and> ax_led_controller c' = led_controller_enqueue (ax_led_controller c) (ev_led_action ?e)"
    and counted: "display_controller_counts (ax_display_controller c') =
      display_controller_counts (display_controller_record_event (ax_display_controller c) (Some ?e))"
    unfolding scan by blast
  have "appended ?io io''" using effects by (auto simp: appended_refl split: if_split_asm)
  then obtain more_lines more_entries where
    "io'' = \<lparr>st_stdout = st_stdout io @ line @ more_lines, st_log = st_log io @ entry @ more_entries\<rparr>"
    by (cases io'') (auto simp: appended_def prefix_def)
  moreover have "display_controller_counts (ax_display_controller c') = counts\<lparr>dc_ssh :=
      (if alert \<and> display_controller_is_available (ax_display_controller c) \<and> dc_ssh counts \<noteq> - 1
       then dc_ssh counts + 1 else dc_ssh counts)\<rparr>"
    unfolding counted counts by (rule count_ssh_alert) simp_all
  ultimately show ?thesis using run effects by (cases scan) (auto simp: Let_def)
qed

text \<open>A connection attempt to the SSH port of 10.0.0.2, with an empty table.\<close>

theorem tcp_frame_reported_witness:
  "\<exists>c' more_lines more_entries.
    process_packet example_platform example_inputs (Some \<lparr>caplen = 58, len = 58\<rparr>) (Some example_tcp_frame)
      (Some quiet_context, \<lparr>st_stdout = [], st_log = []\<rparr>) =
    Some (Some c', \<lparr>st_stdout =
        ''[ALERT] TCP 10.0.0.1:40000 -> 10.0.0.2:22 FLAGS=SYN SERVICE_HINT=SSH'' @ newline @ more_lines,
      st_log = ''1970-01-01T00:00:00+00:00 ALERT TCP SRC=10.0.0.1 SPORT=40000 DST=10.0.0.2 DPORT=22 FLAGS=SYN '' @
        ''SEQ=7 ACKNUM=0 HLEN=24 SERVICE_HINT=SSH'' @ newline @ more_entries\<rparr>)"
proof -
  have due: "True \<longleftrightarrow> ssh_alert_due example_platform (in_rules_now example_inputs) \<lparr>ssh_attempts = []\<rparr>
      (example_ipv4 IPPROTO_TCP 44) example_tcp"
    by (simp add: ssh_alert_due_def example_tcp_def)
  have whole: "unat (caplen \<lparr>caplen = 58, len = 58\<rparr>) = length example_tcp_frame"
    by (simp add: example_simps)
  have clock: "in_rules_now example_inputs \<noteq> time_error"
    by (simp add: example_inputs_def)
  have lines: "tcp_line (example_ipv4 IPPROTO_TCP 44) example_tcp =
      ''TCP 10.0.0.1:40000 -> 10.0.0.2:22 FLAGS=SYN SERVICE_HINT=SSH''"
    "tcp_entry (example_ipv4 IPPROTO_TCP 44) example_tcp =
      ''TCP SRC=10.0.0.1 SPORT=40000 DST=10.0.0.2 DPORT=22 FLAGS=SYN '' @
      ''SEQ=7 ACKNUM=0 HLEN=24 SERVICE_HINT=SSH''"
    "format_timestamp (pf_raw_time example_platform) (in_event_log_now example_inputs) 40 =
      ''1970-01-01T00:00:00+00:00''"
    by (simp_all add: tcp_line_def tcp_entry_def hint_text_def detect_service_hint_def service_hint_name_def
        shown_flags_def example_tcp_def example_ipv4_def dotted_def show_word_def decimal.simps digit_char_def
        char_of_def bit_0 format_timestamp_def c_strncpy_def utc_time_def example_platform_def example_inputs_def)
  have parts: "ax_logger quiet_context = Some \<lparr>lg_log_file = True\<rparr>"
    "ax_rules_engine quiet_context = Some \<lparr>ssh_attempts = []\<rparr>"
    "ax_scan_detector quiet_context = Some (the (ax_scan_detector quiet_context))"
    by (simp_all add: quiet_context_def rules_engine_create_def scan_detector_create_def)
  show ?thesis
    using tcp_frame_reported [where io = "\<lparr>st_stdout = [], st_log = []\<rparr>", OF quiet_context_ok parts
        example_simps(1,1,2,4,5,6) example_tcp_frame_def whole clock due refl refl refl refl]
    by (elim exE conjE) (intro exI, simp add: lines)
qed

text \<open>
  C23: the counters count what the packets are. After any packets the counters of an available
  controller have grown by the number of ICMP echo requests and of SSH alerts among them, each
  saturated at \<open>2 ^ 64 - 1\<close>, where an alert is what the rules engine raised after its deduplication;
  echo replies and other ICMP messages do not count. A controller that is not available is left as it
  was. Times, clocks and outcomes of allocations are arbitrary.
\<close>

theorem display_counts_packets:
  "case record_packets cvt steps (Some engine) (Some event) (Some c) of (outcomes, c') \<Rightarrow>
     display_controller_counts c' =
       (if display_controller_is_available (Some c)
        then \<lparr>dc_icmp = counted (dp_icmp_count c) (length (filter (is_echo_request \<circ> snd \<circ> snd) steps)),
              dc_ssh = counted (dp_ssh_count c) (length (filter raises_alert outcomes))\<rparr>
        else \<lparr>dc_icmp = dp_icmp_count c, dc_ssh = dp_ssh_count c\<rparr>)"
  using record_packets_counts [of cvt steps engine event c] by (simp add: split_beta)

text \<open>
  C32: a clock that steps back, for any window and any entries that were seen after the new time. C
  leaves the conversion of the negative age undefined: the saturating conversion of AArch64 keeps
  every port and every SSH attempt, the wrapping one of x86-64 drops them all. So after a step back
  the second platform loses a running port scan and raises an alert for a repeated connection
  attempt, which the first does not.
\<close>

theorem clock_step_back_is_platform_dependent:
  assumes "list_all (\<lambda>e. now < pe_seen_at e \<and> pe_seen_at e - now < 2 ^ 32 - uint w) (se_ports source)"
    and "list_all (\<lambda>a. now < sa_seen_at a \<and> sa_seen_at a - now < 2 ^ 32 - 5) (ssh_attempts engine)"
    and "now \<noteq> time_error" and "packet_key p \<in> attempt_key ` set (ssh_attempts engine)"
  shows "prune_ports cvt_saturating source now w = source \<and>
    se_ports (prune_ports cvt_wrapping source now w) = [] \<and>
    \<not> fst (ssh_alert_should_escalate cvt_saturating ok now (Some engine) (Some p)) \<and>
    fst (ssh_alert_should_escalate cvt_wrapping ok now (Some engine) (Some p))"
proof -
  have ports: "\<not> difftime_u32 cvt_saturating now (pe_seen_at e) > w" "difftime_u32 cvt_wrapping now (pe_seen_at e) > w"
    if "e \<in> set (se_ports source)" for e
    using that assms(1) step_back_age by (auto simp: list_all_iff)
  have attempts: "\<not> difftime_u32 cvt_saturating now (sa_seen_at a) > 5" "difftime_u32 cvt_wrapping now (sa_seen_at a) > 5"
    if "a \<in> set (ssh_attempts engine)" for a
    using that assms(2) step_back_age [of now "sa_seen_at a" 5] by (auto simp: list_all_iff)
  have "unlink_old_ports cvt_saturating now w (se_ports source) = se_ports source"
    "unlink_old_ports cvt_wrapping now w (se_ports source) = []"
    using ports by (auto simp: unlink_old_ports_filter outside_window_def filter_id_conv filter_empty_conv)
  moreover have "unlink_old_attempts cvt_saturating now (ssh_attempts engine) = ssh_attempts engine"
    "unlink_old_attempts cvt_wrapping now (ssh_attempts engine) = []"
    using attempts by (auto simp: unlink_old_attempts_filter filter_id_conv filter_empty_conv)
  ultimately show ?thesis
    using assms(3,4)
    by (simp add: prune_ports_def ssh_alert_should_escalate_def prune_ssh_attempts_def split_beta track_attempt_escalates)
qed

theorem clock_step_back_is_platform_dependent_witness:
  "se_ports (prune_ports cvt_wrapping ((new_source 1)\<lparr>se_ports := [\<lparr>pe_port = 80, pe_seen_at = 1000\<rparr>]\<rparr>) 999 10) = [] \<and>
   fst (ssh_alert_should_escalate cvt_wrapping True 999
     (Some \<lparr>ssh_attempts = [new_attempt ssh_syn_example 1000]\<rparr>) (Some ssh_syn_example))"
  using clock_step_back_is_platform_dependent [of 999 10
      "(new_source 1)\<lparr>se_ports := [\<lparr>pe_port = 80, pe_seen_at = 1000\<rparr>]\<rparr>"
      "\<lparr>ssh_attempts = [new_attempt ssh_syn_example 1000]\<rparr>" ssh_syn_example True]
  by simp

text \<open>
  C31: a window the command line accepts can switch the scan detector off. Every window up to
  \<open>2 ^ 32 - 1\<close> seconds is accepted; a detector created with it raises no alert for any packets while
  the clock is between 0 and the window, even if it steps back and whatever is allocated, however
  many ports are probed, because the time of the last alert starts at 0 and counts as an alert. With
  the largest window this lasts until 2106.
\<close>

theorem scan_silent_within_first_window:
  assumes "double_to_unsigned cvt" and "w \<noteq> 0"
    and "list_all (\<lambda>(now, _). 0 \<le> now \<and> now \<le> uint w) calls"
  shows "\<exists>config. parse_arguments [''-i'', name, ''--scan-window'', decimal (unat w)] = Accepted config \<and>
    (case scan_detector_create alloc_ok (cf_scan_window_seconds config) (cf_scan_threshold config) of
       None \<Rightarrow> \<not> alloc_ok
     | Some d \<Rightarrow> sd_window_seconds d = w \<and>
         list_all (\<lambda>raised. \<not> raised) (alert_flags cvt calls (Some d) alert))"
proof -
  obtain config where config: "parse_arguments [''-i'', name, ''--scan-window'', decimal (unat w)] = Accepted config"
    "cf_scan_window_seconds config = w"
    using accepts_window [OF assms(2)] by blast
  have "list_all (\<lambda>raised. \<not> raised) (alert_flags cvt calls (Some d) alert)"
    if "scan_detector_create alloc_ok w threshold = Some d" for d threshold
    using that assms(2,3)
    by (intro alert_flags_silent [OF assms(1)])
      (auto simp: scan_detector_create_def never_alerted_def split: if_split_asm)
  with config assms(2) show ?thesis
    by (intro exI [of _ config]) (auto simp: scan_detector_create_def)
qed

theorem scan_silent_within_first_window_witness:
  "\<exists>config d. parse_arguments [''-i'', ''eth0'', ''--scan-window'', decimal (unat (- 1 :: u32))] = Accepted config \<and>
     scan_detector_create True (cf_scan_window_seconds config) (cf_scan_threshold config) = Some d \<and>
     list_all (\<lambda>raised. \<not> raised)
       (alert_flags cvt_saturating [(1700000000, probe_example 80, True, True)] (Some d) (Some alert_zero))"
proof -
  have "list_all (\<lambda>(now, _). 0 \<le> now \<and> now \<le> uint (- 1 :: u32)) [(1700000000, probe_example 80, True, True)]"
    by (simp add: unsigned_minus_1_eq_mask mask_eq_exp_minus_1)
  from scan_silent_within_first_window [OF aarch64.double_to_unsigned_axioms _ this, of "''eth0''" True "Some alert_zero"]
  show ?thesis by (auto split: option.split_asm)
qed

end
